(* ===== verification/Prelude.thy ===== *)
theory Prelude
  imports Main "HOL-Library.Word" "HOL-Library.AList"
begin

text \<open>
  What every component shares: Go's 64-bit \<open>int\<close> and \<open>time.Duration\<close> (signed, wrapping),
  instants, results with an error (\<open>Inl\<close>) or a value (\<open>Inr\<close>), tables of rows with a key
  column, and a generic transition system with its invariant rule.
\<close>

named_theorems go_defs \<open>unfolding rules for small wrappers of the Go code\<close>
named_theorems row_simps \<open>what an update of a table does to its rows\<close>

section \<open>Machine integers and time\<close>

text \<open>
  Go's \<open>int\<close> on the 64-bit targets and \<open>time.Duration\<close> (nanoseconds) are signed 64-bit
  words. A value is kept as an \<open>int\<close>; every operation of the source that can leave the
  range goes through \<open>wrap64\<close>, the two's complement reading of the low 64 bits.
\<close>

definition wrap64 :: "int \<Rightarrow> int" where
  "wrap64 x = sint (word_of_int x :: 64 word)"

definition in_int64 :: "int \<Rightarrow> bool" where
  "in_int64 x \<longleftrightarrow> - (2 ^ 63) \<le> x \<and> x < 2 ^ 63"

definition in_int32 :: "int \<Rightarrow> bool" where
  "in_int32 x \<longleftrightarrow> - (2 ^ 31) \<le> x \<and> x < 2 ^ 31"

lemma wrap64_id [simp]: "in_int64 x \<Longrightarrow> wrap64 x = x"
  by (simp add: wrap64_def in_int64_def sint_word_ariths(6)[symmetric] signed_take_bit_int_eq_self
      sint_sbintrunc')

lemma wrap64_range: "in_int64 (wrap64 x)"
  using sint_range_size [of "word_of_int x :: 64 word"]
  by (simp add: wrap64_def in_int64_def word_size)

text \<open>
  An instant is the number of nanoseconds since Go's zero \<open>time.Time\<close>, so
  \<open>t.IsZero()\<close> is \<open>t = 0\<close>. Instants are absolute: \<open>.UTC()\<close> does not change them.
\<close>

type_synonym instant = int
type_synonym duration = int

definition is_zero_time :: "instant \<Rightarrow> bool" where
  "is_zero_time t \<longleftrightarrow> t = 0"

definition millisecond :: duration where "millisecond = 1000000"
definition second :: duration where "second = 1000000000"
definition minute :: duration where "minute = 60 * second"
definition hour :: duration where "hour = 60 * minute"

lemmas duration_defs = millisecond_def second_def minute_def hour_def

text \<open>\<open>Time.Sub\<close> saturates at the ends of the 64-bit range.\<close>

definition time_sub :: "instant \<Rightarrow> instant \<Rightarrow> duration" where
  "time_sub a b = max (- (2 ^ 63)) (min (2 ^ 63 - 1) (a - b))"

lemma time_sub_exact: "in_int64 (a - b) \<Longrightarrow> time_sub a b = a - b"
  by (simp add: time_sub_def in_int64_def)

lemma time_sub_le: "0 \<le> a - b \<Longrightarrow> time_sub a b \<le> a - b"
  by (simp add: time_sub_def)

lemma time_sub_range: "in_int64 (time_sub a b)"
  by (simp add: time_sub_def in_int64_def)

text \<open>Postgres keeps a timestamp to the microsecond; the driver truncates.\<close>

definition pg_time :: "instant \<Rightarrow> instant" where
  "pg_time t = (t div 1000) * 1000"

lemma pg_time_le: "pg_time t \<le> t"
  unfolding pg_time_def by presburger

lemma pg_time_mono: "s \<le> t \<Longrightarrow> pg_time s \<le> pg_time t"
  unfolding pg_time_def by (simp add: zdiv_mono1)

lemma pg_time_idem [simp]: "pg_time (pg_time t) = pg_time t"
  by (simp add: pg_time_def)

section \<open>Results\<close>

type_synonym ('e, 'a, 'w) result = "('e + 'a) \<times> 'w"

lemma sum_case_Inl_iff:
  "(case r of Inl e \<Rightarrow> Inl (f e) | Inr x \<Rightarrow> Inr (g x)) = Inl y \<longleftrightarrow> (\<exists>e. r = Inl e \<and> y = f e)"
  by (auto split: sum.splits)

lemma sum_case_Inr_iff:
  "(case r of Inl e \<Rightarrow> Inl (f e) | Inr x \<Rightarrow> Inr (g x)) = Inr y \<longleftrightarrow> (\<exists>x. r = Inr x \<and> y = g x)"
  by (auto split: sum.splits)

lemma case_option_Inl_Inr:
  "(case r of None \<Rightarrow> Inl e | Some x \<Rightarrow> Inr (f x)) = Inr y \<longleftrightarrow> (\<exists>x. r = Some x \<and> y = f x)"
  by (auto split: option.splits)

section \<open>Tables\<close>

text \<open>
  A table is the list of its rows in insertion order. \<open>row_of key k rows\<close> is the row a
  \<open>SELECT ... WHERE key = k\<close> on a unique column returns; \<open>map_rows\<close> is an \<open>UPDATE\<close>.
\<close>

definition row_of :: "('r \<Rightarrow> 'k) \<Rightarrow> 'k \<Rightarrow> 'r list \<Rightarrow> 'r option" where
  "row_of key k rows = find (\<lambda>r. key r = k) rows"

definition map_rows :: "('r \<Rightarrow> bool) \<Rightarrow> ('r \<Rightarrow> 'r) \<Rightarrow> 'r list \<Rightarrow> 'r list" where
  "map_rows P f rows = map (\<lambda>r. if P r then f r else r) rows"

lemma row_of_Nil [simp]: "row_of key k [] = None"
  by (simp add: row_of_def)

lemma row_of_Cons [simp]:
  "row_of key k (r # rows) = (if key r = k then Some r else row_of key k rows)"
  by (simp add: row_of_def)

lemma row_of_SomeD: "row_of key k rows = Some r \<Longrightarrow> r \<in> set rows \<and> key r = k"
  by (induction rows) (auto split: if_splits)

lemma row_of_None_iff: "row_of key k rows = None \<longleftrightarrow> k \<notin> key ` set rows"
  by (induction rows) auto

lemma row_of_append:
  "row_of key k (xs @ ys) = (case row_of key k xs of None \<Rightarrow> row_of key k ys | Some r \<Rightarrow> Some r)"
  by (induction xs) auto

lemma row_of_unique:
  "distinct (map key rows) \<Longrightarrow> r \<in> set rows \<Longrightarrow> row_of key (key r) rows = Some r"
  by (induction rows) auto

lemma row_of_perm:
  assumes "distinct (map key xs)" and "set xs = set ys" and "distinct (map key ys)"
  shows "row_of key k xs = row_of key k ys"
proof (cases "row_of key k xs")
  case None
  with assms(2) show ?thesis by (metis row_of_None_iff)
next
  case (Some r)
  then have "r \<in> set ys" "key r = k" using assms(2) by (auto dest: row_of_SomeD)
  with Some row_of_unique [OF assms(3)] show ?thesis by force
qed

text \<open>A Go map filled from a list of rows: a later row overwrites an earlier one.\<close>

lemma map_of_fold_update:
  "map_of (fold (\<lambda>r m. AList.update (key r) (v r) m) rows m0) k =
     (case row_of key k (rev rows) of None \<Rightarrow> map_of m0 k | Some r \<Rightarrow> Some (v r))"
  by (induction rows arbitrary: m0) (auto simp: update_conv' row_of_append split: option.splits)

lemma keys_fold_update:
  "fst ` set (fold (\<lambda>r m. AList.update (key r) (v r) m) rows m0) = fst ` set m0 \<union> key ` set rows"
proof (induction rows arbitrary: m0)
  case Nil
  then show ?case by simp
next
  case (Cons r rows)
  have "fst ` set (AList.update (key r) (v r) m0) = insert (key r) (fst ` set m0)"
    by (metis dom_map_of_conv_image_fst dom_update insert_def Un_insert_left dom_fun_upd map_of_eq_None_iff
        update_conv' option.distinct(1))
  with Cons show ?case by auto
qed

lemma distinct_fold_update:
  "distinct (map fst m0) \<Longrightarrow> distinct (map fst (fold (\<lambda>r m. AList.update (key r) (v r) m) rows m0))"
  by (induction rows arbitrary: m0) (auto simp: distinct_update)

lemma map_rows_Nil [simp]: "map_rows P f [] = []"
  by (simp add: map_rows_def)

lemma map_rows_Cons [simp]:
  "map_rows P f (r # rows) = (if P r then f r else r) # map_rows P f rows"
  by (simp add: map_rows_def)

lemma map_rows_append [row_simps]: "map_rows P f (xs @ ys) = map_rows P f xs @ map_rows P f ys"
  by (simp add: map_rows_def)

lemma length_map_rows [simp]: "length (map_rows P f rows) = length rows"
  by (simp add: map_rows_def)

lemma map_rows_none: "(\<And>r. r \<in> set rows \<Longrightarrow> \<not> P r) \<Longrightarrow> map_rows P f rows = rows"
  by (induction rows) auto

lemma set_map_rows: "set (map_rows P f rows) = {if P r then f r else r | r. r \<in> set rows}"
  by (auto simp: map_rows_def)

text \<open>\<open>INSERT ... ON CONFLICT (key) DO UPDATE\<close>.\<close>

definition upsert :: "('r \<Rightarrow> 'k) \<Rightarrow> ('r \<Rightarrow> 'r) \<Rightarrow> 'r \<Rightarrow> 'r list \<Rightarrow> 'r list" where
  "upsert key f new rows =
     (if key new \<in> key ` set rows then map_rows (\<lambda>r. key r = key new) f rows else rows @ [new])"

text \<open>
  The contract of a keyed update: it changes only rows it selects and never a key. The
  tables of the database satisfy it for their primary keys.
\<close>

locale keyed_update =
  fixes key :: "'r \<Rightarrow> 'k" and upd :: "'r \<Rightarrow> 'r"
  assumes key_upd: "key (upd r) = key r"
begin

lemma keys_map_rows: "map key (map_rows P upd rows) = map key rows"
  by (induction rows) (auto simp: key_upd)

lemma distinct_map_rows: "distinct (map key rows) \<Longrightarrow> distinct (map key (map_rows P upd rows))"
  by (simp only: keys_map_rows)

lemma row_of_map_rows:
  "row_of key k (map_rows P upd rows) = map_option (\<lambda>r. if P r then upd r else r) (row_of key k rows)"
  by (induction rows) (auto simp: key_upd)

lemma row_of_map_rows_key:
  "row_of key k (map_rows (\<lambda>r. key r = k') upd rows) =
     (if k = k' then map_option upd (row_of key k rows) else row_of key k rows)"
  by (induction rows) (auto simp: key_upd)

lemma distinct_upsert: "distinct (map key rows) \<Longrightarrow> distinct (map key (upsert key upd new rows))"
  by (auto simp: upsert_def keys_map_rows)

lemma row_of_upsert:
  "row_of key k (upsert key upd new rows) =
     (if k = key new
      then Some (case row_of key k rows of None \<Rightarrow> new | Some r \<Rightarrow> upd r)
      else row_of key k rows)"
proof (cases "key new \<in> key ` set rows")
  case True
  then have "row_of key (key new) rows \<noteq> None" by (simp add: row_of_None_iff)
  then show ?thesis by (auto simp: upsert_def True row_of_map_rows_key)
next
  case False
  then have "row_of key (key new) rows = None" by (simp add: row_of_None_iff)
  then show ?thesis by (auto simp: upsert_def False row_of_append split: option.split)
qed

lemma keys_upsert: "key ` set (upsert key upd new rows) = insert (key new) (key ` set rows)"
proof -
  have "key ` set (map_rows P upd rows) = key ` set rows" for P
    by (metis keys_map_rows set_map)
  then show ?thesis by (auto simp: upsert_def)
qed

end

section \<open>Transition systems\<close>

text \<open>
  The reachable states of a step relation, and the rule all the state machines of the
  program use: what holds initially and is kept by every step holds in every reachable state.
\<close>

inductive reach :: "('s \<Rightarrow> bool) \<Rightarrow> ('s \<Rightarrow> 's \<Rightarrow> bool) \<Rightarrow> 's \<Rightarrow> bool"
  for init :: "'s \<Rightarrow> bool" and step :: "'s \<Rightarrow> 's \<Rightarrow> bool" where
  reach_init: "init s \<Longrightarrow> reach init step s"
| reach_step: "reach init step s \<Longrightarrow> step s t \<Longrightarrow> reach init step t"

inductive steps :: "('s \<Rightarrow> 's \<Rightarrow> bool) \<Rightarrow> 's \<Rightarrow> 's \<Rightarrow> bool"
  for step :: "'s \<Rightarrow> 's \<Rightarrow> bool" where
  steps_refl: "steps step s s"
| steps_step: "steps step s t \<Longrightarrow> step t u \<Longrightarrow> steps step s u"

locale invariant_system =
  fixes init :: "'s \<Rightarrow> bool" and step :: "'s \<Rightarrow> 's \<Rightarrow> bool" and inv :: "'s \<Rightarrow> bool"
  assumes inv_init: "init s \<Longrightarrow> inv s"
    and inv_step: "inv s \<Longrightarrow> step s t \<Longrightarrow> inv t"
begin

lemma inv_reach: "reach init step s \<Longrightarrow> inv s"
  by (induction rule: reach.induct) (auto intro: inv_init inv_step)

lemma inv_steps: "steps step s t \<Longrightarrow> inv s \<Longrightarrow> inv t"
  by (induction rule: steps.induct) (auto intro: inv_step)

end

text \<open>
  A functional refinement: the detailed system, under its invariant, moves as the abstract one does,
  or stays, seen through \<open>abs\<close>.
\<close>

locale refinement = invariant_system init step inv
  for init :: "'s \<Rightarrow> bool" and step :: "'s \<Rightarrow> 's \<Rightarrow> bool" and inv :: "'s \<Rightarrow> bool" +
  fixes abs :: "'s \<Rightarrow> 'a" and ainit :: "'a \<Rightarrow> bool" and astep :: "'a \<Rightarrow> 'a \<Rightarrow> bool"
  assumes abs_init: "init s \<Longrightarrow> ainit (abs s)"
    and abs_step: "inv s \<Longrightarrow> step s t \<Longrightarrow> astep (abs s) (abs t)"
begin

lemma abs_reach: "reach init step s \<Longrightarrow> reach ainit astep (abs s)"
  by (induction rule: reach.induct) (auto intro: reach.intros abs_init abs_step inv_reach)

lemma abs_steps: "steps step s t \<Longrightarrow> reach init step s \<Longrightarrow> steps astep (abs s) (abs t)"
proof (induction rule: steps.induct)
  case (steps_step s t u)
  then have "inv t" using inv_steps inv_reach by blast
  with steps_step show ?case by (blast intro: steps.intros abs_step)
qed (rule steps_refl)

end

lemma steps_trans: "steps step t u \<Longrightarrow> steps step s t \<Longrightarrow> steps step s u"
  by (induction rule: steps.induct) (auto intro: steps_step)

lemma steps_one: "step s t \<Longrightarrow> steps step s t"
  by (rule steps_step [OF steps_refl])

lemma reach_steps: "steps step s t \<Longrightarrow> reach init step s \<Longrightarrow> reach init step t"
  by (induction rule: steps.induct) (auto intro: reach_step)

end
