(* ===== verification/GoStrings.thy ===== *)
theory GoStrings
  imports Prelude "HOL-Library.Sublist" "HOL-Library.List_Lexorder" "HOL-Library.Char_ord"
begin

text \<open>
  The parts of Go's \<open>strings\<close>, \<open>strconv\<close>, \<open>net/url\<close> and \<open>encoding/base64\<close> packages that the
  program calls, on byte strings (a Go \<open>string\<close> is a byte sequence, a HOL \<open>char\<close> is a byte).
  Definitions first, then the lemmas on them: parsing a printed integer gives it back,
  trimming is idempotent, splitting and joining agree.
\<close>

section \<open>Prefixes and substrings\<close>

definition HasPrefix :: "string \<Rightarrow> string \<Rightarrow> bool" where
  "HasPrefix s p \<longleftrightarrow> take (length p) s = p"

fun Contains :: "string \<Rightarrow> string \<Rightarrow> bool" where
  "Contains [] sub = (sub = [])"
| "Contains (c # cs) sub = (HasPrefix (c # cs) sub \<or> Contains cs sub)"

lemma HasPrefix_append [simp]: "HasPrefix (p @ s) p"
  by (simp add: HasPrefix_def)

lemma HasPrefix_iff: "HasPrefix s p \<longleftrightarrow> (\<exists>t. s = p @ t)"
  by (metis HasPrefix_def append_eq_conv_conj)

lemma Contains_iff: "Contains s sub \<longleftrightarrow> (\<exists>a b. s = a @ sub @ b)"
proof (induction s)
  case Nil
  then show ?case by simp
next
  case (Cons c cs)
  show ?case
  proof
    assume "Contains (c # cs) sub"
    then consider "HasPrefix (c # cs) sub" | "Contains cs sub" by auto
    then show "\<exists>a b. c # cs = a @ sub @ b"
    proof cases
      case 1
      then obtain t where "c # cs = [] @ sub @ t" by (auto simp: HasPrefix_iff)
      then show ?thesis by blast
    next
      case 2
      with Cons.IH obtain a b where "cs = a @ sub @ b" by blast
      then have "c # cs = (c # a) @ sub @ b" by simp
      then show ?thesis by blast
    qed
  next
    assume "\<exists>a b. c # cs = a @ sub @ b"
    then obtain a b where ab: "c # cs = a @ sub @ b" by blast
    show "Contains (c # cs) sub"
    proof (cases a)
      case Nil
      with ab have "HasPrefix (c # cs) sub" by (auto simp: HasPrefix_iff)
      then show ?thesis by simp
    next
      case (Cons d a')
      with ab have "cs = a' @ sub @ b" by simp
      with Cons.IH have "Contains cs sub" by blast
      then show ?thesis by simp
    qed
  qed
qed

lemma Contains_middle [simp]: "Contains (a @ sub @ b) sub"
  by (auto simp: Contains_iff)

section \<open>White space\<close>

text \<open>
  \<open>strings.TrimSpace\<close> removes the runes of \<open>unicode.IsSpace\<close> at both ends: the ASCII blanks
  and, in UTF-8, U+0085, U+00A0, U+1680, U+2000 to U+200A, U+2028, U+2029, U+202F, U+205F and
  U+3000. \<open>space_len\<close> is the byte length of the space rune a string starts with (0: none);
  \<open>space_len_rev\<close> reads the same runes from the end of a reversed string.
\<close>

definition byte :: "char \<Rightarrow> nat" where
  "byte c = of_char c"

definition is_ascii_space :: "char \<Rightarrow> bool" where
  "is_ascii_space c \<longleftrightarrow> byte c = 32 \<or> (9 \<le> byte c \<and> byte c \<le> 13)"

definition space2 :: "char \<Rightarrow> char \<Rightarrow> bool" where
  "space2 a b \<longleftrightarrow> byte a = 0xC2 \<and> (byte b = 0x85 \<or> byte b = 0xA0)"

definition space3 :: "char \<Rightarrow> char \<Rightarrow> char \<Rightarrow> bool" where
  "space3 a b c \<longleftrightarrow>
     (byte a = 0xE1 \<and> byte b = 0x9A \<and> byte c = 0x80) \<or>
     (byte a = 0xE2 \<and> byte b = 0x80 \<and>
        ((0x80 \<le> byte c \<and> byte c \<le> 0x8A) \<or> byte c = 0xA8 \<or> byte c = 0xA9 \<or> byte c = 0xAF)) \<or>
     (byte a = 0xE2 \<and> byte b = 0x81 \<and> byte c = 0x9F) \<or>
     (byte a = 0xE3 \<and> byte b = 0x80 \<and> byte c = 0x80)"

fun space_len :: "string \<Rightarrow> nat" where
  "space_len (a # b # c # s) =
     (if is_ascii_space a then 1 else if space2 a b then 2 else if space3 a b c then 3 else 0)"
| "space_len [a, b] = (if is_ascii_space a then 1 else if space2 a b then 2 else 0)"
| "space_len [a] = (if is_ascii_space a then 1 else 0)"
| "space_len [] = 0"

fun space_len_rev :: "string \<Rightarrow> nat" where
  "space_len_rev (c # b # a # s) =
     (if is_ascii_space c then 1 else if space2 b c then 2 else if space3 a b c then 3 else 0)"
| "space_len_rev [b, a] = (if is_ascii_space b then 1 else if space2 a b then 2 else 0)"
| "space_len_rev [a] = (if is_ascii_space a then 1 else 0)"
| "space_len_rev [] = 0"

text \<open>Removing what \<open>f\<close> measures at the front until it measures nothing.\<close>

function strip_while :: "(string \<Rightarrow> nat) \<Rightarrow> string \<Rightarrow> string" where
  "strip_while f s = (if s = [] \<or> f s = 0 then s else strip_while f (drop (f s) s))"
  by pat_completeness auto
termination
  by (relation "measure (\<lambda>(f, s). length s)") auto

declare strip_while.simps [simp del]

definition TrimSpace :: "string \<Rightarrow> string" where
  "TrimSpace s = rev (strip_while space_len_rev (rev (strip_while space_len s)))"

lemma strip_while_stops: "strip_while f s = [] \<or> f (strip_while f s) = 0"
proof (induction f s rule: strip_while.induct)
  case (1 f s)
  then show ?case by (cases "s = [] \<or> f s = 0") (auto simp: strip_while.simps [of f s])
qed

lemma strip_while_suffix: "\<exists>n. strip_while f s = drop n s"
proof (induction f s rule: strip_while.induct)
  case (1 f s)
  show ?case
  proof (cases "s = [] \<or> f s = 0")
    case True
    then have "strip_while f s = drop 0 s" by (simp add: strip_while.simps [of f s])
    then show ?thesis by blast
  next
    case False
    with "1.IH" obtain n where "strip_while f (drop (f s) s) = drop n (drop (f s) s)" by auto
    with False show ?thesis by (auto simp: strip_while.simps [of f s])
  qed
qed

lemma strip_while_id: "f s = 0 \<Longrightarrow> strip_while f s = s"
  by (simp add: strip_while.simps)

lemma length_strip_while: "length (strip_while f s) \<le> length s"
  using strip_while_suffix [of f s] by auto

lemma TrimSpace_Nil [simp]: "TrimSpace [] = []"
  by (simp add: TrimSpace_def strip_while.simps)

lemma length_TrimSpace: "length (TrimSpace s) \<le> length s"
  unfolding TrimSpace_def
  by (metis length_rev length_strip_while order_trans)

lemma TrimSpace_sub: "\<exists>a b. s = a @ TrimSpace s @ b"
proof -
  let ?l = "strip_while space_len s"
  obtain n where n: "?l = drop n s" using strip_while_suffix by blast
  obtain m where m: "strip_while space_len_rev (rev ?l) = drop m (rev ?l)"
    using strip_while_suffix by blast
  have t: "TrimSpace s = take (length ?l - m) ?l"
    by (simp add: TrimSpace_def m rev_drop)
  have "s = take n s @ ?l" by (simp add: n)
  also have "?l = TrimSpace s @ drop (length ?l - m) ?l" by (simp only: t append_take_drop_id)
  finally show ?thesis by blast
qed

text \<open>A string of printable ASCII without blanks is trimmed to itself.\<close>

definition graphic :: "char \<Rightarrow> bool" where
  "graphic c \<longleftrightarrow> 33 \<le> byte c \<and> byte c < 127"

lemma space_len_graphic: "s \<noteq> [] \<Longrightarrow> graphic (hd s) \<Longrightarrow> space_len s = 0"
  by (cases s rule: space_len.cases) (auto simp: graphic_def is_ascii_space_def space2_def space3_def)

lemma space_len_rev_graphic: "s \<noteq> [] \<Longrightarrow> graphic (hd s) \<Longrightarrow> space_len_rev s = 0"
  by (cases s rule: space_len_rev.cases)
    (auto simp: graphic_def is_ascii_space_def space2_def space3_def)

lemma TrimSpace_graphic_ends:
  assumes "s \<noteq> []" and "graphic (hd s)" and "graphic (last s)"
  shows "TrimSpace s = s"
proof -
  have l: "strip_while space_len s = s"
    using assms(1,2) by (intro strip_while_id space_len_graphic)
  have "strip_while space_len_rev (rev s) = rev s"
    using assms(1,3) by (intro strip_while_id space_len_rev_graphic) (auto simp: hd_rev)
  with l show ?thesis by (simp add: TrimSpace_def)
qed

section \<open>Splitting\<close>

text \<open>\<open>strings.Split\<close> on a one-byte separator: one more piece than separators.\<close>

fun Split :: "char \<Rightarrow> string \<Rightarrow> string list" where
  "Split d [] = [[]]"
| "Split d (c # cs) =
     (if c = d then [] # Split d cs
      else (case Split d cs of [] \<Rightarrow> [[c]] | p # ps \<Rightarrow> (c # p) # ps))"

fun Join :: "char \<Rightarrow> string list \<Rightarrow> string" where
  "Join d [] = []"
| "Join d [p] = p"
| "Join d (p # q # ps) = p @ d # Join d (q # ps)"

lemma Split_nonempty [simp]: "Split d s \<noteq> []"
  by (induction s) (auto split: list.splits)

lemma Join_Cons: "ps \<noteq> [] \<Longrightarrow> Join d (p # ps) = p @ d # Join d ps"
  by (cases ps) auto

lemma Join_Split: "Join d (Split d s) = s"
proof (induction s)
  case Nil
  then show ?case by simp
next
  case (Cons c cs)
  obtain p ps where sp: "Split d cs = p # ps" by (cases "Split d cs") auto
  with Cons show ?case by (cases ps) (auto simp: Join_Cons)
qed

lemma Split_no_sep: "p \<in> set (Split d s) \<Longrightarrow> d \<notin> set p"
  by (induction s arbitrary: p) (auto split: list.splits if_splits)

lemma Split_append_sep:
  "d \<notin> set p \<Longrightarrow> Split d (p @ d # s) = p # Split d s"
  by (induction p) auto

lemma Split_single: "d \<notin> set p \<Longrightarrow> Split d p = [p]"
  by (induction p) auto

text \<open>\<open>strings.LastIndexAny\<close> for two ASCII bytes: the last index of either, or \<open>-1\<close>.\<close>

definition LastIndexAny :: "string \<Rightarrow> char set \<Rightarrow> int" where
  "LastIndexAny s ds =
     int (length s) - 1 - int (length (takeWhile (\<lambda>c. c \<notin> ds) (rev s)))"

lemma LastIndexAny_none: "(\<And>c. c \<in> set s \<Longrightarrow> c \<notin> ds) \<Longrightarrow> LastIndexAny s ds = -1"
  by (simp add: LastIndexAny_def takeWhile_eq_all_conv[THEN iffD2])

lemma LastIndexAny_append:
  assumes "d \<in> ds" and "\<And>c. c \<in> set t \<Longrightarrow> c \<notin> ds"
  shows "LastIndexAny (s @ d # t) ds = int (length s)"
proof -
  have "takeWhile (\<lambda>c. c \<notin> ds) (rev (s @ d # t)) = rev t"
    using assms by (simp add: takeWhile_tail)
  then show ?thesis by (simp add: LastIndexAny_def)
qed

lemma LastIndexAny_bounds: "-1 \<le> LastIndexAny s ds \<and> LastIndexAny s ds < int (length s)"
proof -
  have "length (takeWhile (\<lambda>c. c \<notin> ds) (rev s)) \<le> length s"
    by (metis length_rev length_takeWhile_le)
  then show ?thesis by (simp add: LastIndexAny_def)
qed

section \<open>Decimal numbers\<close>

definition is_digit :: "char \<Rightarrow> bool" where
  "is_digit c \<longleftrightarrow> 48 \<le> byte c \<and> byte c \<le> 57"

definition digit_val :: "char \<Rightarrow> nat" where
  "digit_val c = byte c - 48"

definition digit_char :: "nat \<Rightarrow> char" where
  "digit_char n = char_of (48 + n)"

fun nat_digits :: "nat \<Rightarrow> string" where
  "nat_digits n =
     (if n < 10 then [digit_char n] else nat_digits (n div 10) @ [digit_char (n mod 10)])"

declare nat_digits.simps [simp del]

text \<open>\<open>strconv.Itoa\<close>, and \<open>%d\<close> of \<open>fmt\<close>.\<close>

definition Itoa :: "int \<Rightarrow> string" where
  "Itoa n = (if n < 0 then CHR ''-'' # nat_digits (nat (- n)) else nat_digits (nat n))"

fun parse_digits :: "nat \<Rightarrow> string \<Rightarrow> nat option" where
  "parse_digits acc [] = Some acc"
| "parse_digits acc (c # cs) =
     (if is_digit c then parse_digits (acc * 10 + digit_val c) cs else None)"

text \<open>
  \<open>strconv.Atoi\<close>: an optional sign, at least one digit, nothing else, and a value that
  fits 64 bits; \<open>None\<close> is its error.
\<close>

definition Atoi :: "string \<Rightarrow> int option" where
  "Atoi s =
     (let neg = (case s of c # _ \<Rightarrow> c = CHR ''-'' | [] \<Rightarrow> False);
          body = (case s of c # cs \<Rightarrow> if c = CHR ''-'' \<or> c = CHR ''+'' then cs else s | [] \<Rightarrow> [])
      in if body = [] then None
         else case parse_digits 0 body of
           None \<Rightarrow> None
         | Some n \<Rightarrow>
             let v = (if neg then - int n else int n)
             in if in_int64 v then Some v else None)"

lemma byte_digit_char: "n < 10 \<Longrightarrow> byte (digit_char n) = 48 + n"
  by (simp add: byte_def digit_char_def)

lemma is_digit_digit_char [simp]: "n < 10 \<Longrightarrow> is_digit (digit_char n)"
  by (simp add: is_digit_def byte_digit_char)

lemma digit_val_digit_char [simp]: "n < 10 \<Longrightarrow> digit_val (digit_char n) = n"
  by (simp add: digit_val_def byte_digit_char)

lemma nat_digits_nonempty [simp]: "nat_digits n \<noteq> []"
  by (subst nat_digits.simps) simp

lemma nat_digits_all: "c \<in> set (nat_digits n) \<Longrightarrow> is_digit c"
proof (induction n rule: nat_digits.induct)
  case (1 n)
  show ?case
  proof (cases "n < 10")
    case True
    with "1.prems" show ?thesis by (simp add: nat_digits.simps [of n])
  next
    case False
    with "1.prems" have "c = digit_char (n mod 10) \<or> c \<in> set (nat_digits (n div 10))"
      by (auto simp: nat_digits.simps [of n])
    with "1.IH" False show ?thesis by auto
  qed
qed

lemma parse_digits_append:
  "parse_digits a (s @ t) = (case parse_digits a s of None \<Rightarrow> None | Some b \<Rightarrow> parse_digits b t)"
  by (induction s arbitrary: a) auto

lemma parse_nat_digits: "parse_digits 0 (nat_digits n) = Some n"
proof (induction n rule: nat_digits.induct)
  case (1 n)
  show ?case
  proof (cases "n < 10")
    case True
    then show ?thesis by (simp add: nat_digits.simps [of n])
  next
    case False
    with "1.IH" show ?thesis
      by (simp add: nat_digits.simps [of n] parse_digits_append)
  qed
qed

lemma parse_digits_Some_digits: "parse_digits a s = Some n \<Longrightarrow> c \<in> set s \<Longrightarrow> is_digit c"
  by (induction s arbitrary: a) (auto split: if_splits)

lemma not_sign_digit: "is_digit c \<Longrightarrow> c \<noteq> CHR ''-'' \<and> c \<noteq> CHR ''+''"
  by (auto simp: is_digit_def byte_def)

lemma nat_digits_head: "nat_digits n = c # cs \<Longrightarrow> c \<noteq> CHR ''-'' \<and> c \<noteq> CHR ''+''"
  by (metis list.set_intros(1) nat_digits_all not_sign_digit)

lemma Atoi_nat_digits: "in_int64 (int n) \<Longrightarrow> Atoi (nat_digits n) = Some (int n)"
proof -
  assume r: "in_int64 (int n)"
  obtain c cs where nd: "nat_digits n = c # cs" by (cases "nat_digits n") auto
  have "c \<noteq> CHR ''-''" "c \<noteq> CHR ''+''" using nat_digits_head [OF nd] by simp_all
  then have "Atoi (nat_digits n) = (case parse_digits 0 (nat_digits n) of None \<Rightarrow> None
      | Some m \<Rightarrow> if in_int64 (int m) then Some (int m) else None)"
    unfolding Atoi_def Let_def nd by (simp del: parse_digits.simps split: option.split)
  with r show ?thesis by (simp add: parse_nat_digits)
qed

lemma Atoi_Itoa: "in_int64 n \<Longrightarrow> Atoi (Itoa n) = Some n"
proof (cases "n < 0")
  case True
  moreover assume "in_int64 n"
  ultimately show ?thesis by (simp add: Itoa_def Atoi_def Let_def parse_nat_digits)
next
  case False
  moreover assume "in_int64 n"
  ultimately show ?thesis by (simp add: Itoa_def Atoi_nat_digits)
qed

lemma Atoi_in_int64: "Atoi s = Some n \<Longrightarrow> in_int64 n"
  by (auto simp: Atoi_def Let_def split: option.splits if_splits)

section \<open>Quoting and escaping\<close>

definition hex_lower :: "nat \<Rightarrow> char" where
  "hex_lower n = (if n < 10 then char_of (48 + n) else char_of (87 + n))"

definition hex_upper :: "nat \<Rightarrow> char" where
  "hex_upper n = (if n < 10 then char_of (48 + n) else char_of (55 + n))"

text \<open>
  \<open>%q\<close> (\<open>strconv.Quote\<close>). Bytes above 127 are kept: the runes they encode are taken to be
  printable.
\<close>

definition quote_byte :: "char \<Rightarrow> string" where
  "quote_byte c =
     (let b = byte c in
      if b = 34 \<or> b = 92 then [CHR 0x5C, c]
      else if b = 7 then [CHR 0x5C, CHR ''a'']
      else if b = 8 then [CHR 0x5C, CHR ''b'']
      else if b = 9 then [CHR 0x5C, CHR ''t'']
      else if b = 10 then [CHR 0x5C, CHR ''n'']
      else if b = 11 then [CHR 0x5C, CHR ''v'']
      else if b = 12 then [CHR 0x5C, CHR ''f'']
      else if b = 13 then [CHR 0x5C, CHR ''r'']
      else if b < 32 \<or> b = 127 then [CHR 0x5C, CHR ''x'', hex_lower (b div 16), hex_lower (b mod 16)]
      else [c])"

definition Quote :: "string \<Rightarrow> string" where
  "Quote s = CHR 0x22 # concat (map quote_byte s) @ [CHR 0x22]"

definition is_alnum :: "char \<Rightarrow> bool" where
  "is_alnum c \<longleftrightarrow> is_digit c \<or> (65 \<le> byte c \<and> byte c \<le> 90) \<or> (97 \<le> byte c \<and> byte c \<le> 122)"

definition url_unreserved :: "char \<Rightarrow> bool" where
  "url_unreserved c \<longleftrightarrow> is_alnum c \<or> c \<in> set ''-_.~''"

definition percent :: "char \<Rightarrow> string" where
  "percent c = [CHR ''%'', hex_upper (byte c div 16), hex_upper (byte c mod 16)]"

definition PathEscape :: "string \<Rightarrow> string" where
  "PathEscape s =
     concat (map (\<lambda>c. if url_unreserved c \<or> c \<in> set ''$&+:=@'' then [c] else percent c) s)"

definition QueryEscape :: "string \<Rightarrow> string" where
  "QueryEscape s =
     concat (map (\<lambda>c. if url_unreserved c then [c] else if c = CHR '' '' then ''+'' else percent c) s)"

text \<open>\<open>url.Values.Encode\<close>, keys in sorted order.\<close>

definition EncodeQuery :: "(string \<times> string) list \<Rightarrow> string" where
  "EncodeQuery q =
     Join (CHR ''&'') (map (\<lambda>(k, v). QueryEscape k @ ''='' @ QueryEscape v) (sort_key fst q))"

text \<open>\<open>strings.TrimRight\<close> for one byte.\<close>

definition TrimRightByte :: "char \<Rightarrow> string \<Rightarrow> string" where
  "TrimRightByte d s = rev (dropWhile (\<lambda>c. c = d) (rev s))"

lemma concat_map_singleton: "(\<And>c. c \<in> set s \<Longrightarrow> f c = [c]) \<Longrightarrow> concat (map f s) = s"
  by (induction s) auto

lemma PathEscape_alnum: "(\<And>c. c \<in> set s \<Longrightarrow> is_alnum c) \<Longrightarrow> PathEscape s = s"
  unfolding PathEscape_def by (rule concat_map_singleton) (simp add: url_unreserved_def)

lemma byte_hex_upper: "n < 16 \<Longrightarrow> byte (hex_upper n) = (if n < 10 then 48 + n else 55 + n)"
  by (simp add: hex_upper_def byte_def)

lemma byte_less: "byte c < 256"
  by (simp add: byte_def)

lemma percent_no_slash: "CHR ''/'' \<notin> set (percent c)"
proof -
  have "hex_upper n \<noteq> CHR ''/''" if "n < 16" for n
  proof
    assume "hex_upper n = CHR ''/''"
    then have "byte (hex_upper n) = 47" by (simp add: byte_def)
    with that show False by (simp add: byte_hex_upper split: if_splits)
  qed
  moreover have "byte c div 16 < 16" using byte_less [of c] by simp
  moreover have "byte c mod 16 < 16" by simp
  ultimately have "CHR ''/'' \<noteq> hex_upper (byte c div 16)" "CHR ''/'' \<noteq> hex_upper (byte c mod 16)"
    by metis+
  then show ?thesis by (simp add: percent_def)
qed

lemma PathEscape_no_slash: "CHR ''/'' \<notin> set (PathEscape s)"
proof (induction s)
  case Nil
  then show ?case by (simp add: PathEscape_def)
next
  case (Cons c s)
  have "\<not> url_unreserved (CHR ''/'')"
    by (simp add: url_unreserved_def is_alnum_def is_digit_def byte_def)
  with Cons percent_no_slash [of c] show ?case by (auto simp: PathEscape_def)
qed

section \<open>Regular expression search\<close>

text \<open>
  The leftmost match: \<open>m\<close> says what the expression matches at the start of a string.
  \<open>re_space\<close> is \<open>\s\<close>, \<open>re_word\<close> the characters \<open>\b\<close> looks at.
\<close>

fun search :: "(string \<Rightarrow> 'a option) \<Rightarrow> string \<Rightarrow> 'a option" where
  "search m [] = m []"
| "search m (c # s) = (case m (c # s) of Some x \<Rightarrow> Some x | None \<Rightarrow> search m s)"

definition re_space :: "char \<Rightarrow> bool" where
  "re_space c \<longleftrightarrow> byte c \<in> {9, 10, 12, 13, 32}"

definition re_word :: "char \<Rightarrow> bool" where
  "re_word c \<longleftrightarrow> is_alnum c \<or> c = CHR ''_''"

definition is_hex_lower :: "char \<Rightarrow> bool" where
  "is_hex_lower c \<longleftrightarrow> is_digit c \<or> (97 \<le> byte c \<and> byte c \<le> 102)"

definition is_hex :: "char \<Rightarrow> bool" where
  "is_hex c \<longleftrightarrow> is_hex_lower c \<or> (65 \<le> byte c \<and> byte c \<le> 70)"

lemma search_here: "m s = Some x \<Longrightarrow> search m s = Some x"
  by (cases s) auto

lemma search_skip: "(\<And>a b. p = a @ b \<Longrightarrow> b \<noteq> [] \<Longrightarrow> m (b @ s) = None) \<Longrightarrow> search m (p @ s) = search m s"
proof (induction p)
  case Nil
  then show ?case by simp
next
  case (Cons c p)
  have "m (c # p @ s) = None" using Cons.prems [of "[]" "c # p"] by simp
  moreover have "search m (p @ s) = search m s"
    using Cons.prems by (intro Cons.IH) (metis append_Cons)
  ultimately show ?case by simp
qed

lemma search_SomeE:
  assumes "search m s = Some x"
  obtains a b where "s = a @ b" "m b = Some x"
  using assms
proof (induction s arbitrary: thesis)
  case Nil
  then show ?case by (metis append_Nil search.simps(1))
next
  case (Cons c s)
  show ?case
  proof (cases "m (c # s)")
    case None
    then have "search m s = Some x" using Cons.prems(2) by simp
    then obtain a b where "s = a @ b" "m b = Some x" using Cons.IH by blast
    then show ?thesis using Cons.prems(1) [of "c # a" b] by simp
  next
    case (Some y)
    then show ?thesis using Cons.prems(1) [of "[]" "c # s"] Cons.prems(2) by simp
  qed
qed

lemma search_None_iff: "search m s = None \<longleftrightarrow> (\<forall>a b. s = a @ b \<longrightarrow> m b = None)"
proof
  assume n: "search m s = None"
  show "\<forall>a b. s = a @ b \<longrightarrow> m b = None"
  proof (intro allI impI)
    fix a b
    assume "s = a @ b"
    with n have "search m b = None"
      by (induction a arbitrary: s) (auto split: option.splits)
    then show "m b = None" by (cases "m b") (auto dest: search_here)
  qed
next
  assume "\<forall>a b. s = a @ b \<longrightarrow> m b = None"
  then show "search m s = None"
    by (metis not_Some_eq search_SomeE)
qed

end
