(* ===== verification/Json.thy ===== *)
theory Json
  imports GoStrings
begin

text \<open>
  JSON values, the text \<open>encoding/json\<close> writes for them, and how it reads them into Go
  structs: by field name without regard to case, the last occurrence winning, \<open>null\<close> leaving a
  scalar field as it was, and a value of another kind being an error. Numbers keep their
  literal, which Go parses only for the field's type. Strings are taken to be valid UTF-8, as
  all strings that come out of a decoded request or a database text column are.
\<close>

datatype json =
    JNull
  | JBool bool
  | JNum string
  | JStr string
  | JArr "json list"
  | JObj "(string \<times> json) list"

definition JInt :: "int \<Rightarrow> json" where
  "JInt n = JNum (Itoa n)"

section \<open>Writing\<close>

text \<open>String escaping of \<open>json.Marshal\<close>, HTML characters included.\<close>

definition escape_byte :: "char \<Rightarrow> string" where
  "escape_byte c =
     (let b = byte c in
      if b = 34 \<or> b = 92 then [CHR 0x5C, c]
      else if b = 8 then [CHR 0x5C, CHR ''b'']
      else if b = 12 then [CHR 0x5C, CHR ''f'']
      else if b = 10 then [CHR 0x5C, CHR ''n'']
      else if b = 13 then [CHR 0x5C, CHR ''r'']
      else if b = 9 then [CHR 0x5C, CHR ''t'']
      else if b < 32 \<or> b = 60 \<or> b = 62 \<or> b = 38
        then CHR 0x5C # ''u00'' @ [hex_lower (b div 16), hex_lower (b mod 16)]
      else [c])"

fun json_escape :: "string \<Rightarrow> string" where
  "json_escape [] = []"
| "json_escape (a # s) =
     (case s of
        b # c # r \<Rightarrow>
          if byte a = 0xE2 \<and> byte b = 0x80 \<and> (byte c = 0xA8 \<or> byte c = 0xA9)
          then CHR 0x5C # ''u202'' @ [hex_lower (byte c - 0xA0)] @ json_escape r
          else escape_byte a @ json_escape s
      | _ \<Rightarrow> escape_byte a @ json_escape s)"

definition json_string :: "string \<Rightarrow> string" where
  "json_string s = CHR 0x22 # json_escape s @ [CHR 0x22]"

fun json_text :: "json \<Rightarrow> string" where
  "json_text JNull = ''null''"
| "json_text (JBool b) = (if b then ''true'' else ''false'')"
| "json_text (JNum n) = n"
| "json_text (JStr s) = json_string s"
| "json_text (JArr xs) = CHR ''['' # Join (CHR '','') (map json_text xs) @ '']''"
| "json_text (JObj kvs) =
     CHR ''{'' # Join (CHR '','') (map (\<lambda>(k, v). json_string k @ CHR '':'' # json_text v) kvs) @ ''}''"

text \<open>\<open>json.Marshal\<close> of a \<open>map[string]any\<close>: the keys in sorted order.\<close>

definition Marshal_map :: "(string \<times> json) list \<Rightarrow> string" where
  "Marshal_map kvs = json_text (JObj (sort_key fst kvs))"

text \<open>Bytes that \<open>json.Marshal\<close> writes as they are.\<close>

definition json_plain :: "char \<Rightarrow> bool" where
  "json_plain c \<longleftrightarrow> 32 \<le> byte c \<and> byte c < 128 \<and> byte c \<notin> {34, 38, 60, 62, 92}"

lemma escape_byte_plain: "json_plain c \<Longrightarrow> escape_byte c = [c]"
  by (auto simp: escape_byte_def json_plain_def Let_def)

lemma json_escape_Cons_ascii: "byte a < 128 \<Longrightarrow> json_escape (a # s) = escape_byte a @ json_escape s"
  by (auto split: list.split)

declare json_escape.simps(2) [simp del]

lemma json_escape_plain: "(\<And>c. c \<in> set s \<Longrightarrow> json_plain c) \<Longrightarrow> json_escape s = s"
proof (induction s)
  case Nil
  then show ?case by simp
next
  case (Cons c s)
  then have "json_plain c" by simp
  then have "json_escape (c # s) = [c] @ json_escape s"
    by (simp add: json_escape_Cons_ascii escape_byte_plain json_plain_def)
  with Cons show ?case by simp
qed

text \<open>A quotation mark in a string never stands unescaped in its JSON text.\<close>

lemma json_escape_quote: "json_escape (CHR 0x22 # s) = CHR 0x5C # CHR 0x22 # json_escape s"
  by (simp add: json_escape_Cons_ascii escape_byte_def byte_def)

section \<open>Reading\<close>

definition fold_byte :: "char \<Rightarrow> char" where
  "fold_byte c = (if 65 \<le> byte c \<and> byte c \<le> 90 then char_of (byte c + 32) else c)"

definition fold_key :: "string \<Rightarrow> string" where
  "fold_key k = map fold_byte k"

fun read_field :: "('a \<Rightarrow> json \<Rightarrow> 'a option) \<Rightarrow> string \<Rightarrow> 'a \<Rightarrow> (string \<times> json) list \<Rightarrow> 'a option" where
  "read_field d n acc [] = Some acc"
| "read_field d n acc ((k, v) # kvs) =
     (if fold_key k = fold_key n
      then (case d acc v of None \<Rightarrow> None | Some a \<Rightarrow> read_field d n a kvs)
      else read_field d n acc kvs)"

text \<open>One reader per field type; \<open>None\<close> is \<open>UnmarshalTypeError\<close>.\<close>

fun read_str :: "string \<Rightarrow> json \<Rightarrow> string option" where
  "read_str acc (JStr s) = Some s"
| "read_str acc JNull = Some acc"
| "read_str acc _ = None"

fun read_bool :: "bool \<Rightarrow> json \<Rightarrow> bool option" where
  "read_bool acc (JBool b) = Some b"
| "read_bool acc JNull = Some acc"
| "read_bool acc _ = None"

fun read_int :: "int \<Rightarrow> json \<Rightarrow> int option" where
  "read_int acc (JNum n) = Atoi n"
| "read_int acc JNull = Some acc"
| "read_int acc _ = None"

fun read_strs :: "string list option \<Rightarrow> json \<Rightarrow> string list option option" where
  "read_strs acc (JArr xs) = map_option Some (those (map (read_str '''') xs))"
| "read_strs acc JNull = Some None"
| "read_strs acc _ = None"

fun read_raw :: "json option \<Rightarrow> json \<Rightarrow> json option option" where
  "read_raw acc v = Some (Some v)"

text \<open>The members of a value that is read into a struct; \<open>null\<close> reads as no members.\<close>

fun members :: "json \<Rightarrow> (string \<times> json) list option" where
  "members (JObj kvs) = Some kvs"
| "members JNull = Some []"
| "members _ = None"

text \<open>A struct of string fields, in the order of the given names.\<close>

definition read_strings :: "string list \<Rightarrow> json \<Rightarrow> string list option" where
  "read_strings names j =
     (case members j of
        None \<Rightarrow> None
      | Some kvs \<Rightarrow> those (map (\<lambda>n. read_field read_str n '''' kvs) names))"

lemma fold_key_id [simp]: "(\<And>c. c \<in> set k \<Longrightarrow> byte c < 65 \<or> 90 < byte c) \<Longrightarrow> fold_key k = k"
  unfolding fold_key_def by (rule map_idI) (force simp: fold_byte_def)

lemma those_None_iff: "those xs = None \<longleftrightarrow> None \<in> set xs"
  by (induction xs) (auto split: option.splits)

lemma those_map_Some [simp]: "those (map Some xs) = Some xs"
  by (induction xs) auto

lemma length_those: "those xs = Some ys \<Longrightarrow> length ys = length xs"
  by (induction xs arbitrary: ys) (auto split: option.splits)

lemma read_strings_length: "read_strings names j = Some vs \<Longrightarrow> length vs = length names"
  by (auto simp: read_strings_def dest: length_those split: option.splits)

lemma read_strings_not_object [simp]:
  "read_strings names (JStr s) = None" "read_strings names (JBool b) = None"
  "read_strings names (JNum n) = None" "read_strings names (JArr xs) = None"
  by (simp_all add: read_strings_def)

end
