(* ===== verification/Errors.thy ===== *)
theory Errors
  imports Json
begin

text \<open>
  Go errors as values: the sentinel errors the packages export, the rubix client's
  \<open>APIError\<close>, a Postgres error with its code, other errors by their text, and
  \<open>fmt.Errorf\<close> with one \<open>%w\<close>. \<open>err_text\<close> is \<open>Error()\<close>, \<open>errors_Is\<close> is \<open>errors.Is\<close>,
  \<open>IsAPIError\<close> and \<open>isUniqueViolation\<close> are the two uses of \<open>errors.As\<close>.
\<close>

datatype sentinel =
    ErrNotFound | ErrQueueFull | ErrPasswordTooShort | ErrPasswordMismatch
  | ErrRefreshInvalid | ErrRefreshExpired | ErrRefreshRevoked | ErrRefreshReused
  | DeadlineExceeded

record APIError =
  ae_endpoint :: string
  ae_http_status :: int
  ae_message :: string
  ae_body :: string

datatype goerr =
    Sentinel sentinel
  | APIErr APIError
  | PgErr string string
  | Plain string
  | Wrapped string goerr string

text \<open>\<open>fmt.Errorf("prefix%w", err)\<close>.\<close>

abbreviation wrap :: "string \<Rightarrow> goerr \<Rightarrow> goerr" where
  "wrap pre err \<equiv> Wrapped pre err ''''"

definition truncate_body :: "string \<Rightarrow> nat \<Rightarrow> string" where
  "truncate_body s n = (if length s \<le> n then s else take n s @ ''...(truncated)'')"

definition MinPasswordLength :: nat where
  "MinPasswordLength = 8"

fun sentinel_text :: "sentinel \<Rightarrow> string" where
  "sentinel_text ErrNotFound = ''database: not found''"
| "sentinel_text ErrQueueFull = ''queue: admin queue is full''"
| "sentinel_text ErrPasswordTooShort =
     ''password must be at least '' @ Itoa (int MinPasswordLength) @ '' characters''"
| "sentinel_text ErrPasswordMismatch = ''auth: password mismatch''"
| "sentinel_text ErrRefreshInvalid = ''auth: refresh token invalid''"
| "sentinel_text ErrRefreshExpired = ''auth: refresh token expired''"
| "sentinel_text ErrRefreshRevoked = ''auth: refresh token revoked''"
| "sentinel_text ErrRefreshReused = ''auth: refresh token reused after revocation''"
| "sentinel_text DeadlineExceeded = ''context deadline exceeded''"

definition APIError_Error :: "APIError \<Rightarrow> string" where
  "APIError_Error e =
     (if ae_message e \<noteq> '''' then
        ''rubix '' @ ae_endpoint e @ '': '' @ ae_message e @ '' (http '' @ Itoa (ae_http_status e) @ '')''
      else
        ''rubix '' @ ae_endpoint e @ '': http '' @ Itoa (ae_http_status e) @ '': ''
          @ truncate_body (ae_body e) 200)"

fun err_text :: "goerr \<Rightarrow> string" where
  "err_text (Sentinel s) = sentinel_text s"
| "err_text (APIErr e) = APIError_Error e"
| "err_text (PgErr code msg) = msg @ '' (SQLSTATE '' @ code @ '')''"
| "err_text (Plain s) = s"
| "err_text (Wrapped a e b) = a @ err_text e @ b"

fun errors_Is :: "goerr \<Rightarrow> sentinel \<Rightarrow> bool" where
  "errors_Is (Sentinel s) t = (s = t)"
| "errors_Is (Wrapped a e b) t = errors_Is e t"
| "errors_Is _ t = False"

fun IsAPIError :: "goerr \<Rightarrow> bool" where
  "IsAPIError (APIErr e) = True"
| "IsAPIError (Wrapped a e b) = IsAPIError e"
| "IsAPIError _ = False"

fun isUniqueViolation :: "goerr \<Rightarrow> bool" where
  "isUniqueViolation (PgErr code msg) = (code = ''23505'')"
| "isUniqueViolation (Wrapped a e b) = isUniqueViolation e"
| "isUniqueViolation _ = False"

lemma length_truncate_body: "length (truncate_body s n) \<le> n + 14"
  by (simp add: truncate_body_def)

lemma APIError_not_sentinel: "IsAPIError e \<Longrightarrow> \<not> errors_Is e s"
  by (induction e) auto

lemma unique_not_sentinel: "isUniqueViolation e \<Longrightarrow> \<not> errors_Is e s"
  by (induction e) auto

lemma errors_Is_unique: "errors_Is e s \<Longrightarrow> errors_Is e t \<Longrightarrow> s = t"
  by (induction e) auto

end
