(* ===== verification/Database.thy ===== *)
theory Database
  imports Errors
begin

text \<open>
  The database package's data: the Go structs of \<open>models.go\<close>, the tables they live in (with
  the nullable columns of \<open>migrations/\<close> as options), and the execution of one SQL statement.

  The outside world is the record \<open>env\<close>: which statement fails and with what message
  (connection loss, column width, any other Postgres error), how long each takes, and the
  identifiers \<open>uuid.NewString\<close> and \<open>gen_random_uuid\<close> hand out. A statement is numbered by the
  count of statements before it, so a run is a function of \<open>env\<close> and the start state. A
  statement that fails has no effect. A context is its deadline (\<open>None\<close>: none).
\<close>

section \<open>Rows\<close>

definition StatusQueued :: string where [simp]: "StatusQueued = ''queued''"
definition StatusProcessing :: string where [simp]: "StatusProcessing = ''processing''"
definition StatusSuccess :: string where [simp]: "StatusSuccess = ''success''"
definition StatusFailed :: string where [simp]: "StatusFailed = ''failed''"

definition KindReward :: string where [simp]: "KindReward = ''reward''"
definition KindAddActivity :: string where [simp]: "KindAddActivity = ''add_activity''"
definition KindAddAdmin :: string where [simp]: "KindAddAdmin = ''add_admin''"

definition RoleOperator :: string where [simp]: "RoleOperator = ''operator''"

record TransferStatus =
  ts_request_id :: string
  ts_transaction_id :: string
  ts_kind :: string
  ts_admin_did :: string
  ts_user_did :: string
  ts_activity_ids :: "string list option"
  ts_reward_points :: int
  ts_contract_hash :: string
  ts_status :: string
  ts_message :: string
  ts_error_details :: string
  ts_created_at :: instant
  ts_updated_at :: instant

record transfer_row =
  tr_request_id :: string
  tr_transaction_id :: "string option"
  tr_kind :: string
  tr_admin_did :: "string option"
  tr_user_did :: "string option"
  tr_activity_ids :: "string list option"
  tr_reward_points :: "int option"
  tr_contract_hash :: "string option"
  tr_status :: string
  tr_message :: "string option"
  tr_error_details :: "string option"
  tr_created_at :: instant
  tr_updated_at :: instant

record UserAdmin =
  ua_user_did :: string
  ua_admin_did :: string
  ua_created_at :: instant

record AdminContract =
  ac_admin_did :: string
  ac_kind :: string
  ac_hash :: string
  ac_deployed_at :: instant

record Activity =
  av_admin_did :: string
  av_activity_id :: string
  av_reward_points :: int
  av_description :: string
  av_transaction_id :: string
  av_created_at :: instant

record activity_row =
  vr_admin_did :: string
  vr_activity_id :: string
  vr_reward_points :: int
  vr_description :: "string option"
  vr_transaction_id :: "string option"
  vr_created_at :: instant

record Admin =
  ad_did :: string
  ad_node_port :: string
  ad_password :: string
  ad_created_at :: instant

record AuthUser =
  au_id :: string
  au_email :: string
  au_password_hash :: string
  au_role :: string
  au_created_at :: instant
  au_updated_at :: instant

record RefreshToken =
  rt_id :: string
  rt_user_id :: string
  rt_token_hash :: string
  rt_expires_at :: instant
  rt_revoked_at :: "instant option"
  rt_replaced_by :: "string option"
  rt_created_at :: instant

record db =
  t_transfers :: "transfer_row list"
  t_user_admins :: "UserAdmin list"
  t_contracts :: "AdminContract list"
  t_activities :: "activity_row list"
  t_admins :: "Admin list"
  t_users :: "AuthUser list"
  t_tokens :: "RefreshToken list"

section \<open>One statement\<close>

type_synonym ctx = "instant option"

text \<open>
  \<open>http_request\<close> and \<open>http_reply\<close> are here because the environment record also answers the
  rubix client's requests: a reply is a function of all requests sent so far.
\<close>

datatype http_body = NoBody | JsonBody json | FormBody "(string \<times> string) list"

record http_request =
  rq_method :: string
  rq_url :: string
  rq_body :: http_body

datatype http_reply =
    TransportFailure string
  | ReadFailure int string
  | Response int string

record env =
  env_dbfault :: "nat \<Rightarrow> string option"
  env_dblatency :: "nat \<Rightarrow> nat"
  env_uuid :: "nat \<Rightarrow> string"
  env_http :: "http_request list \<Rightarrow> nat \<times> http_reply"

record dbworld =
  w_now :: instant
  w_dbops :: nat
  w_fresh :: nat
  w_db :: db

type_synonym ('z, 'a) action = "'z dbworld_scheme \<Rightarrow> (goerr + 'a) \<times> 'z dbworld_scheme"

definition ctx_expired :: "ctx \<Rightarrow> instant \<Rightarrow> bool" where
  "ctx_expired ctx t = (case ctx of None \<Rightarrow> False | Some d \<Rightarrow> d \<le> t)"

text \<open>\<open>context.WithTimeout\<close>: never later than the parent's deadline.\<close>

definition with_timeout :: "ctx \<Rightarrow> instant \<Rightarrow> duration \<Rightarrow> ctx" where
  "with_timeout ctx t d = (case ctx of None \<Rightarrow> Some (t + d) | Some d0 \<Rightarrow> Some (min d0 (t + d)))"

text \<open>
  \<open>Pool.Exec\<close> and \<open>Pool.Query\<close> up to the effect of the statement: an expired context is
  reported without reaching the server.
\<close>

definition db_stmt :: "env \<Rightarrow> ctx \<Rightarrow> ('z, unit) action" where
  "db_stmt e ctx w =
     (if ctx_expired ctx (w_now w) then (Inl (Sentinel DeadlineExceeded), w)
      else
        let w1 = w\<lparr>w_now := w_now w + int (env_dblatency e (w_dbops w)), w_dbops := Suc (w_dbops w)\<rparr>
        in (case env_dbfault e (w_dbops w) of
              Some msg \<Rightarrow> (Inl (Plain msg), w1)
            | None \<Rightarrow> (Inr (), w1)))"

text \<open>The next random UUID.\<close>

definition fresh_uuid :: "env \<Rightarrow> 'z dbworld_scheme \<Rightarrow> string \<times> 'z dbworld_scheme" where
  "fresh_uuid e w = (env_uuid e (w_fresh w), w\<lparr>w_fresh := Suc (w_fresh w)\<rparr>)"

definition set_transfers :: "transfer_row list \<Rightarrow> 'z dbworld_scheme \<Rightarrow> 'z dbworld_scheme" where
  [go_defs]: "set_transfers rows w = w\<lparr>w_db := (w_db w)\<lparr>t_transfers := rows\<rparr>\<rparr>"

definition set_user_admins :: "UserAdmin list \<Rightarrow> 'z dbworld_scheme \<Rightarrow> 'z dbworld_scheme" where
  [go_defs]: "set_user_admins rows w = w\<lparr>w_db := (w_db w)\<lparr>t_user_admins := rows\<rparr>\<rparr>"

definition set_contracts :: "AdminContract list \<Rightarrow> 'z dbworld_scheme \<Rightarrow> 'z dbworld_scheme" where
  [go_defs]: "set_contracts rows w = w\<lparr>w_db := (w_db w)\<lparr>t_contracts := rows\<rparr>\<rparr>"

definition set_activities :: "activity_row list \<Rightarrow> 'z dbworld_scheme \<Rightarrow> 'z dbworld_scheme" where
  [go_defs]: "set_activities rows w = w\<lparr>w_db := (w_db w)\<lparr>t_activities := rows\<rparr>\<rparr>"

definition set_admins :: "Admin list \<Rightarrow> 'z dbworld_scheme \<Rightarrow> 'z dbworld_scheme" where
  [go_defs]: "set_admins rows w = w\<lparr>w_db := (w_db w)\<lparr>t_admins := rows\<rparr>\<rparr>"

definition set_users :: "AuthUser list \<Rightarrow> 'z dbworld_scheme \<Rightarrow> 'z dbworld_scheme" where
  [go_defs]: "set_users rows w = w\<lparr>w_db := (w_db w)\<lparr>t_users := rows\<rparr>\<rparr>"

definition set_tokens :: "RefreshToken list \<Rightarrow> 'z dbworld_scheme \<Rightarrow> 'z dbworld_scheme" where
  [go_defs]: "set_tokens rows w = w\<lparr>w_db := (w_db w)\<lparr>t_tokens := rows\<rparr>\<rparr>"

text \<open>A SQL \<open>NULLIF(x, '')\<close> and \<open>COALESCE(x, '')\<close>.\<close>

definition NULLIF_empty :: "string \<Rightarrow> string option" where
  "NULLIF_empty s = (if s = '''' then None else Some s)"

definition COALESCE :: "'a option \<Rightarrow> 'a \<Rightarrow> 'a" where
  "COALESCE x d = (case x of None \<Rightarrow> d | Some v \<Rightarrow> v)"

lemma COALESCE_simps [simp]: "COALESCE None d = d" "COALESCE (Some v) d = v"
  by (simp_all add: COALESCE_def)

lemma COALESCE_NULLIF [simp]: "COALESCE (NULLIF_empty s) '''' = s"
  by (simp add: NULLIF_empty_def)

section \<open>What a statement does to the state\<close>

lemma db_stmt_db [simp]: "w_db (snd (db_stmt e ctx w)) = w_db w"
  by (simp add: db_stmt_def Let_def split: option.split)

lemma db_stmt_fresh [simp]: "w_fresh (snd (db_stmt e ctx w)) = w_fresh w"
  by (simp add: db_stmt_def Let_def split: option.split)

lemma db_stmt_more [simp]: "dbworld.more (snd (db_stmt e ctx w)) = dbworld.more w"
  by (simp add: db_stmt_def Let_def split: option.split)

lemma db_stmt_now: "w_now w \<le> w_now (snd (db_stmt e ctx w))"
  by (simp add: db_stmt_def Let_def split: option.split)

lemma db_stmtD:
  assumes "db_stmt e ctx w = (r, w1)"
  shows "w_db w1 = w_db w" "w_fresh w1 = w_fresh w" "dbworld.more w1 = dbworld.more w"
    "w_now w \<le> w_now w1"
  using db_stmt_db [of e ctx w] db_stmt_fresh [of e ctx w] db_stmt_more [of e ctx w]
    db_stmt_now [of w e ctx] assms by simp_all

lemma db_stmt_frame:
  "db_stmt e ctx w = (r, w1) \<Longrightarrow>
     w_db w1 = w_db w \<and> w_fresh w1 = w_fresh w \<and> dbworld.more w1 = dbworld.more w \<and> w_now w \<le> w_now w1"
  using db_stmtD by blast

lemma db_stmt_expired: "ctx_expired ctx (w_now w) \<Longrightarrow> db_stmt e ctx w = (Inl (Sentinel DeadlineExceeded), w)"
  by (simp add: db_stmt_def)

text \<open>The shape of a statement error: a deadline or a server message, never a not-found.\<close>

lemma db_stmt_error:
  "db_stmt e ctx w = (Inl err, w1) \<Longrightarrow> err = Sentinel DeadlineExceeded \<or> (\<exists>m. err = Plain m)"
  by (auto simp: db_stmt_def Let_def split: if_splits option.splits)

lemma db_stmt_spec:
  "db_stmt e ctx w = (r, w1) \<Longrightarrow>
     w_db w1 = w_db w \<and> w_fresh w1 = w_fresh w \<and> dbworld.more w1 = dbworld.more w \<and> w_now w \<le> w_now w1 \<and>
     (\<forall>err. r = Inl err \<longrightarrow> err = Sentinel DeadlineExceeded \<or> (\<exists>m. err = Plain m))"
  using db_stmt_frame db_stmt_error by blast

lemma db_stmt_error_not:
  "db_stmt e ctx w = (Inl err, w1) \<Longrightarrow>
     \<not> errors_Is err ErrNotFound \<and> \<not> IsAPIError err \<and> \<not> isUniqueViolation err"
  using db_stmt_error by fastforce

lemma ctx_expired_mono: "ctx_expired ctx t \<Longrightarrow> t \<le> u \<Longrightarrow> ctx_expired ctx u"
  by (auto simp: ctx_expired_def split: option.splits)

lemma with_timeout_expired: "ctx_expired ctx u \<Longrightarrow> ctx_expired (with_timeout ctx t d) u"
  by (auto simp: ctx_expired_def with_timeout_def split: option.splits)

text \<open>The fields a record update leaves alone.\<close>

lemma set_transfers_fields [simp]:
  "t_transfers (w_db (set_transfers r w)) = r"
  "t_user_admins (w_db (set_transfers r w)) = t_user_admins (w_db w)"
  "t_contracts (w_db (set_transfers r w)) = t_contracts (w_db w)"
  "t_activities (w_db (set_transfers r w)) = t_activities (w_db w)"
  "t_admins (w_db (set_transfers r w)) = t_admins (w_db w)"
  "t_users (w_db (set_transfers r w)) = t_users (w_db w)"
  "t_tokens (w_db (set_transfers r w)) = t_tokens (w_db w)"
  "w_now (set_transfers r w) = w_now w" "w_fresh (set_transfers r w) = w_fresh w"
  "w_dbops (set_transfers r w) = w_dbops w" "dbworld.more (set_transfers r w) = dbworld.more w"
  by (simp_all add: set_transfers_def)

lemma set_tokens_fields [simp]:
  "t_tokens (w_db (set_tokens r w)) = r"
  "t_transfers (w_db (set_tokens r w)) = t_transfers (w_db w)"
  "t_user_admins (w_db (set_tokens r w)) = t_user_admins (w_db w)"
  "t_contracts (w_db (set_tokens r w)) = t_contracts (w_db w)"
  "t_activities (w_db (set_tokens r w)) = t_activities (w_db w)"
  "t_admins (w_db (set_tokens r w)) = t_admins (w_db w)"
  "t_users (w_db (set_tokens r w)) = t_users (w_db w)"
  "w_now (set_tokens r w) = w_now w" "w_fresh (set_tokens r w) = w_fresh w"
  "w_dbops (set_tokens r w) = w_dbops w" "dbworld.more (set_tokens r w) = dbworld.more w"
  by (simp_all add: set_tokens_def)

end
