(* ===== verification/Transfers.thy ===== *)
theory Transfers
  imports Database "HOL-Library.Multiset"
begin

text \<open>
  The \<open>transfer_status\<close> ledger (\<open>internal/database/queries.go\<close>): insertion, the partial
  update, the selectors and the per-creator totals. A \<open>WHERE ... ORDER BY ... LIMIT\<close> clause is
  the function from the table to the rows it yields; text columns order bytewise.
\<close>

section \<open>Operations\<close>

definition scan_transfer :: "transfer_row \<Rightarrow> TransferStatus" where
  "scan_transfer r =
     \<lparr>ts_request_id = tr_request_id r,
      ts_transaction_id = COALESCE (tr_transaction_id r) '''',
      ts_kind = tr_kind r,
      ts_admin_did = COALESCE (tr_admin_did r) '''',
      ts_user_did = COALESCE (tr_user_did r) '''',
      ts_activity_ids = Some (COALESCE (tr_activity_ids r) []),
      ts_reward_points = COALESCE (tr_reward_points r) 0,
      ts_contract_hash = COALESCE (tr_contract_hash r) '''',
      ts_status = tr_status r,
      ts_message = COALESCE (tr_message r) '''',
      ts_error_details = COALESCE (tr_error_details r) '''',
      ts_created_at = tr_created_at r,
      ts_updated_at = tr_updated_at r\<rparr>"

definition transfer_insert_row :: "TransferStatus \<Rightarrow> instant \<Rightarrow> transfer_row" where
  "transfer_insert_row s t =
     \<lparr>tr_request_id = ts_request_id s,
      tr_transaction_id = NULLIF_empty (ts_transaction_id s),
      tr_kind = ts_kind s,
      tr_admin_did = NULLIF_empty (ts_admin_did s),
      tr_user_did = NULLIF_empty (ts_user_did s),
      tr_activity_ids = ts_activity_ids s,
      tr_reward_points = Some (ts_reward_points s),
      tr_contract_hash = NULLIF_empty (ts_contract_hash s),
      tr_status = (if ts_status s = '''' then StatusQueued else ts_status s),
      tr_message = Some (ts_message s),
      tr_error_details = Some (ts_error_details s),
      tr_created_at = pg_time t,
      tr_updated_at = pg_time t\<rparr>"

definition CreateTransferStatus :: "env \<Rightarrow> ctx \<Rightarrow> TransferStatus \<Rightarrow> ('z, unit) action" where
  "CreateTransferStatus e ctx s w =
     (case db_stmt e ctx w of
        (Inl err, w1) \<Rightarrow> (Inl (wrap ''CreateTransferStatus: '' err), w1)
      | (Inr _, w1) \<Rightarrow>
          let rows = t_transfers (w_db w1) in
          if \<not> in_int32 (ts_reward_points s) then
            (Inl (wrap ''CreateTransferStatus: '' (Plain ''failed to encode args'')), w1)
          else if ts_request_id s \<in> tr_request_id ` set rows then
            (Inl (wrap ''CreateTransferStatus: '' (PgErr ''23505'' ''duplicate key'')), w1)
          else (Inr (), set_transfers (rows @ [transfer_insert_row s (w_now w)]) w1))"

text \<open>
  \<open>updates map[string]any\<close> as the list of its entries in the order the \<open>range\<close> loop meets
  them: Go leaves that order open, so a lemma shows that it does not matter.
\<close>

datatype upd_val = VStr string | VInt int

definition allowed_fields :: "string list" where
  "allowed_fields =
     [''status'', ''message'', ''error_details'', ''transaction_id'', ''contract_hash'', ''reward_points'']"

fun update_field :: "string \<times> upd_val \<Rightarrow> transfer_row \<Rightarrow> transfer_row" where
  "update_field (k, VStr s) r =
     (if k = ''status'' then r\<lparr>tr_status := s\<rparr>
      else if k = ''message'' then r\<lparr>tr_message := Some s\<rparr>
      else if k = ''error_details'' then r\<lparr>tr_error_details := Some s\<rparr>
      else if k = ''transaction_id'' then r\<lparr>tr_transaction_id := Some s\<rparr>
      else if k = ''contract_hash'' then r\<lparr>tr_contract_hash := Some s\<rparr>
      else r)"
| "update_field (k, VInt n) r =
     (if k = ''reward_points'' then r\<lparr>tr_reward_points := Some n\<rparr> else r)"

text \<open>The driver encodes a string for a text column and an \<open>int4\<close> for \<open>reward_points\<close>.\<close>

fun encodes :: "string \<times> upd_val \<Rightarrow> bool" where
  "encodes (k, VStr s) = (k \<noteq> ''reward_points'')"
| "encodes (k, VInt n) = (k = ''reward_points'' \<and> in_int32 n)"

definition apply_updates :: "(string \<times> upd_val) list \<Rightarrow> instant \<Rightarrow> transfer_row \<Rightarrow> transfer_row" where
  "apply_updates us t r = (fold update_field us r)\<lparr>tr_updated_at := pg_time t\<rparr>"

definition UpdateTransferStatus ::
    "env \<Rightarrow> ctx \<Rightarrow> string \<Rightarrow> (string \<times> upd_val) list \<Rightarrow> ('z, unit) action" where
  "UpdateTransferStatus e ctx rid us w =
     (if us = [] then (Inr (), w)
      else case find (\<lambda>u. fst u \<notin> set allowed_fields) us of
        Some u \<Rightarrow> (Inl (Plain (''UpdateTransferStatus: unsupported field '' @ Quote (fst u))), w)
      | None \<Rightarrow>
          (case db_stmt e ctx w of
             (Inl err, w1) \<Rightarrow> (Inl (wrap ''UpdateTransferStatus: '' err), w1)
           | (Inr _, w1) \<Rightarrow>
               let rows = t_transfers (w_db w1) in
               if \<not> list_all encodes us then
                 (Inl (wrap ''UpdateTransferStatus: '' (Plain ''failed to encode args'')), w1)
               else if rid \<notin> tr_request_id ` set rows then (Inl (Sentinel ErrNotFound), w1)
               else
                 (Inr (),
                  set_transfers
                    (map_rows (\<lambda>r. tr_request_id r = rid) (apply_updates us (w_now w)) rows) w1)))"

definition selectTransferStatus ::
    "env \<Rightarrow> ctx \<Rightarrow> (transfer_row list \<Rightarrow> transfer_row list) \<Rightarrow> ('z, TransferStatus) action" where
  "selectTransferStatus e ctx clause w =
     (case db_stmt e ctx w of
        (Inl err, w1) \<Rightarrow> (Inl (wrap ''selectTransferStatus: '' err), w1)
      | (Inr _, w1) \<Rightarrow>
          (case clause (t_transfers (w_db w1)) of
             [] \<Rightarrow> (Inl (Sentinel ErrNotFound), w1)
           | r # _ \<Rightarrow> (Inr (scan_transfer r), w1)))"

definition listTransferStatus ::
    "env \<Rightarrow> ctx \<Rightarrow> (transfer_row list \<Rightarrow> transfer_row list) \<Rightarrow> ('z, TransferStatus list) action" where
  "listTransferStatus e ctx clause w =
     (case db_stmt e ctx w of
        (Inl err, w1) \<Rightarrow> (Inl (wrap ''listTransferStatus: '' err), w1)
      | (Inr _, w1) \<Rightarrow> (Inr (map scan_transfer (clause (t_transfers (w_db w1)))), w1))"

text \<open>\<open>ORDER BY created_at DESC\<close>.\<close>

definition newest_first :: "transfer_row list \<Rightarrow> transfer_row list" where
  "newest_first rows = sort_key (\<lambda>r. - tr_created_at r) rows"

definition GetTransferStatusByRequestID :: "env \<Rightarrow> ctx \<Rightarrow> string \<Rightarrow> ('z, TransferStatus) action" where
  "GetTransferStatusByRequestID e ctx rid =
     selectTransferStatus e ctx (filter (\<lambda>r. tr_request_id r = rid))"

definition GetTransferStatusByTransactionID :: "env \<Rightarrow> ctx \<Rightarrow> string \<Rightarrow> ('z, TransferStatus) action" where
  "GetTransferStatusByTransactionID e ctx tx =
     selectTransferStatus e ctx (filter (\<lambda>r. tr_transaction_id r = Some tx))"

definition ListSuccessfulRewardsByUserDID ::
    "env \<Rightarrow> ctx \<Rightarrow> string \<Rightarrow> ('z, TransferStatus list) action" where
  "ListSuccessfulRewardsByUserDID e ctx user =
     listTransferStatus e ctx
       (\<lambda>rows. newest_first (filter (\<lambda>r. tr_user_did r = Some user \<and> tr_kind r = KindReward \<and>
          tr_status r = StatusSuccess) rows))"

definition ListSuccessfulRewardsByAdminDID ::
    "env \<Rightarrow> ctx \<Rightarrow> string \<Rightarrow> ('z, TransferStatus list) action" where
  "ListSuccessfulRewardsByAdminDID e ctx admin =
     listTransferStatus e ctx
       (\<lambda>rows. newest_first (filter (\<lambda>r. tr_admin_did r = Some admin \<and> tr_kind r = KindReward \<and>
          tr_status r = StatusSuccess) rows))"

record FTInfoEntry =
  fi_creator_did :: string
  fi_total_count :: int

text \<open>
  \<open>GROUP BY admin_did ORDER BY admin_did\<close>; a group whose key is NULL does not scan into a
  Go string.
\<close>

definition points_of :: "transfer_row \<Rightarrow> int" where
  "points_of r = COALESCE (tr_reward_points r) 0"

definition rewards_of_user :: "string \<Rightarrow> transfer_row list \<Rightarrow> transfer_row list" where
  "rewards_of_user user rows =
     filter (\<lambda>r. tr_user_did r = Some user \<and> tr_kind r = KindReward \<and> tr_status r = StatusSuccess) rows"

definition FTInfoForUser :: "env \<Rightarrow> ctx \<Rightarrow> string \<Rightarrow> ('z, FTInfoEntry list) action" where
  "FTInfoForUser e ctx user w =
     (case db_stmt e ctx w of
        (Inl err, w1) \<Rightarrow> (Inl (wrap ''FTInfoForUser: '' err), w1)
      | (Inr _, w1) \<Rightarrow>
          let rows = rewards_of_user user (t_transfers (w_db w1)) in
          if None \<in> set (map tr_admin_did rows) then
            (Inl (wrap ''FTInfoForUser scan: '' (Plain ''cannot scan NULL into *string'')), w1)
          else
            (Inr (map (\<lambda>a. \<lparr>fi_creator_did = a,
                            fi_total_count =
                              sum_list (map points_of (filter (\<lambda>r. tr_admin_did r = Some a) rows))\<rparr>)
                   (sort (remdups (map (\<lambda>r. the (tr_admin_did r)) rows)))), w1))"

section \<open>Lemmas\<close>

text \<open>The row of a request, and the ledger's primary key.\<close>

definition transfer_of :: "'z dbworld_scheme \<Rightarrow> string \<Rightarrow> transfer_row option" where
  "transfer_of w rid = row_of tr_request_id rid (t_transfers (w_db w))"

definition transfers_ok :: "'z dbworld_scheme \<Rightarrow> bool" where
  "transfers_ok w \<longleftrightarrow> distinct (map tr_request_id (t_transfers (w_db w)))"

lemma update_field_id [simp]:
  "tr_request_id (update_field u r) = tr_request_id r"
  "tr_kind (update_field u r) = tr_kind r"
  "tr_admin_did (update_field u r) = tr_admin_did r"
  "tr_user_did (update_field u r) = tr_user_did r"
  "tr_activity_ids (update_field u r) = tr_activity_ids r"
  "tr_created_at (update_field u r) = tr_created_at r"
  by (cases u, cases "snd u", auto)+

lemma fold_update_id [simp]:
  "tr_request_id (fold update_field us r) = tr_request_id r"
  "tr_kind (fold update_field us r) = tr_kind r"
  "tr_admin_did (fold update_field us r) = tr_admin_did r"
  "tr_user_did (fold update_field us r) = tr_user_did r"
  "tr_activity_ids (fold update_field us r) = tr_activity_ids r"
  "tr_created_at (fold update_field us r) = tr_created_at r"
  by (induction us arbitrary: r) auto

lemma apply_updates_id [simp]:
  "tr_request_id (apply_updates us t r) = tr_request_id r"
  "tr_kind (apply_updates us t r) = tr_kind r"
  "tr_admin_did (apply_updates us t r) = tr_admin_did r"
  "tr_user_did (apply_updates us t r) = tr_user_did r"
  "tr_activity_ids (apply_updates us t r) = tr_activity_ids r"
  "tr_created_at (apply_updates us t r) = tr_created_at r"
  by (simp_all add: apply_updates_def)

interpretation transfer_update: keyed_update tr_request_id "apply_updates us t"
  for us t
  by unfold_locales simp

text \<open>What an entry of the update map does to each column.\<close>

lemma update_field_columns:
  "tr_status (update_field (k, v) r) =
     (case v of VStr s \<Rightarrow> if k = ''status'' then s else tr_status r | VInt n \<Rightarrow> tr_status r)"
  "tr_message (update_field (k, v) r) =
     (case v of VStr s \<Rightarrow> if k = ''message'' then Some s else tr_message r | VInt n \<Rightarrow> tr_message r)"
  "tr_error_details (update_field (k, v) r) =
     (case v of VStr s \<Rightarrow> if k = ''error_details'' then Some s else tr_error_details r
      | VInt n \<Rightarrow> tr_error_details r)"
  "tr_transaction_id (update_field (k, v) r) =
     (case v of VStr s \<Rightarrow> if k = ''transaction_id'' then Some s else tr_transaction_id r
      | VInt n \<Rightarrow> tr_transaction_id r)"
  "tr_contract_hash (update_field (k, v) r) =
     (case v of VStr s \<Rightarrow> if k = ''contract_hash'' then Some s else tr_contract_hash r
      | VInt n \<Rightarrow> tr_contract_hash r)"
  "tr_reward_points (update_field (k, v) r) =
     (case v of VStr s \<Rightarrow> tr_reward_points r
      | VInt n \<Rightarrow> if k = ''reward_points'' then Some n else tr_reward_points r)"
  "tr_updated_at (update_field (k, v) r) = tr_updated_at r"
  "transfer_row.more (update_field (k, v) r) = transfer_row.more r"
  by (cases v; simp)+

lemma update_field_commute:
  "fst u \<noteq> fst v \<Longrightarrow> update_field u (update_field v r) = update_field v (update_field u r)"
proof (rule transfer_row.equality)
qed (cases u; cases v; auto simp: update_field_columns split: upd_val.split)+

lemma fold_update_perm:
  assumes "distinct (map fst us)" and "mset us = mset vs"
  shows "fold update_field us = fold update_field vs"
proof (rule fold_multiset_equiv)
  fix x y assume "x \<in> set us" "y \<in> set us"
  then have "x = y \<or> fst x \<noteq> fst y"
    using assms(1) by (metis eq_key_imp_eq_value prod.collapse)
  then show "update_field x \<circ> update_field y = update_field y \<circ> update_field x"
    by (auto simp: fun_eq_iff update_field_commute)
qed (rule assms(2))

lemma find_none_perm: "mset us = mset vs \<Longrightarrow> find P us = None \<longleftrightarrow> find P vs = None"
  by (metis find_None_iff set_mset_mset)

text \<open>One case distinction for every caller of the update.\<close>

lemma UpdateTransferStatus_cases:
  assumes "UpdateTransferStatus e ctx rid us w = (r, w')"
  obtains (fail) err where "r = Inl err" "w_db w' = w_db w" "w_now w \<le> w_now w'"
      "w_fresh w' = w_fresh w" "dbworld.more w' = dbworld.more w"
  | (applied) "r = Inr ()" "us \<noteq> [] \<Longrightarrow> transfer_of w rid \<noteq> None"
      "us \<noteq> [] \<Longrightarrow> list_all encodes us"
      "w_db w' = (w_db w)\<lparr>t_transfers :=
         (if us = [] then t_transfers (w_db w)
          else map_rows (\<lambda>r. tr_request_id r = rid) (apply_updates us (w_now w)) (t_transfers (w_db w)))\<rparr>"
      "w_now w \<le> w_now w'" "w_fresh w' = w_fresh w" "dbworld.more w' = dbworld.more w"
proof (cases "us = [] \<or> find (\<lambda>u. fst u \<notin> set allowed_fields) us \<noteq> None")
  case True
  with assms have "(us = [] \<and> r = Inr () \<and> w' = w) \<or> ((\<exists>err. r = Inl err) \<and> w' = w)"
    by (cases "us = []") (auto simp: UpdateTransferStatus_def simp del: split_paired_Ex)
  then show ?thesis using fail applied by auto
next
  case False
  then have F: "us \<noteq> []" "find (\<lambda>u. fst u \<notin> set allowed_fields) us = None" by blast+
  obtain q w1 where st: "db_stmt e ctx w = (q, w1)" by fastforce
  note fr = db_stmtD [OF st]
  show ?thesis
  proof (cases q)
    case (Inl err)
    with F st assms fr fail show ?thesis by (auto simp: UpdateTransferStatus_def)
  next
    case (Inr u)
    show ?thesis
    proof (cases "list_all encodes us \<and> rid \<in> tr_request_id ` set (t_transfers (w_db w))")
      case True
      then have "transfer_of w rid \<noteq> None"
        by (auto simp: transfer_of_def row_of_None_iff)
      with True F Inr st assms fr applied show ?thesis
        by (auto simp: UpdateTransferStatus_def Let_def set_transfers_def)
    next
      case False2: False
      with F Inr st assms fr(1) have "\<exists>err. r = Inl err" "w' = w1"
        by (auto simp: UpdateTransferStatus_def Let_def split: if_splits)
      with fr fail show ?thesis by auto
    qed
  qed
qed

lemma UpdateTransferStatus_ok:
  assumes "UpdateTransferStatus e ctx rid us w = (r, w')" and "transfers_ok w"
  shows "transfers_ok w'"
  using assms
  by (cases rule: UpdateTransferStatus_cases)
    (auto simp: transfers_ok_def transfer_update.keys_map_rows)

lemma UpdateTransferStatus_row:
  assumes "UpdateTransferStatus e ctx rid us w = (Inr (), w')" and "us \<noteq> []"
  shows "transfer_of w' q =
     (if q = rid then map_option (apply_updates us (w_now w)) (transfer_of w q) else transfer_of w q)"
  using assms(1) by (cases rule: UpdateTransferStatus_cases)
    (simp_all add: assms(2) transfer_of_def transfer_update.row_of_map_rows_key)

lemma UpdateTransferStatus_other:
  assumes "UpdateTransferStatus e ctx rid us w = (r, w')" and "q \<noteq> rid"
  shows "transfer_of w' q = transfer_of w q"
  using assms(1) by (cases rule: UpdateTransferStatus_cases)
    (simp_all add: assms(2) transfer_of_def transfer_update.row_of_map_rows_key)

lemma UpdateTransferStatus_fail:
  assumes "UpdateTransferStatus e ctx rid us w = (Inl err, w')"
  shows "w_db w' = w_db w"
  using assms by (cases rule: UpdateTransferStatus_cases) simp_all

lemma CreateTransferStatus_cases:
  assumes "CreateTransferStatus e ctx s w = (r, w')"
  obtains (fail) err where "r = Inl err" "w_db w' = w_db w" "w_now w \<le> w_now w'"
      "w_fresh w' = w_fresh w" "dbworld.more w' = dbworld.more w"
  | (applied) "r = Inr ()" "transfer_of w (ts_request_id s) = None"
      "w_db w' = (w_db w)\<lparr>t_transfers := t_transfers (w_db w) @ [transfer_insert_row s (w_now w)]\<rparr>"
      "w_now w \<le> w_now w'" "w_fresh w' = w_fresh w" "dbworld.more w' = dbworld.more w"
proof -
  obtain q w1 where st: "db_stmt e ctx w = (q, w1)" by fastforce
  note fr = db_stmtD [OF st]
  show ?thesis
  proof (cases "(\<exists>u. q = Inr u) \<and> in_int32 (ts_reward_points s) \<and>
      ts_request_id s \<notin> tr_request_id ` set (t_transfers (w_db w))")
    case True
    then have "transfer_of w (ts_request_id s) = None"
      by (simp add: transfer_of_def row_of_None_iff)
    with True st assms fr applied show ?thesis
      by (auto simp: CreateTransferStatus_def Let_def set_transfers_def)
  next
    case False
    with st assms fr(1) have "\<exists>err. r = Inl err" "w' = w1"
      by (auto simp: CreateTransferStatus_def Let_def split: sum.splits if_splits)
    with fr fail show ?thesis by auto
  qed
qed

lemma transfer_insert_row_id [simp]: "tr_request_id (transfer_insert_row s t) = ts_request_id s"
  by (simp add: transfer_insert_row_def)

lemma CreateTransferStatus_ok:
  assumes "CreateTransferStatus e ctx s w = (r, w')" and "transfers_ok w"
  shows "transfers_ok w'"
  using assms
  by (cases rule: CreateTransferStatus_cases)
    (auto simp: transfers_ok_def transfer_of_def row_of_None_iff)

lemma CreateTransferStatus_row:
  assumes "CreateTransferStatus e ctx s w = (Inr (), w')"
  shows "transfer_of w' q =
    (if q = ts_request_id s then Some (transfer_insert_row s (w_now w)) else transfer_of w q)"
  using assms
  by (cases rule: CreateTransferStatus_cases)
    (auto simp: transfer_of_def row_of_append split: option.split)

lemma filter_row_of:
  "(case filter (\<lambda>r. key r = k) rows of [] \<Rightarrow> None | r # _ \<Rightarrow> Some r) = row_of key k rows"
  by (induction rows) auto

lemma GetTransferStatus_eq:
  "GetTransferStatusByRequestID e ctx rid w =
     (case db_stmt e ctx w of
        (Inl err, w1) \<Rightarrow> (Inl (wrap ''selectTransferStatus: '' err), w1)
      | (Inr _, w1) \<Rightarrow>
          (case transfer_of w rid of
             None \<Rightarrow> (Inl (Sentinel ErrNotFound), w1)
           | Some r \<Rightarrow> (Inr (scan_transfer r), w1)))"
proof -
  obtain q w1 where st: "db_stmt e ctx w = (q, w1)" by fastforce
  note fr = db_stmtD [OF st]
  show ?thesis
    using filter_row_of [of tr_request_id rid "t_transfers (w_db w)"] st fr
    by (auto simp: GetTransferStatusByRequestID_def selectTransferStatus_def transfer_of_def
        split: sum.split list.splits option.splits)
qed

lemma set_newest_first [simp]: "set (newest_first rows) = set rows"
  by (simp add: newest_first_def)

lemma mset_newest_first [simp]: "mset (newest_first rows) = mset rows"
  by (simp add: newest_first_def)

lemma sorted_newest_first: "sorted_wrt (\<ge>) (map tr_created_at (newest_first rows))"
proof -
  have "sorted (map (\<lambda>r. - tr_created_at r) (newest_first rows))"
    by (simp add: newest_first_def)
  then show ?thesis by (simp add: sorted_wrt_map)
qed

lemma scan_transfer_created [simp]: "ts_created_at (scan_transfer r) = tr_created_at r"
  by (simp add: scan_transfer_def)

text \<open>Grouping loses and counts twice no row.\<close>

lemma sum_by_groups:
  fixes f :: "'a \<Rightarrow> 'b::comm_monoid_add"
  assumes "distinct ks" and "g ` set xs \<subseteq> set ks"
  shows "sum_list (map (\<lambda>k. sum_list (map f (filter (\<lambda>x. g x = k) xs))) ks) = sum_list (map f xs)"
  using assms(2)
proof (induction xs)
  case Nil
  then show ?case by simp
next
  case (Cons x xs)
  have "sum_list (map (\<lambda>k. sum_list (map f (filter (\<lambda>y. g y = k) (x # xs)))) ks) =
      sum_list (map (\<lambda>k. (if k = g x then f x else 0) + sum_list (map f (filter (\<lambda>y. g y = k) xs))) ks)"
    by (rule arg_cong [where f = sum_list], rule map_cong) auto
  also have "\<dots> = sum_list (map (\<lambda>k. if k = g x then f x else 0) ks) + sum_list (map f xs)"
    using Cons by (simp add: sum_list_addf)
  also have "sum_list (map (\<lambda>k. if k = g x then f x else 0) ks) = f x"
    using Cons.prems assms(1) by (simp add: sum_list_distinct_conv_sum_set)
  finally show ?case by simp
qed

section \<open>Properties\<close>

text \<open>The ledger the witnesses run on: empty, in a world where every statement succeeds.\<close>

definition quiet_env :: env where
  "quiet_env =
     \<lparr>env_dbfault = (\<lambda>_. None), env_dblatency = (\<lambda>_. 1), env_uuid = (\<lambda>n. replicate n CHR ''u''),
      env_http = (\<lambda>_. (0, TransportFailure ''''))\<rparr>"

definition empty_world :: dbworld where
  "empty_world =
     \<lparr>w_now = 7000, w_dbops = 0, w_fresh = 0,
      w_db = \<lparr>t_transfers = [], t_user_admins = [], t_contracts = [], t_activities = [], t_admins = [],
              t_users = [], t_tokens = []\<rparr>\<rparr>"

definition sample_status :: TransferStatus where
  "sample_status =
     \<lparr>ts_request_id = ''r'', ts_transaction_id = '''', ts_kind = KindReward, ts_admin_did = ''A'', ts_user_did = ''U'',
      ts_activity_ids = Some [''x''], ts_reward_points = 3, ts_contract_hash = '''', ts_status = StatusSuccess,
      ts_message = ''m'', ts_error_details = '''', ts_created_at = 0, ts_updated_at = 0\<rparr>"

text \<open>
  A status row that was created is read back as it was given, with the defaults the
  insert and the query apply: an empty status is \<open>queued\<close>, missing activities are an empty list,
  both timestamps are the time of the insert.
\<close>

lemma transfer_roundtrip:
  assumes "CreateTransferStatus e ctx s w = (Inr (), w1)"
    and "GetTransferStatusByRequestID e' ctx' (ts_request_id s) w1 = (Inr t, w2)"
  shows "t = s\<lparr>ts_activity_ids := Some (COALESCE (ts_activity_ids s) []),
      ts_status := (if ts_status s = '''' then StatusQueued else ts_status s),
      ts_created_at := pg_time (w_now w), ts_updated_at := pg_time (w_now w)\<rparr>"
proof -
  have "transfer_of w1 (ts_request_id s) = Some (transfer_insert_row s (w_now w))"
    using CreateTransferStatus_row [OF assms(1)] by simp
  with assms(2) have "t = scan_transfer (transfer_insert_row s (w_now w))"
    by (auto simp: GetTransferStatus_eq split: prod.splits sum.splits)
  then show ?thesis by (simp add: scan_transfer_def transfer_insert_row_def)
qed

lemma sample_created:
  "CreateTransferStatus quiet_env None sample_status empty_world =
     (Inr (), set_transfers [transfer_insert_row sample_status 7000] (empty_world\<lparr>w_now := 7001, w_dbops := 1\<rparr>))"
  by (simp add: CreateTransferStatus_def db_stmt_def quiet_env_def empty_world_def ctx_expired_def
      sample_status_def set_transfers_def in_int32_def)


text \<open>
  The order in which Go ranges over the update map does not matter: two orders of the
  same entries leave the same world, and one fails exactly when the other does.
\<close>

lemma update_order_irrelevant:
  assumes "distinct (map fst us)" and "mset us = mset vs"
  shows "snd (UpdateTransferStatus e ctx rid us w) = snd (UpdateTransferStatus e ctx rid vs w) \<and>
    (fst (UpdateTransferStatus e ctx rid us w) = Inr () \<longleftrightarrow> fst (UpdateTransferStatus e ctx rid vs w) = Inr ())"
proof -
  have "us = [] \<longleftrightarrow> vs = []" using assms(2) by (metis mset_zero_iff)
  moreover have "list_all encodes us = list_all encodes vs"
    using assms(2) by (simp add: list_all_iff) (metis set_mset_mset)
  moreover have "apply_updates us = apply_updates vs"
    using fold_update_perm [OF assms] by (simp add: fun_eq_iff apply_updates_def)
  ultimately show ?thesis
    using find_none_perm [OF assms(2), of "\<lambda>u. fst u \<notin> set allowed_fields"]
    by (auto simp: UpdateTransferStatus_def Let_def split: option.split prod.split sum.split)
qed


text \<open>
  The per-creator totals of a user add up to exactly the points of that user's
  successful rewards, and name each creator once, in order.
\<close>

lemma ft_totals_complete:
  assumes "FTInfoForUser e ctx user w = (Inr es, w')"
  shows "sum_list (map fi_total_count es) =
      sum_list (map points_of (rewards_of_user user (t_transfers (w_db w)))) \<and>
    sorted (map fi_creator_did es) \<and> distinct (map fi_creator_did es)"
proof -
  obtain w1 where st: "db_stmt e ctx w = (Inr (), w1)"
    using assms by (auto simp: FTInfoForUser_def split: prod.splits sum.splits)
  let ?rows = "rewards_of_user user (t_transfers (w_db w))"
  let ?ks = "sort (remdups (map (\<lambda>r. the (tr_admin_did r)) ?rows))"
  have none: "None \<notin> set (map tr_admin_did ?rows)"
    and es: "es = map (\<lambda>a. \<lparr>fi_creator_did = a,
        fi_total_count = sum_list (map points_of (filter (\<lambda>r. tr_admin_did r = Some a) ?rows))\<rparr>) ?ks"
    using assms st db_stmtD(1) [OF st] by (auto simp: FTInfoForUser_def Let_def split: if_splits)
  have "filter (\<lambda>r. tr_admin_did r = Some a) ?rows = filter (\<lambda>r. the (tr_admin_did r) = a) ?rows" for a
    using none by (intro filter_cong) (auto simp: image_iff)
  then have "sum_list (map fi_total_count es) =
      sum_list (map (\<lambda>a. sum_list (map points_of (filter (\<lambda>r. the (tr_admin_did r) = a) ?rows))) ?ks)"
    by (simp add: es comp_def)
  also have "\<dots> = sum_list (map points_of ?rows)"
    by (rule sum_by_groups) auto
  finally show ?thesis by (simp add: es comp_def)
qed

definition sample_rows :: "transfer_row list" where
  "sample_rows =
     [transfer_insert_row sample_status 1000,
      transfer_insert_row (sample_status\<lparr>ts_request_id := ''s'', ts_admin_did := ''B''\<rparr>) 2000,
      transfer_insert_row (sample_status\<lparr>ts_request_id := ''t'', ts_reward_points := 4\<rparr>) 3000]"

lemma sample_rows_ok [simp]:
  "rewards_of_user ''U'' sample_rows = sample_rows"
  "sum_list (map points_of sample_rows) = 10"
  "None \<notin> tr_admin_did ` set sample_rows"
  by (simp_all add: sample_rows_def rewards_of_user_def transfer_insert_row_def sample_status_def
      NULLIF_empty_def points_of_def)


text \<open>
  A user's reward history is every successful reward of that user, once each, newest
  first.
\<close>

lemma reward_history_complete:
  assumes "ListSuccessfulRewardsByUserDID e ctx user w = (Inr ts, w')"
  shows "mset ts = mset (map scan_transfer (rewards_of_user user (t_transfers (w_db w)))) \<and>
    sorted_wrt (\<ge>) (map ts_created_at ts) \<and> w_db w' = w_db w"
proof -
  obtain r1 w1 where st: "db_stmt e ctx w = (r1, w1)" by fastforce
  have ts: "ts = map scan_transfer (newest_first (rewards_of_user user (t_transfers (w_db w1))))" "w' = w1"
    using assms st
    by (cases r1; simp add: ListSuccessfulRewardsByUserDID_def listTransferStatus_def rewards_of_user_def)+
  have "map ts_created_at (map scan_transfer xs) = map tr_created_at xs" for xs by simp
  then have "sorted_wrt (\<ge>) (map ts_created_at ts)"
    unfolding ts(1) by (simp only: sorted_newest_first)
  with db_stmtD(1) [OF st] show ?thesis by (simp add: ts)
qed

text \<open>
  An update that names a column outside the whitelist is refused before the database
  is asked, and changes nothing.
\<close>

lemma update_unknown_field_refused:
  assumes "u \<in> set us" and "fst u \<notin> set allowed_fields"
  shows "\<exists>msg. UpdateTransferStatus e ctx rid us w = (Inl (Plain msg), w)"
proof -
  have "find (\<lambda>u. fst u \<notin> set allowed_fields) us \<noteq> None" using assms unfolding find_None_iff by blast
  moreover have "us \<noteq> []" using assms by auto
  ultimately show ?thesis by (auto simp: UpdateTransferStatus_def)
qed

end
