(* ===== verification/Registry.thy ===== *)
theory Registry
  imports Transfers
begin

text \<open>
  The registries of the database package: which admin onboarded a user (\<open>user_admins\<close>), the
  contract an admin deployed for a kind (\<open>admin_contracts\<close>), the activities and their points
  (\<open>activities\<close>) and the admins themselves (\<open>admins\<close>).
\<close>

section \<open>Operations\<close>

definition UpsertUserAdmin :: "env \<Rightarrow> ctx \<Rightarrow> string \<Rightarrow> string \<Rightarrow> ('z, unit) action" where
  "UpsertUserAdmin e ctx user admin w =
     (case db_stmt e ctx w of
        (Inl err, w1) \<Rightarrow> (Inl (wrap ''UpsertUserAdmin: '' err), w1)
      | (Inr _, w1) \<Rightarrow>
          (Inr (),
           set_user_admins
             (upsert ua_user_did (\<lambda>r. r)
               \<lparr>ua_user_did = user, ua_admin_did = admin, ua_created_at = pg_time (w_now w)\<rparr>
               (t_user_admins (w_db w1))) w1))"

definition CountUsersForAdmin :: "env \<Rightarrow> ctx \<Rightarrow> string \<Rightarrow> ('z, int) action" where
  "CountUsersForAdmin e ctx admin w =
     (case db_stmt e ctx w of
        (Inl err, w1) \<Rightarrow> (Inl (wrap ''CountUsersForAdmin: '' err), w1)
      | (Inr _, w1) \<Rightarrow>
          (Inr (int (length (filter (\<lambda>r. ua_admin_did r = admin) (t_user_admins (w_db w1))))), w1))"

definition GetAdminForUser :: "env \<Rightarrow> ctx \<Rightarrow> string \<Rightarrow> ('z, string) action" where
  "GetAdminForUser e ctx user w =
     (case db_stmt e ctx w of
        (Inl err, w1) \<Rightarrow> (Inl (wrap ''GetAdminForUser: '' err), w1)
      | (Inr _, w1) \<Rightarrow>
          (case row_of ua_user_did user (t_user_admins (w_db w1)) of
             None \<Rightarrow> (Inl (Sentinel ErrNotFound), w1)
           | Some r \<Rightarrow> (Inr (ua_admin_did r), w1)))"

definition contract_key :: "AdminContract \<Rightarrow> string \<times> string" where
  "contract_key r = (ac_admin_did r, ac_kind r)"

definition UpsertAdminContract :: "env \<Rightarrow> ctx \<Rightarrow> string \<Rightarrow> string \<Rightarrow> string \<Rightarrow> ('z, unit) action" where
  "UpsertAdminContract e ctx admin kind hash w =
     (case db_stmt e ctx w of
        (Inl err, w1) \<Rightarrow> (Inl (wrap ''UpsertAdminContract: '' err), w1)
      | (Inr _, w1) \<Rightarrow>
          (Inr (),
           set_contracts
             (upsert contract_key (\<lambda>r. r\<lparr>ac_hash := hash, ac_deployed_at := pg_time (w_now w)\<rparr>)
               \<lparr>ac_admin_did = admin, ac_kind = kind, ac_hash = hash,
                ac_deployed_at = pg_time (w_now w)\<rparr>
               (t_contracts (w_db w1))) w1))"

definition GetAdminContract :: "env \<Rightarrow> ctx \<Rightarrow> string \<Rightarrow> string \<Rightarrow> ('z, string) action" where
  "GetAdminContract e ctx admin kind w =
     (case db_stmt e ctx w of
        (Inl err, w1) \<Rightarrow> (Inl (wrap ''GetAdminContract: '' err), w1)
      | (Inr _, w1) \<Rightarrow>
          (case row_of contract_key (admin, kind) (t_contracts (w_db w1)) of
             None \<Rightarrow> (Inl (Sentinel ErrNotFound), w1)
           | Some r \<Rightarrow> (Inr (ac_hash r), w1)))"

definition GetAdminDIDByContract :: "env \<Rightarrow> ctx \<Rightarrow> string \<Rightarrow> ('z, string) action" where
  "GetAdminDIDByContract e ctx hash w =
     (case db_stmt e ctx w of
        (Inl err, w1) \<Rightarrow> (Inl (wrap ''GetAdminDIDByContract: '' err), w1)
      | (Inr _, w1) \<Rightarrow>
          (case row_of ac_hash hash (t_contracts (w_db w1)) of
             None \<Rightarrow> (Inl (Sentinel ErrNotFound), w1)
           | Some r \<Rightarrow> (Inr (ac_admin_did r), w1)))"

definition activity_key :: "activity_row \<Rightarrow> string \<times> string" where
  "activity_key r = (vr_admin_did r, vr_activity_id r)"

definition scan_activity :: "activity_row \<Rightarrow> Activity" where
  "scan_activity r =
     \<lparr>av_admin_did = vr_admin_did r, av_activity_id = vr_activity_id r,
      av_reward_points = vr_reward_points r, av_description = COALESCE (vr_description r) '''',
      av_transaction_id = COALESCE (vr_transaction_id r) '''', av_created_at = vr_created_at r\<rparr>"

definition CreateActivity :: "env \<Rightarrow> ctx \<Rightarrow> Activity \<Rightarrow> ('z, unit) action" where
  "CreateActivity e ctx a w =
     (case db_stmt e ctx w of
        (Inl err, w1) \<Rightarrow> (Inl (wrap ''CreateActivity: '' err), w1)
      | (Inr _, w1) \<Rightarrow>
          if \<not> in_int32 (av_reward_points a) then
            (Inl (wrap ''CreateActivity: '' (Plain ''failed to encode args'')), w1)
          else
            (Inr (),
             set_activities
               (upsert activity_key
                 (\<lambda>r. r\<lparr>vr_reward_points := av_reward_points a, vr_description := Some (av_description a),
                         vr_transaction_id := NULLIF_empty (av_transaction_id a)\<rparr>)
                 \<lparr>vr_admin_did = av_admin_did a, vr_activity_id = av_activity_id a,
                  vr_reward_points = av_reward_points a, vr_description = Some (av_description a),
                  vr_transaction_id = NULLIF_empty (av_transaction_id a),
                  vr_created_at = pg_time (w_now w)\<rparr>
                 (t_activities (w_db w1))) w1))"

definition GetActivity :: "env \<Rightarrow> ctx \<Rightarrow> string \<Rightarrow> string \<Rightarrow> ('z, Activity) action" where
  "GetActivity e ctx admin aid w =
     (case db_stmt e ctx w of
        (Inl err, w1) \<Rightarrow> (Inl (wrap ''GetActivity: '' err), w1)
      | (Inr _, w1) \<Rightarrow>
          (case row_of activity_key (admin, aid) (t_activities (w_db w1)) of
             None \<Rightarrow> (Inl (Sentinel ErrNotFound), w1)
           | Some r \<Rightarrow> (Inr (scan_activity r), w1)))"

definition ListActivities :: "env \<Rightarrow> ctx \<Rightarrow> string \<Rightarrow> ('z, Activity list) action" where
  "ListActivities e ctx admin w =
     (case db_stmt e ctx w of
        (Inl err, w1) \<Rightarrow> (Inl (wrap ''ListActivities: '' err), w1)
      | (Inr _, w1) \<Rightarrow>
          (Inr (map scan_activity
                 (sort_key vr_created_at
                   (if admin = '''' then t_activities (w_db w1)
                    else filter (\<lambda>r. vr_admin_did r = admin) (t_activities (w_db w1))))), w1))"

text \<open>The rows \<open>admin_did = $1 AND activity_id = ANY($2)\<close> selects, and their sum.\<close>

definition activities_for :: "string \<Rightarrow> string list \<Rightarrow> activity_row list \<Rightarrow> activity_row list" where
  "activities_for admin ids rows =
     filter (\<lambda>r. vr_admin_did r = admin \<and> vr_activity_id r \<in> set ids) rows"

definition SumRewardPointsForActivities :: "env \<Rightarrow> ctx \<Rightarrow> string \<Rightarrow> string list \<Rightarrow> ('z, int) action" where
  "SumRewardPointsForActivities e ctx admin ids w =
     (if ids = [] then (Inr 0, w)
      else case db_stmt e ctx w of
        (Inl err, w1) \<Rightarrow> (Inl (wrap ''SumRewardPointsForActivities: '' err), w1)
      | (Inr _, w1) \<Rightarrow>
          (Inr (sum_list (map vr_reward_points (activities_for admin ids (t_activities (w_db w1))))), w1))"

definition CreateAdmin :: "env \<Rightarrow> ctx \<Rightarrow> Admin \<Rightarrow> ('z, unit) action" where
  "CreateAdmin e ctx a w =
     (case db_stmt e ctx w of
        (Inl err, w1) \<Rightarrow> (Inl (wrap ''CreateAdmin: '' err), w1)
      | (Inr _, w1) \<Rightarrow>
          let rows = t_admins (w_db w1) in
          if ad_did a \<in> ad_did ` set rows then
            (Inl (wrap ''CreateAdmin: '' (PgErr ''23505'' ''duplicate key'')), w1)
          else
            (Inr (), set_admins (rows @ [a\<lparr>ad_created_at := pg_time (w_now w)\<rparr>]) w1))"

definition GetAdminByDID :: "env \<Rightarrow> ctx \<Rightarrow> string \<Rightarrow> ('z, Admin) action" where
  "GetAdminByDID e ctx did w =
     (case db_stmt e ctx w of
        (Inl err, w1) \<Rightarrow> (Inl (wrap ''GetAdminByDID: '' err), w1)
      | (Inr _, w1) \<Rightarrow>
          (case row_of ad_did did (t_admins (w_db w1)) of
             None \<Rightarrow> (Inl (Sentinel ErrNotFound), w1)
           | Some r \<Rightarrow> (Inr r, w1)))"

definition ListAdmins :: "env \<Rightarrow> ctx \<Rightarrow> ('z, Admin list) action" where
  "ListAdmins e ctx w =
     (case db_stmt e ctx w of
        (Inl err, w1) \<Rightarrow> (Inl (wrap ''ListAdmins: '' err), w1)
      | (Inr _, w1) \<Rightarrow> (Inr (sort_key ad_created_at (t_admins (w_db w1))), w1))"

section \<open>Lemmas\<close>

text \<open>The contracts of the two upserts and of the no-op upsert, by the keyed-update interface.\<close>

interpretation user_admin_update: keyed_update ua_user_did "\<lambda>r. r"
  by unfold_locales simp

interpretation contract_update: keyed_update contract_key "\<lambda>r. r\<lparr>ac_hash := h, ac_deployed_at := t\<rparr>"
  for h t
  by unfold_locales (simp add: contract_key_def)

interpretation activity_update: keyed_update activity_key
    "\<lambda>r. r\<lparr>vr_reward_points := p, vr_description := d, vr_transaction_id := x\<rparr>"
  for p d x
  by unfold_locales (simp add: activity_key_def)

definition admin_of_user :: "'z dbworld_scheme \<Rightarrow> string \<Rightarrow> string option" where
  "admin_of_user w user = map_option ua_admin_did (row_of ua_user_did user (t_user_admins (w_db w)))"

definition contract_of :: "'z dbworld_scheme \<Rightarrow> string \<Rightarrow> string \<Rightarrow> string option" where
  "contract_of w admin kind = map_option ac_hash (row_of contract_key (admin, kind) (t_contracts (w_db w)))"

definition activity_of :: "'z dbworld_scheme \<Rightarrow> string \<Rightarrow> string \<Rightarrow> Activity option" where
  "activity_of w admin aid = map_option scan_activity (row_of activity_key (admin, aid) (t_activities (w_db w)))"

definition points_for :: "'z dbworld_scheme \<Rightarrow> string \<Rightarrow> string list \<Rightarrow> int" where
  "points_for w admin ids = sum_list (map vr_reward_points (activities_for admin ids (t_activities (w_db w))))"

definition registry_ok :: "'z dbworld_scheme \<Rightarrow> bool" where
  "registry_ok w \<longleftrightarrow>
     distinct (map ua_user_did (t_user_admins (w_db w))) \<and>
     distinct (map contract_key (t_contracts (w_db w))) \<and>
     distinct (map activity_key (t_activities (w_db w))) \<and>
     distinct (map ad_did (t_admins (w_db w)))"

text \<open>What the readers return, in terms of these views; none of them changes a table.\<close>

lemma GetAdminContract_eq:
  "GetAdminContract e ctx admin kind w =
     (case db_stmt e ctx w of
        (Inl err, w1) \<Rightarrow> (Inl (wrap ''GetAdminContract: '' err), w1)
      | (Inr _, w1) \<Rightarrow>
          (case contract_of w admin kind of
             None \<Rightarrow> (Inl (Sentinel ErrNotFound), w1)
           | Some h \<Rightarrow> (Inr h, w1)))"
  by (auto dest!: db_stmtD(1) simp: GetAdminContract_def contract_of_def split: prod.split sum.split option.split)

lemma SumRewardPoints_eq:
  "SumRewardPointsForActivities e ctx admin ids w =
     (if ids = [] then (Inr 0, w)
      else case db_stmt e ctx w of
        (Inl err, w1) \<Rightarrow> (Inl (wrap ''SumRewardPointsForActivities: '' err), w1)
      | (Inr _, w1) \<Rightarrow> (Inr (points_for w admin ids), w1))"
  by (auto dest!: db_stmtD(1) simp: SumRewardPointsForActivities_def points_for_def split: prod.split sum.split)

lemma GetAdminForUser_eq:
  "GetAdminForUser e ctx user w =
     (case db_stmt e ctx w of
        (Inl err, w1) \<Rightarrow> (Inl (wrap ''GetAdminForUser: '' err), w1)
      | (Inr _, w1) \<Rightarrow>
          (case admin_of_user w user of
             None \<Rightarrow> (Inl (Sentinel ErrNotFound), w1)
           | Some a \<Rightarrow> (Inr a, w1)))"
  by (auto dest!: db_stmtD(1) simp: GetAdminForUser_def admin_of_user_def split: prod.split sum.split option.split)

lemma UpsertUserAdmin_views:
  assumes "UpsertUserAdmin e ctx user admin w = (Inr (), w')"
  shows "admin_of_user w' u =
      (if u = user then Some (COALESCE (admin_of_user w user) admin) else admin_of_user w u)"
    and "registry_ok w \<Longrightarrow> registry_ok w'" and "t_transfers (w_db w') = t_transfers (w_db w)"
    and "t_contracts (w_db w') = t_contracts (w_db w)" and "t_activities (w_db w') = t_activities (w_db w)"
    and "dbworld.more w' = dbworld.more w"
proof -
  obtain w1 where st: "db_stmt e ctx w = (Inr (), w1)"
    using assms by (auto simp: UpsertUserAdmin_def split: prod.splits sum.splits)
  note fr = db_stmtD [OF st]
  show "admin_of_user w' u =
      (if u = user then Some (COALESCE (admin_of_user w user) admin) else admin_of_user w u)"
    using assms st fr
    by (auto simp: UpsertUserAdmin_def admin_of_user_def set_user_admins_def
        user_admin_update.row_of_upsert split: option.split)
  show "registry_ok w \<Longrightarrow> registry_ok w'" and "t_transfers (w_db w') = t_transfers (w_db w)"
    and "t_contracts (w_db w') = t_contracts (w_db w)" and "t_activities (w_db w') = t_activities (w_db w)"
    and "dbworld.more w' = dbworld.more w"
    using assms st fr user_admin_update.distinct_upsert
    by (auto simp: UpsertUserAdmin_def registry_ok_def set_user_admins_def)
qed

lemma UpsertAdminContract_views:
  assumes "UpsertAdminContract e ctx admin kind hash w = (Inr (), w')"
  shows "contract_of w' a k = (if a = admin \<and> k = kind then Some hash else contract_of w a k)"
    and "registry_ok w \<Longrightarrow> registry_ok w'" and "t_transfers (w_db w') = t_transfers (w_db w)"
proof -
  obtain w1 where st: "db_stmt e ctx w = (Inr (), w1)"
    using assms by (auto simp: UpsertAdminContract_def split: prod.splits sum.splits)
  note fr = db_stmtD [OF st]
  have key: "contract_key \<lparr>ac_admin_did = admin, ac_kind = kind, ac_hash = hash, ac_deployed_at = t\<rparr> = (admin, kind)" for t
    by (simp add: contract_key_def)
  show "contract_of w' a k = (if a = admin \<and> k = kind then Some hash else contract_of w a k)"
    using assms st fr
    by (auto simp: UpsertAdminContract_def contract_of_def set_contracts_def
        contract_update.row_of_upsert key split: option.split)
  show "registry_ok w \<Longrightarrow> registry_ok w'" and "t_transfers (w_db w') = t_transfers (w_db w)"
    using assms st fr contract_update.distinct_upsert
    by (auto simp: UpsertAdminContract_def registry_ok_def set_contracts_def)
qed

lemma CreateActivity_cases:
  assumes "CreateActivity e ctx a w = (r, w')"
  obtains (fail) err where "r = Inl err" "w_db w' = w_db w" "w_now w \<le> w_now w'"
      "w_fresh w' = w_fresh w" "dbworld.more w' = dbworld.more w"
  | (applied) "r = Inr ()" "in_int32 (av_reward_points a)" "w_now w \<le> w_now w'"
      "\<And>x y. activity_of w' x y =
        (if x = av_admin_did a \<and> y = av_activity_id a
         then Some (a\<lparr>av_created_at :=
           (case activity_of w x y of None \<Rightarrow> pg_time (w_now w) | Some old \<Rightarrow> av_created_at old)\<rparr>)
         else activity_of w x y)"
      "registry_ok w \<Longrightarrow> registry_ok w'" "t_transfers (w_db w') = t_transfers (w_db w)"
      "w_fresh w' = w_fresh w" "dbworld.more w' = dbworld.more w"
proof -
  obtain q w1 where st: "db_stmt e ctx w = (q, w1)" by fastforce
  note fr = db_stmtD [OF st]
  show ?thesis
  proof (cases "(\<exists>u. q = Inr u) \<and> in_int32 (av_reward_points a)")
    case True
    with st assms have r: "r = Inr ()" and w': "w' = set_activities
        (upsert activity_key
           (\<lambda>r. r\<lparr>vr_reward_points := av_reward_points a, vr_description := Some (av_description a),
                   vr_transaction_id := NULLIF_empty (av_transaction_id a)\<rparr>)
           \<lparr>vr_admin_did = av_admin_did a, vr_activity_id = av_activity_id a,
            vr_reward_points = av_reward_points a, vr_description = Some (av_description a),
            vr_transaction_id = NULLIF_empty (av_transaction_id a),
            vr_created_at = pg_time (w_now w)\<rparr> (t_activities (w_db w))) w1"
      using fr(1) by (auto simp: CreateActivity_def)
    have key: "activity_key \<lparr>vr_admin_did = av_admin_did a, vr_activity_id = av_activity_id a,
            vr_reward_points = p, vr_description = d, vr_transaction_id = t, vr_created_at = c\<rparr>
          = (av_admin_did a, av_activity_id a)" for p d t c
      by (simp add: activity_key_def)
    have row: "activity_key r = (x, y) \<Longrightarrow> vr_admin_did r = x \<and> vr_activity_id r = y" for r x y
      by (simp add: activity_key_def)
    have view: "activity_of w' x y =
        (if x = av_admin_did a \<and> y = av_activity_id a
         then Some (a\<lparr>av_created_at :=
           (case activity_of w x y of None \<Rightarrow> pg_time (w_now w) | Some old \<Rightarrow> av_created_at old)\<rparr>)
         else activity_of w x y)" for x y
      by (auto simp: w' activity_of_def set_activities_def activity_update.row_of_upsert key
          scan_activity_def dest!: row_of_SomeD row split: option.split)
    have "registry_ok w \<Longrightarrow> registry_ok w'" "t_transfers (w_db w') = t_transfers (w_db w)"
      "w_fresh w' = w_fresh w" "dbworld.more w' = dbworld.more w" "w_now w \<le> w_now w'"
      using fr activity_update.distinct_upsert by (auto simp: w' registry_ok_def set_activities_def)
    with True r view applied show ?thesis by blast
  next
    case False
    with st assms have "\<exists>err. r = Inl err" "w' = w1"
      by (auto simp: CreateActivity_def split: sum.splits if_splits)
    with fr fail show ?thesis by auto
  qed
qed

text \<open>A repeated activity id is paid once, an unknown one contributes nothing.\<close>

lemma activities_for_set: "set ids = set ids' \<Longrightarrow> activities_for admin ids rows = activities_for admin ids' rows"
  by (simp add: activities_for_def)

lemma sum_filter_key:
  fixes f :: "'r \<Rightarrow> int"
  assumes "distinct (map key rows)" and "distinct ks"
  shows "sum_list (map f (filter (\<lambda>r. key r \<in> set ks) rows)) =
    sum_list (map (\<lambda>k. case row_of key k rows of None \<Rightarrow> 0 | Some r \<Rightarrow> f r) ks)"
  using assms(1)
proof (induction rows)
  case Nil
  then show ?case by (induction ks) auto
next
  case (Cons r rows)
  let ?g = "\<lambda>k. case row_of key k rows of None \<Rightarrow> 0 | Some r \<Rightarrow> f r"
  have none: "row_of key (key r) rows = None"
    using Cons.prems by (auto simp: row_of_None_iff)
  have "sum_list (map (\<lambda>k. case row_of key k (r # rows) of None \<Rightarrow> 0 | Some r \<Rightarrow> f r) ks) =
      sum_list (map (\<lambda>k. (if k = key r then f r else 0) + ?g k) ks)"
    by (rule arg_cong [where f = sum_list], rule map_cong) (auto simp: none)
  also have "\<dots> = sum_list (map (\<lambda>k. if k = key r then f r else 0) ks) + sum_list (map ?g ks)"
    by (simp add: sum_list_addf)
  also have "sum_list (map (\<lambda>k. if k = key r then f r else 0) ks) = (if key r \<in> set ks then f r else 0)"
    using assms(2) by (simp add: sum_list_distinct_conv_sum_set)
  finally show ?case using Cons by simp
qed

lemma points_for_once:
  assumes "registry_ok w"
  shows "points_for w admin ids =
    sum_list (map (\<lambda>aid. case activity_of w admin aid of None \<Rightarrow> 0 | Some a \<Rightarrow> av_reward_points a)
      (remdups ids))"
proof -
  let ?rows = "t_activities (w_db w)" and ?ks = "map (Pair admin) (remdups ids)"
  have "activities_for admin ids ?rows = filter (\<lambda>r. activity_key r \<in> set ?ks) ?rows"
    by (auto simp: activities_for_def activity_key_def intro!: filter_cong)
  moreover have "distinct ?ks" by (simp add: distinct_map inj_on_def)
  ultimately have "points_for w admin ids =
      sum_list (map (\<lambda>k. case row_of activity_key k ?rows of None \<Rightarrow> 0 | Some r \<Rightarrow> vr_reward_points r) ?ks)"
    using assms sum_filter_key [of activity_key ?rows ?ks vr_reward_points]
    by (simp add: points_for_def registry_ok_def)
  also have "\<dots> = sum_list (map (\<lambda>aid. case activity_of w admin aid of None \<Rightarrow> 0
      | Some a \<Rightarrow> av_reward_points a) (remdups ids))"
    by (auto simp: comp_def activity_of_def scan_activity_def intro!: arg_cong [where f = sum_list]
        split: option.split)
  finally show ?thesis .
qed

end
