(* ===== verification/Config.thy ===== *)
theory Config
  imports Registry
begin

text \<open>
  \<open>internal/config/config.go\<close>: the environment variables, the per-admin payout intervals they
  carry, and the in-memory map of admins that mirrors the \<open>admins\<close> table. The process
  environment (after \<open>godotenv.Load\<close>) is the argument \<open>getenv\<close>, \<open>''''\<close> for an unset variable;
  \<open>time.ParseDuration\<close>, which goes through floating point, is the argument \<open>parse_duration\<close>.
\<close>

section \<open>Operations\<close>

record EnvConfig =
  cfg_ServerPort :: string
  cfg_DBHost :: string
  cfg_DBPort :: string
  cfg_DBUser :: string
  cfg_DBPassword :: string
  cfg_DBName :: string
  cfg_DBSSLMode :: string
  cfg_FTName :: string
  cfg_RubixHTTPTimeoutSecond :: int
  cfg_QueueBufferSize :: int
  cfg_PayoutMinInterval :: duration
  cfg_PayoutMinIntervalOverrides :: "(string \<times> duration) list"
  cfg_JWTPrivateKeyPath :: string
  cfg_JWTPublicKeyPath :: string
  cfg_AccessTokenTTL :: duration
  cfg_RefreshTokenTTL :: duration
  cfg_BootstrapEmail :: string
  cfg_BootstrapPassword :: string

record AdminConfig =
  ac_did :: string
  ac_password :: string
  ac_node_port :: string

record AppConfig =
  app_env :: EnvConfig
  app_adminByDID :: "(string \<times> AdminConfig) list"

definition NodeHost :: string where
  "NodeHost = ''http://localhost''"

definition BaseURL :: "AdminConfig \<Rightarrow> string" where
  "BaseURL a = NodeHost @ '':'' @ ac_node_port a"

definition getEnv :: "(string \<Rightarrow> string) \<Rightarrow> string \<Rightarrow> string \<Rightarrow> string" where
  "getEnv getenv key def = (if getenv key \<noteq> '''' then getenv key else def)"

definition getEnvInt :: "(string \<Rightarrow> string) \<Rightarrow> string \<Rightarrow> int \<Rightarrow> int" where
  "getEnvInt getenv key def =
     (if getenv key \<noteq> '''' then (case Atoi (getenv key) of Some i \<Rightarrow> i | None \<Rightarrow> def) else def)"

definition getEnvDuration ::
    "(string \<Rightarrow> duration option) \<Rightarrow> (string \<Rightarrow> string) \<Rightarrow> string \<Rightarrow> duration \<Rightarrow> duration" where
  "getEnvDuration parse_duration getenv key def =
     (if getenv key \<noteq> '''' then (case parse_duration (getenv key) of Some d \<Rightarrow> d | None \<Rightarrow> def) else def)"

text \<open>The loop of \<open>parseIntervalOverrides\<close> over the comma-separated entries.\<close>

fun parse_entries ::
    "string list \<Rightarrow> (string \<times> duration) list \<Rightarrow> goerr + (string \<times> duration) list" where
  "parse_entries [] out = Inr out"
| "parse_entries (x # xs) out =
     (let entry = TrimSpace x in
      if entry = '''' then parse_entries xs out
      else
        let sep = LastIndexAny entry {CHR ''='', CHR '':''} in
        if sep \<le> 0 \<or> sep = int (length entry) - 1 then
          Inl (Plain (''entry '' @ Quote entry @ '' must be <admin_did>=<milliseconds>''))
        else
          let did = TrimSpace (take (nat sep) entry);
              bad = Inl (Plain (''entry '' @ Quote entry @ '': milliseconds must be a non-negative integer''))
          in case Atoi (TrimSpace (drop (nat sep + 1) entry)) of
               None \<Rightarrow> bad
             | Some ms \<Rightarrow>
                 if ms < 0 then bad
                 else parse_entries xs (AList.update did (wrap64 (ms * millisecond)) out))"

definition parseIntervalOverrides :: "string \<Rightarrow> goerr + (string \<times> duration) list" where
  "parseIntervalOverrides raw = parse_entries (Split (CHR '','') raw) []"

definition Load ::
    "(string \<Rightarrow> duration option) \<Rightarrow> (string \<Rightarrow> string) \<Rightarrow> goerr + AppConfig" where
  "Load parse_duration getenv =
     (let env =
       \<lparr>cfg_ServerPort = getEnv getenv ''SERVER_PORT'' ''9000'',
        cfg_DBHost = getEnv getenv ''DB_HOST'' ''localhost'',
        cfg_DBPort = getEnv getenv ''DB_PORT'' ''5432'',
        cfg_DBUser = getEnv getenv ''DB_USER'' ''postgres'',
        cfg_DBPassword = getEnv getenv ''DB_PASSWORD'' ''postgres'',
        cfg_DBName = getEnv getenv ''DB_NAME'' ''ymca_wellness_cafe_v2'',
        cfg_DBSSLMode = getEnv getenv ''DB_SSLMODE'' ''disable'',
        cfg_FTName = getEnv getenv ''FT_NAME'' ''ytoken'',
        cfg_RubixHTTPTimeoutSecond = getEnvInt getenv ''RUBIX_HTTP_TIMEOUT_SECONDS'' 120,
        cfg_QueueBufferSize = getEnvInt getenv ''QUEUE_BUFFER_SIZE'' 1000,
        cfg_PayoutMinInterval = wrap64 (getEnvInt getenv ''PAYOUT_MIN_INTERVAL_MS'' 1000 * millisecond),
        cfg_PayoutMinIntervalOverrides = [],
        cfg_JWTPrivateKeyPath = getEnv getenv ''JWT_PRIVATE_KEY_PATH'' ''./keys/jwt_private.pem'',
        cfg_JWTPublicKeyPath = getEnv getenv ''JWT_PUBLIC_KEY_PATH'' ''./keys/jwt_public.pem'',
        cfg_AccessTokenTTL = getEnvDuration parse_duration getenv ''ACCESS_TOKEN_TTL'' (15 * minute),
        cfg_RefreshTokenTTL = getEnvDuration parse_duration getenv ''REFRESH_TOKEN_TTL'' (7 * 24 * hour),
        cfg_BootstrapEmail = getEnv getenv ''BOOTSTRAP_EMAIL'' '''',
        cfg_BootstrapPassword = getEnv getenv ''BOOTSTRAP_PASSWORD'' ''''\<rparr>
      in case parseIntervalOverrides (getenv ''PAYOUT_MIN_INTERVAL_OVERRIDES'') of
           Inl err \<Rightarrow> Inl (wrap ''config: PAYOUT_MIN_INTERVAL_OVERRIDES: '' err)
         | Inr overrides \<Rightarrow>
             Inr \<lparr>app_env = env\<lparr>cfg_PayoutMinIntervalOverrides := overrides\<rparr>, app_adminByDID = []\<rparr>)"

record cfgworld = dbworld +
  w_cfg :: AppConfig

definition ReloadAdmins :: "env \<Rightarrow> ctx \<Rightarrow> 'z cfgworld_scheme \<Rightarrow> (goerr + unit) \<times> 'z cfgworld_scheme" where
  "ReloadAdmins e ctx w =
     (case ListAdmins e ctx w of
        (Inl err, w1) \<Rightarrow> (Inl (wrap ''config.ReloadAdmins: '' err), w1)
      | (Inr rows, w1) \<Rightarrow>
          (Inr (),
           w1\<lparr>w_cfg := (w_cfg w1)\<lparr>app_adminByDID :=
             fold (\<lambda>a m. AList.update (ad_did a)
                     \<lparr>ac_did = ad_did a, ac_password = ad_password a, ac_node_port = ad_node_port a\<rparr> m)
               rows []\<rparr>\<rparr>))"

definition AdminByDID :: "AppConfig \<Rightarrow> string \<Rightarrow> AdminConfig option" where
  "AdminByDID c did = map_of (app_adminByDID c) did"

definition AdminCount :: "AppConfig \<Rightarrow> int" where
  "AdminCount c = int (length (app_adminByDID c))"

definition DBDSN :: "AppConfig \<Rightarrow> string" where
  "DBDSN c =
     (let env = app_env c in
      ''host='' @ cfg_DBHost env @ '' port='' @ cfg_DBPort env @ '' user='' @ cfg_DBUser env
      @ '' password='' @ cfg_DBPassword env @ '' dbname='' @ cfg_DBName env
      @ '' sslmode='' @ cfg_DBSSLMode env)"

section \<open>The interval overrides\<close>

text \<open>
  What one non-blank entry contributes, read off the loop body: the admin, and the milliseconds
  before the conversion to nanoseconds.
\<close>

definition entry_value :: "string \<Rightarrow> (string \<times> int) option" where
  "entry_value x =
     (let entry = TrimSpace x; sep = LastIndexAny entry {CHR ''='', CHR '':''} in
      if sep \<le> 0 \<or> sep = int (length entry) - 1 then None
      else case Atoi (TrimSpace (drop (nat sep + 1) entry)) of
             None \<Rightarrow> None
           | Some ms \<Rightarrow> if ms < 0 then None else Some (TrimSpace (take (nat sep) entry), ms))"

lemma parse_entries_blank: "TrimSpace x = '''' \<Longrightarrow> parse_entries (x # xs) out = parse_entries xs out"
  by simp

lemma parse_entries_bad:
  "TrimSpace x \<noteq> '''' \<Longrightarrow> entry_value x = None \<Longrightarrow> \<exists>err. parse_entries (x # xs) out = Inl err"
  by (auto simp: entry_value_def Let_def split: option.splits if_splits)

lemma parse_entries_good:
  "TrimSpace x \<noteq> '''' \<Longrightarrow> entry_value x = Some (did, ms) \<Longrightarrow>
     parse_entries (x # xs) out = parse_entries xs (AList.update did (wrap64 (ms * millisecond)) out)"
  by (auto simp: entry_value_def Let_def split: option.splits if_splits)

declare parse_entries.simps(2) [simp del]

text \<open>
  The loop succeeds exactly when every non-blank entry is well formed, and then the map is the
  fold of the entries, the last one for an admin winning.
\<close>

lemma parse_entries_iff:
  "(case parse_entries xs out of
      Inl _ \<Rightarrow> \<exists>x \<in> set xs. TrimSpace x \<noteq> '''' \<and> entry_value x = None
    | Inr m \<Rightarrow>
        (\<forall>x \<in> set xs. TrimSpace x \<noteq> '''' \<longrightarrow> entry_value x \<noteq> None) \<and>
        m = fold (\<lambda>p m. AList.update (fst p) (wrap64 (snd p * millisecond)) m)
              (map (the \<circ> entry_value) (filter (\<lambda>x. TrimSpace x \<noteq> '''') xs)) out)"
proof (induction xs arbitrary: out)
  case Nil
  then show ?case by simp
next
  case (Cons x xs)
  consider (blank) "TrimSpace x = ''''" | (bad) "TrimSpace x \<noteq> ''''" "entry_value x = None"
    | (good) did ms where "TrimSpace x \<noteq> ''''" "entry_value x = Some (did, ms)"
    by (cases "entry_value x") auto
  then show ?case
  proof cases
    case blank
    with Cons [of out] show ?thesis by (auto simp: parse_entries_blank split: sum.splits)
  next
    case bad
    then obtain err where "parse_entries (x # xs) out = Inl err" using parse_entries_bad by blast
    with bad show ?thesis by auto
  next
    case good
    with Cons [of "AList.update did (wrap64 (ms * millisecond)) out"] show ?thesis
      by (auto simp: parse_entries_good split: sum.splits)
  qed
qed

lemma entry_value_pair:
  assumes "did \<noteq> ''''" and "\<And>c. c \<in> set did \<Longrightarrow> graphic c" and "0 \<le> ms" and "in_int64 ms"
  shows "entry_value (did @ CHR ''='' # Itoa ms) = Some (did, ms)" and "TrimSpace (did @ CHR ''='' # Itoa ms) \<noteq> ''''"
proof -
  let ?e = "did @ CHR ''='' # Itoa ms"
  have it: "Itoa ms = nat_digits (nat ms)" using assms(3) by (simp add: Itoa_def)
  have dig: "is_digit c" if "c \<in> set (Itoa ms)" for c
    using that by (simp add: it nat_digits_all)
  then have gd: "graphic c" if "c \<in> set (Itoa ms)" for c
    using that by (force simp: is_digit_def graphic_def)
  have ne: "Itoa ms \<noteq> ''''" by (simp add: it)
  have tr: "TrimSpace ?e = ?e"
    using assms(1,2) gd ne by (intro TrimSpace_graphic_ends) (auto simp: hd_append)
  have "c \<noteq> CHR ''=''" "c \<noteq> CHR '':''" if "is_digit c" for c
    using that by (auto simp: is_digit_def byte_def)
  with dig have "LastIndexAny ?e {CHR ''='', CHR '':''} = int (length did)"
    by (intro LastIndexAny_append) auto
  moreover have "TrimSpace did = did"
    using assms(1,2) by (intro TrimSpace_graphic_ends) auto
  moreover have "TrimSpace (Itoa ms) = Itoa ms"
    using gd ne by (intro TrimSpace_graphic_ends) auto
  ultimately show "entry_value ?e = Some (did, ms)"
    using assms ne by (simp add: entry_value_def Let_def tr Atoi_Itoa)
  show "TrimSpace ?e \<noteq> ''''" by (simp add: tr)
qed

section \<open>The admin map\<close>

lemma ListAdmins_rows:
  assumes "ListAdmins e ctx w = (Inr rows, w')"
  shows "set rows = set (t_admins (w_db w))" and "mset rows = mset (t_admins (w_db w))"
    and "w_db w' = w_db w" and "dbworld.more w' = dbworld.more w" and "w_fresh w' = w_fresh w"
  using assms by (auto simp: ListAdmins_def dest!: db_stmt_frame split: prod.splits sum.splits)

lemma ReloadAdmins_view:
  assumes "ReloadAdmins e ctx w = (Inr (), w')" and "registry_ok w"
  shows "AdminByDID (w_cfg w') did =
      map_option (\<lambda>a. \<lparr>ac_did = ad_did a, ac_password = ad_password a, ac_node_port = ad_node_port a\<rparr>)
        (row_of ad_did did (t_admins (w_db w)))"
    and "AdminCount (w_cfg w') = int (length (t_admins (w_db w)))"
    and "w_db w' = w_db w" and "app_env (w_cfg w') = app_env (w_cfg w)"
proof -
  let ?v = "\<lambda>a. \<lparr>ac_did = ad_did a, ac_password = ad_password a, ac_node_port = ad_node_port a\<rparr>"
  obtain rows w1 where st: "ListAdmins e ctx w = (Inr rows, w1)"
    using assms(1) by (auto simp: ReloadAdmins_def split: prod.splits sum.splits)
  note fr = ListAdmins_rows [OF st]
  have m: "app_adminByDID (w_cfg w') = fold (\<lambda>a m. AList.update (ad_did a) (?v a) m) rows []"
    and db: "w_db w' = w_db w1" and env: "app_env (w_cfg w') = app_env (w_cfg w1)"
    using assms(1) st by (auto simp: ReloadAdmins_def)
  have d0: "distinct (map ad_did (t_admins (w_db w)))" using assms(2) by (simp add: registry_ok_def)
  have dr: "distinct (map ad_did rows)"
    using d0 fr(2) by (metis distinct_count_atmost_1 mset_map set_mset_mset mset_eq_imp_distinct_iff)
  have "row_of ad_did did (rev rows) = row_of ad_did did (t_admins (w_db w))"
    using dr d0 fr(1) by (intro row_of_perm) (simp_all add: rev_map [symmetric])
  then show "AdminByDID (w_cfg w') did = map_option ?v (row_of ad_did did (t_admins (w_db w)))"
    by (simp add: AdminByDID_def m map_of_fold_update split: option.split)
  have "distinct (map fst (app_adminByDID (w_cfg w')))"
    by (simp add: m distinct_fold_update)
  then have "length (app_adminByDID (w_cfg w')) = card (fst ` set (app_adminByDID (w_cfg w')))"
    by (metis distinct_card length_map set_map)
  also have "\<dots> = card (ad_did ` set rows)"
    by (simp add: m keys_fold_update)
  also have "\<dots> = length rows" using dr by (metis distinct_card length_map set_map)
  also have "\<dots> = length (t_admins (w_db w))" using fr(2) by (metis size_mset)
  finally show "AdminCount (w_cfg w') = int (length (t_admins (w_db w)))" by (simp add: AdminCount_def)
  show "w_db w' = w_db w" using db fr(3) by simp
  have "w_cfg w1 = w_cfg w" using fr(4) by (metis cfgworld.select_convs(1) cfgworld.surjective
      dbworld.select_convs(5) dbworld.surjective)
  then show "app_env (w_cfg w') = app_env (w_cfg w)" using env by simp
qed

text \<open>With nothing set in the environment, the defaults.\<close>

lemma Load_plain:
  "Load (\<lambda>_. None) (\<lambda>_. '''') = Inr \<lparr>app_env =
      \<lparr>cfg_ServerPort = ''9000'', cfg_DBHost = ''localhost'', cfg_DBPort = ''5432'', cfg_DBUser = ''postgres'',
       cfg_DBPassword = ''postgres'', cfg_DBName = ''ymca_wellness_cafe_v2'', cfg_DBSSLMode = ''disable'',
       cfg_FTName = ''ytoken'', cfg_RubixHTTPTimeoutSecond = 120, cfg_QueueBufferSize = 1000,
       cfg_PayoutMinInterval = second, cfg_PayoutMinIntervalOverrides = [],
       cfg_JWTPrivateKeyPath = ''./keys/jwt_private.pem'', cfg_JWTPublicKeyPath = ''./keys/jwt_public.pem'',
       cfg_AccessTokenTTL = 15 * minute, cfg_RefreshTokenTTL = 7 * 24 * hour, cfg_BootstrapEmail = '''',
       cfg_BootstrapPassword = ''''\<rparr>, app_adminByDID = []\<rparr>"
proof -
  have "parseIntervalOverrides '''' = Inr []" by code_simp
  then show ?thesis
    by (simp add: Load_def Let_def getEnv_def getEnvInt_def getEnvDuration_def duration_defs in_int64_def)
qed

section \<open>Properties\<close>

text \<open>An override as an operator writes it, and a list of them.\<close>

definition print_entry :: "string \<times> int \<Rightarrow> string" where
  "print_entry p = fst p @ CHR ''='' # Itoa (snd p)"

lemma Itoa_no_comma: "0 \<le> n \<Longrightarrow> CHR '','' \<notin> set (Itoa n)"
  using nat_digits_all [of "CHR '',''" "nat n"] by (auto simp: Itoa_def is_digit_def byte_def)

lemma Split_Join:
  "xs \<noteq> [] \<Longrightarrow> (\<And>x. x \<in> set xs \<Longrightarrow> d \<notin> set x) \<Longrightarrow> Split d (Join d xs) = xs"
proof (induction xs rule: Join.induct)
  case (3 d p q ps)
  then show ?case by (simp add: Split_append_sep)
qed (simp_all add: Split_single)

text \<open>
  The overrides written as \<open>did=ms\<close> entries separated by commas are read back: each
  admin gets the last value given for it, in nanoseconds as a 64-bit duration.
\<close>

lemma overrides_roundtrip:
  assumes "ps \<noteq> []"
    and "\<And>p. p \<in> set ps \<Longrightarrow> fst p \<noteq> '''' \<and> (\<forall>c \<in> set (fst p). graphic c \<and> c \<noteq> CHR '','') \<and>
      0 \<le> snd p \<and> in_int64 (snd p)"
  shows "\<exists>m. parseIntervalOverrides (Join (CHR '','') (map print_entry ps)) = Inr m \<and>
    (\<forall>d. map_of m d = map_option (\<lambda>ms. wrap64 (ms * millisecond)) (map_of (rev ps) d))"
proof -
  let ?f = "\<lambda>p m. AList.update (fst p) (wrap64 (snd p * millisecond)) m"
  have ev: "entry_value (print_entry p) = Some p \<and> TrimSpace (print_entry p) \<noteq> ''''" if "p \<in> set ps" for p
    using entry_value_pair [of "fst p" "snd p"] assms(2) [OF that] by (simp add: print_entry_def)
  have "CHR '','' \<notin> set (print_entry p)" if "p \<in> set ps" for p
    using assms(2) [OF that] Itoa_no_comma [of "snd p"] by (auto simp: print_entry_def)
  then have sp: "Split (CHR '','') (Join (CHR '','') (map print_entry ps)) = map print_entry ps"
    using assms(1) by (intro Split_Join) auto
  have "parse_entries (map print_entry qs) out = Inr (fold ?f qs out)" if "set qs \<subseteq> set ps" for qs out
    using that
  proof (induction qs arbitrary: out)
    case (Cons p qs)
    then have "p \<in> set ps" by simp
    from Cons parse_entries_good [of "print_entry p" "fst p" "snd p"] ev [OF this] show ?case by simp
  qed simp
  from this [of ps "[]"] have "parseIntervalOverrides (Join (CHR '','') (map print_entry ps)) = Inr (fold ?f ps [])"
    by (simp add: parseIntervalOverrides_def sp)
  moreover have "map_of (fold ?f ps []) d = map_option (\<lambda>ms. wrap64 (ms * millisecond)) (map_of (rev ps) d)" for d
  proof -
    have "map_option snd (row_of fst d qs) = map_of qs d" for qs :: "(string \<times> int) list"
      by (induction qs) auto
    from this [of "rev ps", symmetric] show ?thesis
      by (simp add: map_of_fold_update option.map_comp comp_def split: option.split)
  qed
  ultimately show ?thesis by blast
qed


text \<open>
  After a reload the admins in memory are exactly the rows of the \<open>admins\<close> table, no
  stale entry is left, and the environment part of the configuration is untouched.
\<close>

lemma reload_admins_exact:
  assumes "ReloadAdmins e ctx w = (Inr (), w')" and "registry_ok w"
  shows "(\<forall>did. AdminByDID (w_cfg w') did =
      map_option (\<lambda>a. \<lparr>ac_did = ad_did a, ac_password = ad_password a, ac_node_port = ad_node_port a\<rparr>)
        (row_of ad_did did (t_admins (w_db w)))) \<and>
    AdminCount (w_cfg w') = int (length (t_admins (w_db w))) \<and> app_env (w_cfg w') = app_env (w_cfg w)"
  using ReloadAdmins_view [OF assms] by blast

definition one_admin :: cfgworld where
  "one_admin = dbworld.extend
     (set_admins [\<lparr>ad_did = ''A'', ad_node_port = ''1'', ad_password = ''p'', ad_created_at = 0\<rparr>] empty_world)
     (cfgworld.fields
       \<lparr>app_env = app_env (projr (Load (\<lambda>_. None) (\<lambda>_. ''''))), app_adminByDID = [(''Z'', \<lparr>ac_did = ''Z'', ac_password = '''', ac_node_port = ''''\<rparr>)]\<rparr>)"

lemma one_admin_rows [simp]:
  "t_admins (w_db one_admin) = [\<lparr>ad_did = ''A'', ad_node_port = ''1'', ad_password = ''p'', ad_created_at = 0\<rparr>]"
  "registry_ok one_admin"
  by (simp_all add: one_admin_def dbworld.defs set_admins_def registry_ok_def empty_world_def)

end
