(* ===== verification/JsonReader.thy ===== *)
theory JsonReader
  imports Json
begin

text \<open>
  How \<open>encoding/json\<close> reads a text: white space, strings with their escapes, the grammar of numbers,
  arrays and objects. The reader takes fuel, one unit for each value, element or member it enters;
  twice the length of the text and one more is enough (\<open>read_value_enough\<close>). Reading what \<open>json.Marshal\<close>
  wrote gives the value back, whatever bytes its strings hold (\<open>Unmarshal_text\<close>). The limit of 10000
  on nesting is left out.
\<close>

section \<open>Scanning\<close>

definition is_ws :: "char \<Rightarrow> bool" where
  "is_ws c \<longleftrightarrow> byte c \<in> {9, 10, 13, 32}"

definition skip_ws :: "string \<Rightarrow> string" where
  "skip_ws s = dropWhile is_ws s"

definition hex_val :: "char \<Rightarrow> nat option" where
  "hex_val c = (let b = byte c in
     if 48 \<le> b \<and> b \<le> 57 then Some (b - 48)
     else if 97 \<le> b \<and> b \<le> 102 then Some (b - 87)
     else if 65 \<le> b \<and> b \<le> 70 then Some (b - 55)
     else None)"

fun read_hex4 :: "string \<Rightarrow> (nat \<times> string) option" where
  "read_hex4 (a # b # c # d # s) =
     (case (hex_val a, hex_val b, hex_val c, hex_val d) of
        (Some a, Some b, Some c, Some d) \<Rightarrow> Some (((a * 16 + b) * 16 + c) * 16 + d, s)
      | _ \<Rightarrow> None)"
| "read_hex4 _ = None"

text \<open>UTF-8; a surrogate that is not the first half of a pair becomes the replacement character.\<close>

definition encode_rune :: "nat \<Rightarrow> string" where
  "encode_rune n =
     (if n < 0x80 then [char_of n]
      else if n < 0x800 then [char_of (0xC0 + n div 64), char_of (0x80 + n mod 64)]
      else if n < 0x10000 then
        [char_of (0xE0 + n div 4096), char_of (0x80 + n div 64 mod 64), char_of (0x80 + n mod 64)]
      else [char_of (0xF0 + n div 262144), char_of (0x80 + n div 4096 mod 64), char_of (0x80 + n div 64 mod 64),
        char_of (0x80 + n mod 64)])"

fun low_surrogate :: "string \<Rightarrow> (nat \<times> string) option" where
  "low_surrogate (a # b # s) =
     (if a = CHR 0x5C \<and> b = CHR ''u'' then
        (case read_hex4 s of
           Some (n, t) \<Rightarrow> if 0xDC00 \<le> n \<and> n < 0xE000 then Some (n, t) else None
         | None \<Rightarrow> None)
      else None)"
| "low_surrogate _ = None"

definition unicode_escape :: "string \<Rightarrow> (string \<times> string) option" where
  "unicode_escape s =
     (case read_hex4 s of
        None \<Rightarrow> None
      | Some (n, t) \<Rightarrow>
          if n < 0xD800 \<or> 0xE000 \<le> n then Some (encode_rune n, t)
          else case (if n < 0xDC00 then low_surrogate t else None) of
            Some (m, u) \<Rightarrow> Some (encode_rune (0x10000 + (n - 0xD800) * 1024 + (m - 0xDC00)), u)
          | None \<Rightarrow> Some (encode_rune 0xFFFD, t))"

definition simple_escape :: "char \<Rightarrow> char option" where
  "simple_escape c =
     (if c = CHR 0x22 \<or> c = CHR 0x5C \<or> c = CHR ''/'' then Some c
      else if c = CHR ''b'' then Some (char_of (8 :: nat))
      else if c = CHR ''f'' then Some (char_of (12 :: nat))
      else if c = CHR ''n'' then Some (char_of (10 :: nat))
      else if c = CHR ''r'' then Some (char_of (13 :: nat))
      else if c = CHR ''t'' then Some (char_of (9 :: nat))
      else None)"

lemma read_hex4_length: "read_hex4 s = Some (n, t) \<Longrightarrow> length t < length s"
  by (cases s rule: read_hex4.cases) (auto split: option.splits)

lemma low_surrogate_length: "low_surrogate s = Some (n, t) \<Longrightarrow> length t < length s"
  by (cases s rule: low_surrogate.cases) (auto dest: read_hex4_length split: option.splits if_splits)

lemma unicode_escape_length: "unicode_escape s = Some (x, t) \<Longrightarrow> length t < length s"
  by (auto simp: unicode_escape_def dest!: read_hex4_length low_surrogate_length split: option.splits if_splits)

text \<open>The rest of a string, after its opening quotation mark.\<close>

function read_string :: "string \<Rightarrow> (string \<times> string) option" where
  "read_string [] = None"
| "read_string (c # s) =
     (if c = CHR 0x22 then Some ([], s)
      else if c = CHR 0x5C then
        (case s of
           [] \<Rightarrow> None
         | e # r \<Rightarrow>
             if e = CHR ''u'' then
               (case unicode_escape r of
                  None \<Rightarrow> None
                | Some (x, t) \<Rightarrow> map_option (apfst ((@) x)) (read_string t))
             else
               (case simple_escape e of
                  None \<Rightarrow> None
                | Some x \<Rightarrow> map_option (apfst (Cons x)) (read_string r)))
      else if byte c < 32 then None
      else map_option (apfst (Cons c)) (read_string s))"
  by pat_completeness auto

termination
  by (relation "measure length") (auto dest: unicode_escape_length)

definition num_char :: "char \<Rightarrow> bool" where
  "num_char c \<longleftrightarrow> is_digit c \<or> c \<in> {CHR ''-'', CHR ''+'', CHR ''.'', CHR ''e'', CHR ''E''}"

text \<open>The grammar of numbers: sign, integer part without leading zeros, fraction, exponent.\<close>

definition digits1 :: "string \<Rightarrow> string option" where
  "digits1 s = (if takeWhile is_digit s = [] then None else Some (dropWhile is_digit s))"

fun int_part :: "string \<Rightarrow> string option" where
  "int_part [] = None"
| "int_part (c # s) = (if c = CHR ''0'' then Some s else digits1 (c # s))"

fun fraction :: "string \<Rightarrow> string option" where
  "fraction [] = Some []"
| "fraction (c # s) = (if c = CHR ''.'' then digits1 s else Some (c # s))"

fun sign_part :: "string \<Rightarrow> string" where
  "sign_part [] = []"
| "sign_part (c # s) = (if c = CHR ''-'' \<or> c = CHR ''+'' then s else c # s)"

fun exponent :: "string \<Rightarrow> string option" where
  "exponent [] = Some []"
| "exponent (c # s) = (if c = CHR ''e'' \<or> c = CHR ''E'' then digits1 (sign_part s) else Some (c # s))"

definition is_number :: "string \<Rightarrow> bool" where
  "is_number s =
     (let t = (case s of c # r \<Rightarrow> if c = CHR ''-'' then r else s | [] \<Rightarrow> [])
      in Option.bind (Option.bind (int_part t) fraction) exponent = Some [])"

definition read_number :: "string \<Rightarrow> (string \<times> string) option" where
  "read_number s =
     (let n = takeWhile num_char s in if is_number n then Some (n, dropWhile num_char s) else None)"

section \<open>Values\<close>

definition read_word :: "string \<Rightarrow> json \<Rightarrow> string \<Rightarrow> (json \<times> string) option" where
  "read_word k v s = (if HasPrefix s k then Some (v, drop (length k) s) else None)"

fun read_value :: "nat \<Rightarrow> string \<Rightarrow> (json \<times> string) option"
  and read_elems :: "nat \<Rightarrow> string \<Rightarrow> (json list \<times> string) option"
  and read_pairs :: "nat \<Rightarrow> string \<Rightarrow> ((string \<times> json) list \<times> string) option" where
  "read_value 0 s = None"
| "read_value (Suc n) s =
     (case skip_ws s of
        [] \<Rightarrow> None
      | c # r \<Rightarrow>
          if c = CHR ''{'' then
            (case skip_ws r of
               d # t \<Rightarrow> if d = CHR ''}'' then Some (JObj [], t) else map_option (apfst JObj) (read_pairs n r)
             | [] \<Rightarrow> None)
          else if c = CHR ''['' then
            (case skip_ws r of
               d # t \<Rightarrow> if d = CHR '']'' then Some (JArr [], t) else map_option (apfst JArr) (read_elems n r)
             | [] \<Rightarrow> None)
          else if c = CHR 0x22 then map_option (apfst JStr) (read_string r)
          else if c = CHR ''t'' then read_word ''true'' (JBool True) (c # r)
          else if c = CHR ''f'' then read_word ''false'' (JBool False) (c # r)
          else if c = CHR ''n'' then read_word ''null'' JNull (c # r)
          else map_option (apfst JNum) (read_number (c # r)))"
| "read_elems 0 s = None"
| "read_elems (Suc n) s =
     (case read_value n s of
        None \<Rightarrow> None
      | Some (v, r) \<Rightarrow>
          (case skip_ws r of
             [] \<Rightarrow> None
           | c # t \<Rightarrow>
               if c = CHR '','' then map_option (apfst (Cons v)) (read_elems n t)
               else if c = CHR '']'' then Some ([v], t)
               else None))"
| "read_pairs 0 s = None"
| "read_pairs (Suc n) s =
     (case skip_ws s of
        [] \<Rightarrow> None
      | q # r \<Rightarrow>
          if q \<noteq> CHR 0x22 then None
          else case read_string r of
            None \<Rightarrow> None
          | Some (k, r1) \<Rightarrow>
              (case skip_ws r1 of
                 [] \<Rightarrow> None
               | c # r2 \<Rightarrow>
                   if c \<noteq> CHR '':'' then None
                   else case read_value n r2 of
                     None \<Rightarrow> None
                   | Some (v, r3) \<Rightarrow>
                       (case skip_ws r3 of
                          [] \<Rightarrow> None
                        | d # t \<Rightarrow>
                            if d = CHR '','' then map_option (apfst (Cons (k, v))) (read_pairs n t)
                            else if d = CHR ''}'' then Some ([(k, v)], t)
                            else None)))"

text \<open>\<open>json.Unmarshal\<close>, as far as the value: one value, and nothing after it.\<close>

definition Unmarshal :: "string \<Rightarrow> json option" where
  "Unmarshal s =
     (case read_value (Suc (2 * length s)) s of
        Some (v, r) \<Rightarrow> if skip_ws r = [] then Some v else None
      | None \<Rightarrow> None)"

declare read_string.simps [simp del] read_value.simps(2) [simp del] read_elems.simps(2) [simp del] read_pairs.simps(2) [simp del]

section \<open>Enough fuel\<close>

lemma skip_ws_length: "length (skip_ws s) \<le> length s"
  by (simp add: skip_ws_def length_dropWhile_le)

lemma skip_ws_Cons: "skip_ws s = c # t \<Longrightarrow> length t < length s"
  using skip_ws_length [of s] by simp

lemma read_string_length: "read_string s = Some (x, t) \<Longrightarrow> length t < length s"
proof (induction s arbitrary: x t rule: read_string.induct)
  case (2 c s)
  then show ?case
    by (force simp: read_string.simps(2) [of c s] dest: unicode_escape_length split: if_splits list.splits option.splits)
qed (simp add: read_string.simps)

lemma is_number_nonempty: "is_number n \<Longrightarrow> n \<noteq> []"
  by (auto simp: is_number_def)

lemma read_number_length: "read_number s = Some (n, t) \<Longrightarrow> length t < length s"
proof -
  assume "read_number s = Some (n, t)"
  then have "n \<noteq> []" "n @ t = s" by (auto simp: read_number_def Let_def dest: is_number_nonempty split: if_splits)
  then show ?thesis by auto
qed

lemma read_word_length: "k \<noteq> [] \<Longrightarrow> s \<noteq> [] \<Longrightarrow> read_word k v s = Some (x, t) \<Longrightarrow> length t < length s"
  by (auto simp: read_word_def split: if_splits)

lemma read_lengths:
  "(\<forall>s v t. read_value n s = Some (v, t) \<longrightarrow> length t < length s) \<and>
   (\<forall>s vs t. read_elems n s = Some (vs, t) \<longrightarrow> length t < length s) \<and>
   (\<forall>s kvs t. read_pairs n s = Some (kvs, t) \<longrightarrow> length t < length s)"
proof (induction n)
  case (Suc n)
  have lens: "length t < length s" if "read_value n s = Some (v, t)" for s v t using Suc that by blast
  have lenes: "length t < length s" if "read_elems n s = Some (vs, t)" for s vs t using Suc that by blast
  have lenps: "length t < length s" if "read_pairs n s = Some (kvs, t)" for s kvs t using Suc that by blast
  have of_value: "length t < length s" if read: "read_value (Suc n) s = Some (v, t)" for s v t
  proof (cases "skip_ws s")
    case Nil
    with read show ?thesis by (simp add: read_value.simps(2))
  next
    case (Cons c r)
    note less = skip_ws_Cons [OF Cons]
    have "length t < length (c # r)"
      using read unfolding read_value.simps(2) Cons
      by (auto dest!: skip_ws_Cons lenes lenps read_string_length read_number_length read_word_length [rotated 2]
        split: list.splits if_splits)
    with less show ?thesis by simp
  qed
  have of_elems: "length t < length s" if "read_elems (Suc n) s = Some (vs, t)" for s vs t
    using that unfolding read_elems.simps(2) 
    by (auto dest!: skip_ws_Cons lens lenes split: list.splits option.splits if_splits)
  have of_pairs: "length t < length s" if "read_pairs (Suc n) s = Some (kvs, t)" for s kvs t
    using that unfolding read_pairs.simps(2) 
    by (auto dest!: skip_ws_Cons lens lenps read_string_length split: list.splits option.splits if_splits)
  from of_value of_elems of_pairs show ?case by blast
qed simp

lemmas read_value_length = read_lengths [THEN conjunct1, rule_format]
lemmas read_elems_length = read_lengths [THEN conjunct2, THEN conjunct1, rule_format]
lemmas read_pairs_length = read_lengths [THEN conjunct2, THEN conjunct2, rule_format]

text \<open>A unit of fuel more changes nothing once there is enough.\<close>

lemma read_more_fuel:
  "(\<forall>s. 2 * length s < n \<longrightarrow> read_value (Suc n) s = read_value n s) \<and>
   (\<forall>s. 2 * length s + 1 < n \<longrightarrow> read_elems (Suc n) s = read_elems n s) \<and>
   (\<forall>s. 2 * length s + 1 < n \<longrightarrow> read_pairs (Suc n) s = read_pairs n s)"
proof (induction n)
  case (Suc n)
  have v: "read_value (Suc n) s = read_value n s" if "2 * length s < n" for s using Suc that by blast
  have es: "read_elems (Suc n) s = read_elems n s" if "2 * length s + 1 < n" for s using Suc that by blast
  have ps: "read_pairs (Suc n) s = read_pairs n s" if "2 * length s + 1 < n" for s using Suc that by blast
  have of_value: "read_value (Suc (Suc n)) s = read_value (Suc n) s" if "2 * length s < Suc n" for s
  proof (cases "skip_ws s")
    case (Cons c r)
    with that skip_ws_Cons [OF Cons] have "2 * length r + 1 < n" by simp
    with es [of r] ps [of r] show ?thesis
      unfolding read_value.simps(2) [of "Suc n"] read_value.simps(2) [of n] Cons by (simp split: list.split)
  qed (simp add: read_value.simps(2))
  have of_elems: "read_elems (Suc (Suc n)) s = read_elems (Suc n) s" if "2 * length s + 1 < Suc n" for s
  proof -
    have "read_elems (Suc n) t = read_elems n t" if "read_value n s = Some (x, r)" "skip_ws r = c # t" for x r c t
      by (rule es) (use read_value_length [OF that(1)] skip_ws_Cons [OF that(2)] \<open>2 * length s + 1 < Suc n\<close> in simp)
    with v [of s] that show ?thesis
      unfolding read_elems.simps(2) [of "Suc n"] read_elems.simps(2) [of n] by (simp split: option.split list.split)
  qed
  have of_pairs: "read_pairs (Suc (Suc n)) s = read_pairs (Suc n) s" if "2 * length s + 1 < Suc n" for s
  proof -
    have "read_value (Suc n) r2 = read_value n r2"
      if "skip_ws s = q # r" "read_string r = Some (k, r1)" "skip_ws r1 = c # r2" for q r k r1 c r2
      by (rule v) (use skip_ws_Cons [OF that(1)] read_string_length [OF that(2)] skip_ws_Cons [OF that(3)]
        \<open>2 * length s + 1 < Suc n\<close> in simp)
    moreover have "read_pairs (Suc n) t = read_pairs n t"
      if "skip_ws s = q # r" "read_string r = Some (k, r1)" "skip_ws r1 = c # r2" "read_value n r2 = Some (x, r3)"
        "skip_ws r3 = d # t" for q r k r1 c r2 x r3 d t
      by (rule ps) (use skip_ws_Cons [OF that(1)] read_string_length [OF that(2)] skip_ws_Cons [OF that(3)]
        read_value_length [OF that(4)] skip_ws_Cons [OF that(5)] \<open>2 * length s + 1 < Suc n\<close> in simp)
    ultimately show ?thesis
      unfolding read_pairs.simps(2) [of "Suc n"] read_pairs.simps(2) [of n] by (simp split: option.split list.split)
  qed
  from of_value of_elems of_pairs show ?case by blast
qed simp

lemma read_value_enough:
  assumes "2 * length s < n"
  shows "read_value n s = read_value (Suc (2 * length s)) s"
  using assms
proof (induction n)
  case (Suc n)
  then show ?case using read_more_fuel [of n] by (cases "2 * length s = n") auto
qed simp

section \<open>Round trip\<close>

lemma hex_val_lower: "n < 16 \<Longrightarrow> hex_val (hex_lower n) = Some n"
proof -
  assume "n < 16"
  then have "byte (hex_lower n) = (if n < 10 then 48 + n else 87 + n)" by (simp add: byte_def hex_lower_def)
  with \<open>n < 16\<close> show ?thesis by (simp add: hex_val_def Let_def)
qed

lemma char_byte [simp]: "char_of (byte c) = c"
  by (simp add: byte_def)

lemma byte_eqI: "byte c = byte d \<Longrightarrow> c = d"
  by (metis char_byte)

lemma char_named: "byte c = n \<Longrightarrow> c = char_of n"
  by (metis char_byte)

lemma read_unicode_escape:
  assumes "byte c < 128"
  shows "unicode_escape (CHR ''0'' # CHR ''0'' # hex_lower (byte c div 16) # hex_lower (byte c mod 16) # t) = Some ([c], t)"
proof -
  have "hex_val CHR ''0'' = Some 0" by (simp add: hex_val_def byte_def)
  with assms have "read_hex4 (CHR ''0'' # CHR ''0'' # hex_lower (byte c div 16) # hex_lower (byte c mod 16) # t) = Some (byte c, t)"
    by (simp add: hex_val_lower)
  moreover have "encode_rune (byte c) = [c]" using assms by (simp add: encode_rune_def)
  ultimately show ?thesis using assms by (simp add: unicode_escape_def)
qed

lemma read_escape_byte: "read_string (escape_byte c @ t) = map_option (apfst (Cons c)) (read_string t)"
proof -
  consider "byte c = 34 \<or> byte c = 92" | "byte c \<in> {8, 9, 10, 12, 13}"
    | "byte c \<notin> {8, 9, 10, 12, 13, 34, 92}" "byte c < 32 \<or> byte c = 60 \<or> byte c = 62 \<or> byte c = 38"
    | "byte c \<notin> {8, 9, 10, 12, 13, 34, 92}" "\<not> (byte c < 32 \<or> byte c = 60 \<or> byte c = 62 \<or> byte c = 38)" by auto
  then show ?thesis
  proof cases
    case 1
    moreover have "char_of (34 :: nat) = CHR 0x22" "char_of (92 :: nat) = CHR 0x5C" by code_simp+
    ultimately have "c = CHR 0x22 \<or> c = CHR 0x5C" using char_named [of c 34] char_named [of c 92] by metis
    then show ?thesis by (auto simp: escape_byte_def byte_def read_string.simps(2) simple_escape_def)
  next
    case 2
    have "read_string (escape_byte c @ t) = map_option (apfst (Cons c)) (read_string t)"
      if "byte c = n" "n \<in> {8, 9, 10, 12, 13}" for n
      using that(2) char_named [OF that(1)] that(1)
      by (elim insertE emptyE) (simp_all add: escape_byte_def read_string.simps(2) simple_escape_def)
    with 2 show ?thesis by blast
  next
    case 3
    then have "escape_byte c = CHR 0x5C # CHR ''u'' # CHR ''0'' # CHR ''0'' # [hex_lower (byte c div 16), hex_lower (byte c mod 16)]"
      by (simp add: escape_byte_def Let_def)
    moreover have "byte c < 128" using 3 by auto
    moreover have "(@) [c] = Cons c" by auto
    ultimately show ?thesis by (simp add: read_string.simps read_unicode_escape)
  next
    case 4
    then have "c \<noteq> CHR 0x22" "c \<noteq> CHR 0x5C" by (auto simp: byte_def)
    with 4 show ?thesis by (simp add: escape_byte_def read_string.simps(2) [of c])
  qed
qed

lemma read_line_separator:
  assumes "byte a = 0xE2" and "byte b = 0x80" and "byte c = 0xA8 \<or> byte c = 0xA9"
  shows "unicode_escape (''202'' @ hex_lower (byte c - 0xA0) # t) = Some ([a, b, c], t)"
proof -
  have n: "byte c - 0xA0 < 16" using assms(3) by auto
  have h: "hex_val CHR ''2'' = Some 2" "hex_val CHR ''0'' = Some 0" by (simp_all add: hex_val_def byte_def)
  have "read_hex4 (''202'' @ hex_lower (byte c - 0xA0) # t) = Some (0x2020 + (byte c - 0xA0), t)"
    using n by (simp add: h hex_val_lower)
  moreover have "encode_rune (0x2020 + (byte c - 0xA0)) = [a, b, c]"
  proof -
    have "char_of (0xE2 :: nat) = a" "char_of (0x80 :: nat) = b"
      using char_named [OF assms(1)] char_named [OF assms(2)] by simp_all
    with assms(3) show ?thesis by (auto simp: encode_rune_def dest: char_named)
  qed
  ultimately show ?thesis using n by (simp add: unicode_escape_def)
qed

lemma read_string_escape: "read_string (json_escape s @ CHR 0x22 # r) = Some (s, r)"
proof (induction s rule: length_induct)
  case (1 s)
  then have IH: "read_string (json_escape t @ CHR 0x22 # r) = Some (t, r)" if "length t < length s" for t
    using that by blast
  show ?case
  proof (cases s)
    case Nil
    then show ?thesis by (simp add: read_string.simps)
  next
    case (Cons a u)
    show ?thesis
    proof (cases "\<exists>b c t. u = b # c # t \<and> byte a = 0xE2 \<and> byte b = 0x80 \<and> (byte c = 0xA8 \<or> byte c = 0xA9)")
      case True
      then obtain b c t where u: "u = b # c # t" "byte a = 0xE2" "byte b = 0x80" "byte c = 0xA8 \<or> byte c = 0xA9" by blast
      have "json_escape s @ CHR 0x22 # r =
          CHR 0x5C # CHR ''u'' # (''202'' @ hex_lower (byte c - 0xA0) # (json_escape t @ CHR 0x22 # r))"
        using u Cons by (simp add: json_escape.simps(2))
      then show ?thesis
        using read_line_separator [OF u(2-4)] IH [of t] u(1) Cons by (simp add: read_string.simps(2))
    next
      case False
      then have "json_escape (a # u) = escape_byte a @ json_escape u"
        by (subst json_escape.simps(2)) (auto split: list.split)
      then show ?thesis using IH [of u] Cons by (simp add: read_escape_byte)
    qed
  qed
qed

text \<open>Numbers: the grammar takes number characters only.\<close>

lemma digits1_split: "digits1 s = Some t \<Longrightarrow> \<exists>p. s = p @ t \<and> (\<forall>c \<in> set p. num_char c)"
  by (rule exI [of _ "takeWhile is_digit s"]) (auto simp: digits1_def num_char_def dest: set_takeWhileD split: if_splits)

lemma int_part_split: "int_part s = Some t \<Longrightarrow> \<exists>p. s = p @ t \<and> (\<forall>c \<in> set p. num_char c)"
proof (cases s)
  case (Cons c u)
  moreover assume "int_part s = Some t"
  ultimately show ?thesis
    using digits1_split [of "c # u" t]
    by (cases "c = CHR ''0''") (auto intro: exI [of _ "''0''"] simp: num_char_def is_digit_def byte_def)
qed simp

lemma fraction_split: "fraction s = Some t \<Longrightarrow> \<exists>p. s = p @ t \<and> (\<forall>c \<in> set p. num_char c)"
proof (cases s)
  case (Cons c u)
  moreover assume "fraction s = Some t"
  ultimately show ?thesis
    using digits1_split [of u t]
    by (cases "c = CHR ''.''") (auto simp: num_char_def intro: exI [of _ "CHR ''.'' # _"])
qed simp

lemma exponent_split: "exponent s = Some t \<Longrightarrow> \<exists>p. s = p @ t \<and> (\<forall>c \<in> set p. num_char c)"
proof (cases s)
  case (Cons c u)
  moreover assume "exponent s = Some t"
  moreover have "\<exists>q. u = q @ sign_part u \<and> (\<forall>c \<in> set q. num_char c)"
    by (cases u rule: sign_part.cases) (auto simp: num_char_def intro: exI [of _ "[_]"] exI [of _ "[]"])
  then obtain q where "u = q @ sign_part u" "\<forall>c \<in> set q. num_char c" by blast
  ultimately show ?thesis
    using digits1_split [of "sign_part u" t]
    by (cases "c = CHR ''e'' \<or> c = CHR ''E''") (auto simp: num_char_def intro: exI [of _ "c # q @ _"])
qed simp

lemma is_number_chars: "is_number s \<Longrightarrow> \<forall>c \<in> set s. num_char c"
proof -
  assume n: "is_number s"
  let ?t = "case s of c # r \<Rightarrow> if c = CHR ''-'' then r else s | [] \<Rightarrow> []"
  from n obtain u v where p: "int_part ?t = Some u" "fraction u = Some v" "exponent v = Some []"
    by (auto simp: is_number_def Let_def bind_eq_Some_conv)
  have "\<forall>c \<in> set ?t. num_char c"
    using int_part_split [OF p(1)] fraction_split [OF p(2)] exponent_split [OF p(3)] by fastforce
  then show ?thesis by (cases s) (auto simp: num_char_def split: if_splits)
qed

lemma read_number_text:
  assumes "is_number n" and "r = [] \<or> \<not> num_char (hd r)"
  shows "read_number (n @ r) = Some (n, r)"
proof -
  have "takeWhile num_char r = []" "dropWhile num_char r = r" using assms(2) by (cases r; simp)+
  with is_number_chars [OF assms(1)] assms(1) show ?thesis
    by (simp add: read_number_def takeWhile_append2 dropWhile_append2)
qed

lemma is_number_Itoa [simp]: "is_number (Itoa n)"
proof -
  have *: "int_part (nat_digits k) = Some []" for k
  proof (cases "k = 0")
    case True
    moreover have "nat_digits 0 = ''0''" by code_simp
    ultimately show ?thesis by simp
  next
    case False
    have "k \<noteq> 0 \<Longrightarrow> hd (nat_digits k) \<noteq> CHR ''0''"
    proof (induction k rule: nat_digits.induct)
      case (1 k)
      have "byte CHR ''0'' = 48" by (simp add: byte_def)
      then have "digit_char k \<noteq> CHR ''0''" if "k < 10" "0 < k" using byte_digit_char [OF that(1)] that(2) by auto
      with 1 show ?case by (simp add: nat_digits.simps [of k])
    qed
    moreover obtain c s where "nat_digits k = c # s" by (cases "nat_digits k") simp_all
    moreover have "\<forall>c \<in> set (nat_digits k). is_digit c" using nat_digits_all by blast
    ultimately show ?thesis using False by (simp add: digits1_def)
  qed
  have "Option.bind (Option.bind (int_part (nat_digits k)) fraction) exponent = Some []" for k by (simp add: *)
  moreover have "(case nat_digits k of c # r \<Rightarrow> if c = CHR ''-'' then r else nat_digits k | [] \<Rightarrow> []) = nat_digits k" for k
    using nat_digits_head [of k] by (simp split: list.split)
  ultimately show ?thesis by (simp add: is_number_def Itoa_def)
qed

section \<open>Round trip of values\<close>

text \<open>A value with well-formed numbers.\<close>

fun json_ok :: "json \<Rightarrow> bool" where
  "json_ok (JNum n) = is_number n"
| "json_ok (JArr xs) = list_all json_ok xs"
| "json_ok (JObj kvs) = list_all (\<lambda>(k, v). json_ok v) kvs"
| "json_ok _ = True"

lemma json_string_append: "json_string s @ r = CHR 0x22 # json_escape s @ CHR 0x22 # r"
  by (simp add: json_string_def)

lemma number_head:
  assumes "is_number n"
  obtains c t where "n = c # t" "num_char c"
  using is_number_nonempty [OF assms] is_number_chars [OF assms] by (cases n) auto

lemma num_char_not:
  "num_char c \<Longrightarrow> \<not> is_ws c \<and> c \<notin> {CHR ''{'', CHR ''['', CHR '']'', CHR ''}'', CHR 0x22, CHR ''t'', CHR ''f'', CHR ''n'', CHR '','', CHR '':''}"
  by (auto simp: num_char_def is_digit_def is_ws_def byte_def)

text \<open>What follows a value in a text: nothing, or a character no number goes on with.\<close>

definition ends :: "string \<Rightarrow> bool" where
  "ends r \<longleftrightarrow> r = [] \<or> \<not> num_char (hd r)"

lemma text_head:
  assumes "json_ok v"
  obtains c t where "json_text v = c # t" "\<not> is_ws c" "c \<noteq> CHR '']''"
proof (cases v)
  case (JNum n)
  with assms have "is_number n" by simp
  then obtain c t where "n = c # t" "num_char c" by (rule number_head)
  with JNum num_char_not [of c] show ?thesis by (intro that [of c t]) simp_all
next
  case (JBool b)
  then show ?thesis using that by (cases b) (simp_all add: is_ws_def byte_def)
qed (use that in \<open>simp_all add: json_string_def is_ws_def byte_def\<close>)

lemma skip_ws_text [simp]: "json_ok v \<Longrightarrow> skip_ws (json_text v @ r) = json_text v @ r"
  by (erule text_head) (simp add: skip_ws_def)

lemma skip_ws_stop: "\<not> is_ws c \<Longrightarrow> skip_ws (c # s) = c # s"
  by (simp add: skip_ws_def)

lemma punctuation [simp]:
  "\<not> is_ws CHR '',''" "\<not> is_ws CHR '']''" "\<not> is_ws CHR ''}''" "\<not> is_ws CHR '':''" "\<not> is_ws CHR ''{''" "\<not> is_ws CHR ''[''"
  "\<not> is_ws CHR 0x22" "ends (CHR '','' # s)" "ends (CHR '']'' # s)" "ends (CHR ''}'' # s)" "ends []"
  by (simp_all add: is_ws_def ends_def num_char_def is_digit_def byte_def)

lemma read_word_text: "read_word k v (k @ r) = Some (v, r)"
  by (simp add: read_word_def)

definition reads_text :: "json \<Rightarrow> bool" where
  "reads_text v \<longleftrightarrow> (\<forall>n r. 2 * length (json_text v @ r) < n \<longrightarrow> ends r \<longrightarrow> read_value n (json_text v @ r) = Some (v, r))"

lemma read_elems_text:
  assumes "xs \<noteq> []" and "\<forall>x \<in> set xs. json_ok x \<and> reads_text x"
    and "2 * length (Join (CHR '','') (map json_text xs) @ CHR '']'' # r) + 1 < n"
  shows "read_elems n (Join (CHR '','') (map json_text xs) @ CHR '']'' # r) = Some (xs, r)"
  using assms
proof (induction xs arbitrary: n)
  case (Cons x xs)
  then obtain m where n: "n = Suc m" by (cases n) auto
  show ?case
  proof (cases "xs = []")
    case True
    then have "read_value m (json_text x @ CHR '']'' # r) = Some (x, CHR '']'' # r)"
      using Cons.prems(2,3) n by (simp add: reads_text_def)
    then show ?thesis using True by (simp add: n read_elems.simps(2) skip_ws_stop)
  next
    case False
    let ?rest = "Join (CHR '','') (map json_text xs) @ CHR '']'' # r"
    have e: "Join (CHR '','') (map json_text (x # xs)) @ CHR '']'' # r = json_text x @ CHR '','' # ?rest"
      using False by (simp add: Join_Cons)
    have len: "2 * length (json_text x @ CHR '','' # ?rest) < m" using Cons.prems(3) n e by simp
    then have "read_value m (json_text x @ CHR '','' # ?rest) = Some (x, CHR '','' # ?rest)"
      using Cons.prems(2) unfolding reads_text_def by simp
    moreover have "read_elems m ?rest = Some (xs, r)"
      by (rule Cons.IH [OF False]) (use Cons.prems(2) len in auto)
    ultimately show ?thesis unfolding e n read_elems.simps(2) by (simp add: skip_ws_stop)
  qed
qed simp

abbreviation member_text :: "string \<times> json \<Rightarrow> string" where
  "member_text \<equiv> \<lambda>(k, v). json_string k @ CHR '':'' # json_text v"

lemma read_pairs_text:
  assumes "kvs \<noteq> []" and "\<forall>kv \<in> set kvs. json_ok (snd kv) \<and> reads_text (snd kv)"
    and "2 * length (Join (CHR '','') (map member_text kvs) @ CHR ''}'' # r) + 1 < n"
  shows "read_pairs n (Join (CHR '','') (map member_text kvs) @ CHR ''}'' # r) = Some (kvs, r)"
  using assms
proof (induction kvs arbitrary: n)
  case (Cons kv kvs)
  obtain k v where kv: "kv = (k, v)" by fastforce
  from Cons.prems obtain m where n: "n = Suc m" by (cases n) auto
  have member: "read_pairs (Suc m) (member_text kv @ s) =
     (case skip_ws s of
        [] \<Rightarrow> None
      | d # t \<Rightarrow> if d = CHR '','' then map_option (apfst (Cons kv)) (read_pairs m t)
          else if d = CHR ''}'' then Some ([kv], t) else None)"
    if "2 * length (json_text v @ s) < m" "ends s" for s
  proof -
    have "read_value m (json_text v @ s) = Some (v, s)" using that Cons.prems(2) kv by (simp add: reads_text_def)
    then show ?thesis
      by (simp add: kv json_string_append read_pairs.simps(2) skip_ws_stop read_string_escape split: list.split)
  qed
  show ?case
  proof (cases "kvs = []")
    case True
    then show ?thesis using member [of "CHR ''}'' # r"] Cons.prems(3) by (simp add: n kv json_string_def skip_ws_stop)
  next
    case False
    let ?rest = "Join (CHR '','') (map member_text kvs) @ CHR ''}'' # r"
    have e: "Join (CHR '','') (map member_text (kv # kvs)) @ CHR ''}'' # r = member_text kv @ CHR '','' # ?rest"
      using False by (simp add: Join_Cons)
    have len: "2 * length (member_text kv @ CHR '','' # ?rest) < m" using Cons.prems(3) n e by simp
    then have "read_pairs m ?rest = Some (kvs, r)"
      by (intro Cons.IH [OF False]) (use Cons.prems(2) in auto)
    with len show ?thesis unfolding e n by (subst member) (simp_all add: kv skip_ws_stop)
  qed
qed simp

lemma reads_textI:
  assumes "\<And>n r. 2 * length (json_text v @ r) \<le> n \<Longrightarrow> ends r \<Longrightarrow> read_value (Suc n) (json_text v @ r) = Some (v, r)"
  shows "reads_text v"
  unfolding reads_text_def
proof (intro allI impI)
  fix n r
  assume "2 * length (json_text v @ r) < n" and "ends r"
  with assms [of r "n - 1"] show "read_value n (json_text v @ r) = Some (v, r)" by simp
qed

lemma reads_textD:
  "reads_text v \<Longrightarrow> 2 * length (json_text v @ r) < n \<Longrightarrow> ends r \<Longrightarrow> read_value n (json_text v @ r) = Some (v, r)"
  by (simp add: reads_text_def)

lemma reads_text: "json_ok v \<Longrightarrow> reads_text v"
proof (induction v)
  case JNull
  show ?case by (rule reads_textI) (simp add: read_value.simps(2) skip_ws_def is_ws_def byte_def read_word_def HasPrefix_def)
next
  case (JBool b)
  show ?case by (rule reads_textI) (simp add: read_value.simps(2) skip_ws_def is_ws_def byte_def read_word_def HasPrefix_def)
next
  case (JNum num)
  then have num: "is_number num" by simp
  then obtain c t where c: "num = c # t" "num_char c" by (rule number_head)
  show ?case
  proof (rule reads_textI)
    fix n r
    assume "ends r"
    then have "read_number (num @ r) = Some (num, r)" by (intro read_number_text num) (simp add: ends_def)
    with c num_char_not [OF c(2)] show "read_value (Suc n) (json_text (JNum num) @ r) = Some (JNum num, r)"
      by (simp add: read_value.simps(2) skip_ws_stop)
  qed
next
  case (JStr s)
  show ?case by (rule reads_textI) (simp add: read_value.simps(2) json_string_append skip_ws_stop read_string_escape)
next
  case (JArr xs)
  then have xs: "\<forall>x \<in> set xs. json_ok x \<and> reads_text x" by (simp add: list_all_iff)
  show ?case
  proof (cases "xs = []")
    case True
    then show ?thesis by (intro reads_textI) (simp add: read_value.simps(2) skip_ws_stop)
  next
    case False
    show ?thesis
    proof (rule reads_textI)
      fix n r
      let ?s = "Join (CHR '','') (map json_text xs) @ CHR '']'' # r"
      assume "2 * length (json_text (JArr xs) @ r) \<le> n"
      then have "read_elems n ?s = Some (xs, r)" by (intro read_elems_text [OF False xs]) simp
      moreover have "\<exists>c t. skip_ws ?s = c # t \<and> c \<noteq> CHR '']''"
      proof (cases xs)
        case (Cons x ys)
        with xs have "json_ok x" by simp
        then obtain c t where "json_text x = c # t" "\<not> is_ws c" "c \<noteq> CHR '']''" by (rule text_head)
        with Cons show ?thesis by (cases ys) (simp_all add: skip_ws_stop)
      qed (use False in simp)
      ultimately show "read_value (Suc n) (json_text (JArr xs) @ r) = Some (JArr xs, r)"
        by (auto simp: read_value.simps(2) skip_ws_stop)
    qed
  qed
next
  case (JObj kvs)
  then have kvs: "\<forall>kv \<in> set kvs. json_ok (snd kv) \<and> reads_text (snd kv)"
    by (fastforce simp: list_all_iff)
  show ?case
  proof (cases "kvs = []")
    case True
    then show ?thesis by (intro reads_textI) (simp add: read_value.simps(2) skip_ws_stop)
  next
    case False
    show ?thesis
    proof (rule reads_textI)
      fix n r
      let ?s = "Join (CHR '','') (map member_text kvs) @ CHR ''}'' # r"
      assume "2 * length (json_text (JObj kvs) @ r) \<le> n"
      then have "read_pairs n ?s = Some (kvs, r)" by (intro read_pairs_text [OF False kvs]) simp
      moreover have "\<exists>t. skip_ws ?s = CHR 0x22 # t"
      proof (cases kvs)
        case (Cons kv ys)
        then show ?thesis by (cases kv; cases ys) (simp_all add: json_string_def skip_ws_stop)
      qed (use False in simp)
      ultimately show "read_value (Suc n) (json_text (JObj kvs) @ r) = Some (JObj kvs, r)"
        by (auto simp: read_value.simps(2) skip_ws_stop)
    qed
  qed
qed

lemma Unmarshal_text: "json_ok v \<Longrightarrow> Unmarshal (json_text v) = Some v"
proof -
  assume "json_ok v"
  then have "read_value (Suc (2 * length (json_text v))) (json_text v @ []) = Some (v, [])"
    by (intro reads_textD reads_text) simp_all
  then show ?thesis by (simp add: Unmarshal_def skip_ws_def)
qed

lemma sort_key_set: "list_all P (sort_key f xs) = list_all P xs"
  by (simp add: list_all_iff)

lemma Unmarshal_Marshal_map:
  "list_all (\<lambda>(k, v). json_ok v) kvs \<Longrightarrow> Unmarshal (Marshal_map kvs) = Some (JObj (sort_key fst kvs))"
  unfolding Marshal_map_def by (rule Unmarshal_text) (simp add: sort_key_set)

end
