(* ===== verification/Rubix.thy ===== *)
theory Rubix
  imports Config JsonReader
begin

text \<open>
  \<open>internal/rubix\<close>: the HTTP client of a Rubix node. The node is outside the repository: its
  answers are \<open>env_http\<close>, a function of all requests sent so far, with the time each answer
  takes. The client appends every request it sends to \<open>w_sent\<close>. A reply carries the body as
  text, which the client reads with \<open>Unmarshal\<close>. A raw result is kept as the value read; where its text
  goes into a message, it is the compact text of that value.
\<close>

section \<open>The client\<close>

record BasicResponse =
  br_status :: bool
  br_message :: string
  br_result :: "json option"

record Client =
  cl_baseURL :: string
  cl_timeout :: duration

record networld = cfgworld +
  w_sent :: "http_request list"
  w_files :: "(string \<times> string) list"
  w_pool :: "(string \<times> Client) list"
  w_pool_timeout :: duration

type_synonym ('z, 'a) netaction = "'z networld_scheme \<Rightarrow> (goerr + 'a) \<times> 'z networld_scheme"

definition NewClient :: "string \<Rightarrow> duration \<Rightarrow> Client" where
  "NewClient base timeout =
     \<lparr>cl_baseURL = TrimRightByte (CHR ''/'') base,
      cl_timeout = (if timeout \<le> 0 then 120 * second else timeout)\<rparr>"

definition resolve :: "Client \<Rightarrow> string \<Rightarrow> (string \<times> string) list \<Rightarrow> string" where
  "resolve c path query =
     cl_baseURL c @ path @ (if query = [] then '''' else CHR ''?'' # EncodeQuery query)"

text \<open>How long one call may take: the client's timeout, cut by the context's deadline.\<close>

definition call_limit :: "ctx \<Rightarrow> Client \<Rightarrow> instant \<Rightarrow> duration" where
  "call_limit ctx c t = (case ctx of None \<Rightarrow> cl_timeout c | Some d \<Rightarrow> min (cl_timeout c) (d - t))"

text \<open>An empty body leaves the response zero; \<open>None\<close> is a body that does not decode.\<close>

definition decode_basic :: "string \<Rightarrow> BasicResponse option" where
  "decode_basic raw =
     (if raw = '''' then Some \<lparr>br_status = False, br_message = '''', br_result = None\<rparr>
      else case Option.bind (Unmarshal raw) members of
        None \<Rightarrow> None
      | Some kvs \<Rightarrow>
          (case (read_field read_bool ''status'' False kvs, read_field read_str ''message'' '''' kvs,
                 read_field read_raw ''result'' None kvs) of
             (Some s, Some m, Some r) \<Rightarrow> Some \<lparr>br_status = s, br_message = m, br_result = r\<rparr>
           | _ \<Rightarrow> None))"

text \<open>The text of an answer with a result, as the client reads it.\<close>

definition node_answer :: "json \<Rightarrow> string" where
  "node_answer r = json_text (JObj [(''status'', JBool True), (''result'', r)])"

lemma node_answer_read:
  assumes "json_ok r"
  shows "decode_basic (node_answer r) = Some \<lparr>br_status = True, br_message = '''', br_result = Some r\<rparr>"
proof -
  have "Unmarshal (node_answer r) = Some (JObj [(''status'', JBool True), (''result'', r)])"
    unfolding node_answer_def by (rule Unmarshal_text) (simp add: assms)
  moreover have "node_answer r \<noteq> ''''" by (simp add: node_answer_def)
  ultimately show ?thesis by (simp add: decode_basic_def fold_key_def fold_byte_def byte_def)
qed

definition do_request ::
    "env \<Rightarrow> ctx \<Rightarrow> Client \<Rightarrow> http_request \<Rightarrow> string \<Rightarrow> ('z, BasicResponse) netaction" where
  "do_request e ctx c req path w =
     (if ctx_expired ctx (w_now w) then
        (Inl (wrap (''rubix call '' @ path @ '': '') (Sentinel DeadlineExceeded)), w)
      else
        let hist = w_sent w @ [req];
            limit = call_limit ctx c (w_now w);
            lat = int (fst (env_http e hist));
            w1 = w\<lparr>w_now := w_now w + min lat limit, w_sent := hist\<rparr>
        in if limit \<le> lat then
             (Inl (wrap (''rubix call '' @ path @ '': '') (Sentinel DeadlineExceeded)), w1)
           else case snd (env_http e hist) of
             TransportFailure m \<Rightarrow> (Inl (wrap (''rubix call '' @ path @ '': '') (Plain m)), w1)
           | ReadFailure st m \<Rightarrow> (Inl (wrap (''rubix read '' @ path @ '': '') (Plain m)), w1)
           | Response st raw \<Rightarrow>
               (case decode_basic raw of
                  None \<Rightarrow>
                    (Inl (APIErr \<lparr>ae_endpoint = path, ae_http_status = st,
                                  ae_message = ''non-JSON response'', ae_body = raw\<rparr>), w1)
                | Some br \<Rightarrow>
                    if \<not> br_status br then
                      (Inl (APIErr \<lparr>ae_endpoint = path, ae_http_status = st,
                                    ae_message = br_message br, ae_body = raw\<rparr>), w1)
                    else (Inr br, w1)))"

definition postJSON ::
    "env \<Rightarrow> ctx \<Rightarrow> Client \<Rightarrow> string \<Rightarrow> json option \<Rightarrow> ('z, BasicResponse) netaction" where
  "postJSON e ctx c path body =
     do_request e ctx c
       \<lparr>rq_method = ''POST'', rq_url = resolve c path [],
        rq_body = (case body of None \<Rightarrow> NoBody | Some j \<Rightarrow> JsonBody j)\<rparr> path"

definition getJSON ::
    "env \<Rightarrow> ctx \<Rightarrow> Client \<Rightarrow> string \<Rightarrow> (string \<times> string) list \<Rightarrow> ('z, BasicResponse) netaction" where
  "getJSON e ctx c path query =
     do_request e ctx c
       \<lparr>rq_method = ''GET'', rq_url = resolve c path query, rq_body = NoBody\<rparr> path"

section \<open>Reading results\<close>

text \<open>\<open>json.Unmarshal\<close> of \<open>br.Result\<close> into a string, and into a struct of strings; an absent
  result is empty input, which does not decode.\<close>

definition unmarshal_string :: "json option \<Rightarrow> string option" where
  "unmarshal_string r = Option.bind r (read_str '''')"

definition unmarshal_strings :: "string list \<Rightarrow> json option \<Rightarrow> string list option" where
  "unmarshal_strings names r = Option.bind r (read_strings names)"

definition result_text :: "json option \<Rightarrow> string" where
  "result_text r = (case r of None \<Rightarrow> '''' | Some j \<Rightarrow> json_text j)"

definition bare_string :: "json option \<Rightarrow> string option" where
  "bare_string r = (case unmarshal_string r of Some s \<Rightarrow> if s \<noteq> '''' then Some s else None | None \<Rightarrow> None)"

text \<open>The request id of an asynchronous call: \<open>{id}\<close>, then \<open>{request_id}\<close>, then a bare string.\<close>

definition request_id_of :: "json option \<Rightarrow> string option" where
  "request_id_of r =
     (case unmarshal_strings [''id'', ''request_id''] r of
        Some [i, q] \<Rightarrow>
          if i \<noteq> '''' then Some i else if q \<noteq> '''' then Some q else bare_string r
      | _ \<Rightarrow> bare_string r)"

section \<open>Transactions and signatures\<close>

record FTInfo =
  ft_name :: string
  ft_number :: int
  ft_creator :: string

record NFTInfo =
  nft_id :: string
  nft_value :: int
  nft_data :: string

record SmartContractInfo =
  sc_id :: string
  sc_value :: int
  sc_data :: string

record TransactionTokenDetails =
  tt_rbt :: int
  tt_ft :: "FTInfo list"
  tt_nft :: "NFTInfo list"
  tt_sc :: "SmartContractInfo list"
  tt_transfer_nft :: bool

record TransactionRequest =
  tx_initiator :: string
  tx_owner :: string
  tx_tokens :: TransactionTokenDetails
  tx_memo :: string

text \<open>The bodies as \<open>encoding/json\<close> writes the structs: field order, \<open>omitempty\<close> honoured.\<close>

definition omit_if :: "bool \<Rightarrow> string \<Rightarrow> json \<Rightarrow> (string \<times> json) list" where
  "omit_if b k v = (if b then [] else [(k, v)])"

definition tokens_json :: "TransactionTokenDetails \<Rightarrow> json" where
  "tokens_json t = JObj
     (omit_if (tt_rbt t = 0) ''rbt'' (JInt (tt_rbt t)) @
      omit_if (tt_ft t = []) ''ft''
        (JArr (map (\<lambda>f. JObj [(''ftName'', JStr (ft_name f)), (''numberOfFts'', JInt (ft_number f)),
                              (''creatorDID'', JStr (ft_creator f))]) (tt_ft t))) @
      omit_if (tt_nft t = []) ''nft''
        (JArr (map (\<lambda>n. JObj [(''nftId'', JStr (nft_id n)), (''value'', JInt (nft_value n)),
                              (''data'', JStr (nft_data n))]) (tt_nft t))) @
      omit_if (tt_sc t = []) ''smartContract''
        (JArr (map (\<lambda>s. JObj [(''smartContractId'', JStr (sc_id s)), (''value'', JInt (sc_value s)),
                              (''data'', JStr (sc_data s))]) (tt_sc t))) @
      omit_if (\<not> tt_transfer_nft t) ''transferNftOwnership'' (JBool True))"

definition tx_json :: "TransactionRequest \<Rightarrow> json" where
  "tx_json t = JObj
     ([(''initiator'', JStr (tx_initiator t)), (''owner'', JStr (tx_owner t)),
       (''tokens'', tokens_json (tx_tokens t))] @
      omit_if (tx_memo t = '''') ''memo'' (JStr (tx_memo t)))"

definition PostTx :: "env \<Rightarrow> ctx \<Rightarrow> Client \<Rightarrow> TransactionRequest \<Rightarrow> ('z, string) netaction" where
  "PostTx e ctx c req w =
     (case postJSON e ctx c ''/rubix/v1/tx'' (Some (tx_json req)) w of
        (Inl err, w1) \<Rightarrow> (Inl err, w1)
      | (Inr br, w1) \<Rightarrow>
          (case request_id_of (br_result br) of
             Some i \<Rightarrow> (Inr i, w1)
           | None \<Rightarrow>
               (Inl (Plain (''rubix /rubix/v1/tx: could not extract request id from result: ''
                  @ truncate_body (result_text (br_result br)) 200)), w1)))"

record SignResult =
  sr_transaction_id :: string
  sr_message :: string
  sr_result :: "json option"

text \<open>\<open>Transaction\s+([0-9a-fA-F]{64})\b\<close>.\<close>

definition match_tx :: "string \<Rightarrow> string option" where
  "match_tx s =
     (if \<not> HasPrefix s ''Transaction'' then None
      else
        let t = drop 11 s; u = dropWhile re_space t; h = take 64 u; rest = drop 64 u in
        if t = u then None
        else if length h = 64 \<and> list_all is_hex h \<and> (rest = [] \<or> \<not> re_word (hd rest)) then Some h
        else None)"

definition txIDFromMessage :: "string \<Rightarrow> string option" where
  "txIDFromMessage msg = search match_tx msg"

definition sign_body :: "string \<Rightarrow> string \<Rightarrow> json" where
  "sign_body rid password = JObj [(''id'', JStr rid), (''mode'', JInt 0), (''password'', JStr password)]"

text \<open>The transaction id a signature response carries.\<close>

definition sign_tx_id :: "json option \<Rightarrow> string \<Rightarrow> string" where
  "sign_tx_id r msg =
     (case bare_string r of
        Some s \<Rightarrow> s
      | None \<Rightarrow>
          let t = (case unmarshal_strings [''tx_id'', ''transaction_id'', ''id''] r of
                     Some [x, y, z] \<Rightarrow> if y \<noteq> '''' then y else if x \<noteq> '''' then x else z
                   | _ \<Rightarrow> '''')
          in if t = '''' \<and> msg \<noteq> ''''
             then (case txIDFromMessage msg of Some h \<Rightarrow> h | None \<Rightarrow> '''')
             else t)"

definition Sign :: "env \<Rightarrow> ctx \<Rightarrow> Client \<Rightarrow> string \<Rightarrow> string \<Rightarrow> ('z, SignResult) netaction" where
  "Sign e ctx c rid password w =
     (case postJSON e ctx c ''/rubix/v1/signature'' (Some (sign_body rid password)) w of
        (Inl err, w1) \<Rightarrow> (Inl err, w1)
      | (Inr br, w1) \<Rightarrow>
          (Inr \<lparr>sr_transaction_id = sign_tx_id (br_result br) (br_message br),
                sr_message = br_message br, sr_result = br_result br\<rparr>, w1))"

section \<open>DIDs and tokens\<close>

record CreateDIDRequest =
  cd_password :: string
  cd_public_key :: string
  cd_private_key :: string
  cd_mnemonic :: string
  cd_child_path :: int

definition create_did_json :: "CreateDIDRequest \<Rightarrow> json" where
  "create_did_json r = JObj
     ([(''password'', JStr (cd_password r))] @
      omit_if (cd_public_key r = '''') ''public_key'' (JStr (cd_public_key r)) @
      omit_if (cd_private_key r = '''') ''private_key'' (JStr (cd_private_key r)) @
      omit_if (cd_mnemonic r = '''') ''mnemonic'' (JStr (cd_mnemonic r)) @
      omit_if (cd_child_path r = 0) ''childPath'' (JInt (cd_child_path r)))"

record CreateDIDResult =
  cr_did :: string
  cr_peer_id :: string

definition CreateDID :: "env \<Rightarrow> ctx \<Rightarrow> Client \<Rightarrow> CreateDIDRequest \<Rightarrow> ('z, CreateDIDResult) netaction" where
  "CreateDID e ctx c req w =
     (case postJSON e ctx c ''/rubix/v1/dids/create'' (Some (create_did_json req)) w of
        (Inl err, w1) \<Rightarrow> (Inl err, w1)
      | (Inr br, w1) \<Rightarrow>
          let bad = (Inl (Plain (''rubix CreateDID: could not decode result: ''
                       @ truncate_body (result_text (br_result br)) 200)), w1)
          in (case unmarshal_strings [''did'', ''peer_id''] (br_result br) of
                Some [d, p] \<Rightarrow> if d = '''' then bad else (Inr \<lparr>cr_did = d, cr_peer_id = p\<rparr>, w1)
              | _ \<Rightarrow> bad))"

definition RegisterDID :: "env \<Rightarrow> ctx \<Rightarrow> Client \<Rightarrow> string \<Rightarrow> ('z, string) netaction" where
  "RegisterDID e ctx c did w =
     (if did = '''' then (Inl (Plain ''rubix RegisterDID: did is required''), w)
      else case postJSON e ctx c (''/rubix/v1/dids/'' @ did @ ''/register'') None w of
        (Inl err, w1) \<Rightarrow> (Inl err, w1)
      | (Inr br, w1) \<Rightarrow>
          (case request_id_of (br_result br) of
             Some i \<Rightarrow> (Inr i, w1)
           | None \<Rightarrow>
               (Inl (Plain (''rubix RegisterDID: could not extract request id from result: ''
                  @ truncate_body (result_text (br_result br)) 200)), w1)))"

record MintFTRequest =
  mf_did :: string
  mf_ft_name :: string
  mf_ft_count :: int
  mf_token_count :: int
  mf_start_index :: int

definition MintFT :: "env \<Rightarrow> ctx \<Rightarrow> Client \<Rightarrow> MintFTRequest \<Rightarrow> ('z, string) netaction" where
  "MintFT e ctx c req w =
     (case postJSON e ctx c ''/rubix/v1/fts/mint''
        (Some (JObj [(''did'', JStr (mf_did req)), (''ft_name'', JStr (mf_ft_name req)),
          (''ft_count'', JInt (mf_ft_count req)), (''token_count'', JInt (mf_token_count req)),
          (''ft_num_start_index'', JInt (mf_start_index req))])) w of
        (Inl err, w1) \<Rightarrow> (Inl err, w1)
      | (Inr br, w1) \<Rightarrow>
          (case request_id_of (br_result br) of
             Some i \<Rightarrow> (Inr i, w1)
           | None \<Rightarrow>
               (Inl (Plain (''rubix MintFT: could not extract request id from result: ''
                  @ truncate_body (result_text (br_result br)) 200)), w1)))"

section \<open>Smart contracts\<close>

text \<open>\<open>os.Stat\<close> and the multipart upload, over the server's files.\<close>

definition GenerateSmartContract ::
    "env \<Rightarrow> ctx \<Rightarrow> Client \<Rightarrow> string \<Rightarrow> string \<Rightarrow> string \<Rightarrow> ('z, string) netaction" where
  "GenerateSmartContract e ctx c did wasmPath rsPath w =
     (case map_of (w_files w) wasmPath of
        None \<Rightarrow> (Inl (wrap ''rubix GenerateSmartContract: wasm not found: ''
                  (Plain (''stat '' @ wasmPath @ '': no such file or directory''))), w)
      | Some wasm \<Rightarrow>
          (case map_of (w_files w) rsPath of
             None \<Rightarrow> (Inl (wrap ''rubix GenerateSmartContract: rs not found: ''
                       (Plain (''stat '' @ rsPath @ '': no such file or directory''))), w)
           | Some rs \<Rightarrow>
               let path = ''/rubix/v1/smart_contracts/generate'' in
               (case do_request e ctx c
                   \<lparr>rq_method = ''POST'', rq_url = resolve c path [],
                    rq_body = FormBody [(''did'', did), (''binaryCodePath'', wasm), (''rawCodePath'', rs)]\<rparr>
                   path w of
                  (Inl err, w1) \<Rightarrow> (Inl err, w1)
                | (Inr br, w1) \<Rightarrow>
                    (case request_id_of (br_result br) of
                       Some i \<Rightarrow> (Inr i, w1)
                     | None \<Rightarrow>
                         (Inl (Plain
                            (''rubix GenerateSmartContract: could not extract request id from result: ''
                             @ truncate_body (result_text (br_result br)) 200)), w1)))))"

definition ContractTokenFromSignResult :: "SignResult \<Rightarrow> goerr + string" where
  "ContractTokenFromSignResult sr =
     (let r = sr_result sr;
          bad = Inl (Plain (''rubix: could not extract contract token from sign result: ''
                  @ truncate_body (result_text r) 200))
      in if r = None then Inl (Plain ''rubix: empty sign result'')
         else case bare_string r of
           Some s \<Rightarrow> Inr s
         | None \<Rightarrow>
             (case unmarshal_strings [''smart_contract_token'', ''smartContract'', ''hash'', ''id''] r of
                Some [a, b, h, i] \<Rightarrow>
                  if a \<noteq> '''' then Inr a else if b \<noteq> '''' then Inr b
                  else if h \<noteq> '''' then Inr h else if i \<noteq> '''' then Inr i else bad
              | _ \<Rightarrow> bad))"

definition SubscribeSmartContract :: "env \<Rightarrow> ctx \<Rightarrow> Client \<Rightarrow> string \<Rightarrow> ('z, unit) netaction" where
  "SubscribeSmartContract e ctx c contractID w =
     (case getJSON e ctx c ''/rubix/v1/smart_contracts/subscribe'' [(''smartContractToken'', contractID)] w of
        (Inl err, w1) \<Rightarrow> (Inl err, w1)
      | (Inr _, w1) \<Rightarrow> (Inr (), w1))"

record ChainEntry =
  ce_transaction_id :: string
  ce_initiator :: string
  ce_epoch :: int
  ce_data :: string

definition read_entry :: "json \<Rightarrow> ChainEntry option" where
  "read_entry j =
     (case members j of
        None \<Rightarrow> None
      | Some kvs \<Rightarrow>
          (case (read_field read_str ''transactionId'' '''' kvs, read_field read_str ''initiator'' '''' kvs,
                 read_field read_int ''epoch'' 0 kvs, read_field read_str ''data'' '''' kvs) of
             (Some t, Some i, Some ep, Some d) \<Rightarrow>
               Some \<lparr>ce_transaction_id = t, ce_initiator = i, ce_epoch = ep, ce_data = d\<rparr>
           | _ \<Rightarrow> None))"

text \<open>A slice of entries: \<open>None\<close> is Go's nil, which JSON writes as \<open>null\<close>.\<close>

type_synonym chain = "ChainEntry list option"

fun read_entries :: "chain \<Rightarrow> json \<Rightarrow> chain option" where
  "read_entries acc (JArr xs) = map_option Some (those (map read_entry xs))"
| "read_entries acc JNull = Some None"
| "read_entries acc _ = None"

text \<open>The two shapes of a chain: an array, or an object with a \<open>chain\<close> array.\<close>

definition decode_chain :: "json option \<Rightarrow> chain option" where
  "decode_chain r =
     (case r of
        None \<Rightarrow> Some None
      | Some j \<Rightarrow>
          (case read_entries None j of
             Some es \<Rightarrow> Some es
           | None \<Rightarrow> Option.bind (members j) (read_field read_entries ''chain'' None)))"

definition GetSmartContractChain ::
    "env \<Rightarrow> ctx \<Rightarrow> Client \<Rightarrow> string \<Rightarrow> ('z, chain) netaction" where
  "GetSmartContractChain e ctx c contractID w =
     (case getJSON e ctx c (''/rubix/v1/smart_contracts/'' @ PathEscape contractID @ ''/chain'') [] w of
        (Inl err, w1) \<Rightarrow> (Inl err, w1)
      | (Inr br, w1) \<Rightarrow>
          (case decode_chain (br_result br) of
             Some es \<Rightarrow> (Inr es, w1)
           | None \<Rightarrow>
               (Inl (Plain (''rubix GetSmartContractChain: could not decode result: ''
                  @ truncate_body (result_text (br_result br)) 200)), w1)))"

section \<open>The client pool\<close>

definition ForBaseURL :: "string \<Rightarrow> ('z, Client) netaction" where
  "ForBaseURL base w =
     (if base = '''' then (Inl (Plain ''rubix: empty base URL''), w)
      else case map_of (w_pool w) base of
        Some c \<Rightarrow> (Inr c, w)
      | None \<Rightarrow>
          let c = NewClient base (w_pool_timeout w) in
          (Inr c, w\<lparr>w_pool := AList.update base c (w_pool w)\<rparr>))"

section \<open>Lemmas\<close>

text \<open>
  A call to a node, or a read of the database, is \<open>quiet\<close>: it may take time, send requests and
  fill the pool, and leaves tables, configuration and files as they are.
\<close>

definition quiet :: "'z networld_scheme \<Rightarrow> 'z networld_scheme \<Rightarrow> bool" where
  "quiet w w' \<longleftrightarrow>
     w_db w' = w_db w \<and> w_fresh w' = w_fresh w \<and> w_cfg w' = w_cfg w \<and> w_files w' = w_files w \<and>
     w_pool_timeout w' = w_pool_timeout w \<and> w_now w \<le> w_now w' \<and> prefix (w_sent w) (w_sent w')"

lemma quiet_refl [simp, intro]: "quiet w w"
  by (simp add: quiet_def)

lemma quiet_trans [trans]: "quiet u v \<Longrightarrow> quiet v w \<Longrightarrow> quiet u w"
  by (auto simp: quiet_def intro: prefix_order.trans)

lemma quietD:
  assumes "quiet w w'"
  shows "w_db w' = w_db w" "w_fresh w' = w_fresh w" "w_cfg w' = w_cfg w" "w_files w' = w_files w"
    "w_now w \<le> w_now w'" "prefix (w_sent w) (w_sent w')" "w_pool_timeout w' = w_pool_timeout w"
  using assms by (simp_all add: quiet_def)

lemma more_fields:
  fixes w w1 :: "'z networld_scheme"
  assumes "dbworld.more w1 = dbworld.more w"
  shows "w_cfg w1 = w_cfg w \<and> w_sent w1 = w_sent w \<and> w_files w1 = w_files w \<and> w_pool w1 = w_pool w \<and>
    w_pool_timeout w1 = w_pool_timeout w"
  using assms by (cases w; cases w1; simp)

lemma db_stmt_quiet: "db_stmt e ctx w = (r, w1) \<Longrightarrow> quiet w (w1 :: 'z networld_scheme)"
  by (auto simp: quiet_def dest!: db_stmt_frame more_fields)

lemma do_request_quiet: "do_request e ctx c req path w = (r, w') \<Longrightarrow> 0 < cl_timeout c \<Longrightarrow> quiet w w'"
  by (auto simp: do_request_def quiet_def Let_def call_limit_def ctx_expired_def
      split: if_splits option.splits http_reply.splits)

text \<open>A request is sent at most once, and takes no longer than the client allows.\<close>

lemma do_request_sent:
  "do_request e ctx c req path w = (r, w') \<Longrightarrow> w_sent w' = w_sent w \<or> w_sent w' = w_sent w @ [req]"
  by (auto simp: do_request_def Let_def split: if_splits option.splits http_reply.splits)

lemma do_request_sent_ok:
  "do_request e ctx c req path w = (Inr br, w') \<Longrightarrow> w_sent w' = w_sent w @ [req]"
  by (auto simp: do_request_def Let_def split: if_splits option.splits http_reply.splits)

lemma do_request_time:
  "do_request e ctx c req path w = (r, w') \<Longrightarrow> 0 < cl_timeout c \<Longrightarrow>
     w_now w' \<le> w_now w + cl_timeout c \<and> (\<forall>d. ctx = Some d \<longrightarrow> w_now w' \<le> max (w_now w) d)"
  by (auto simp: do_request_def Let_def call_limit_def ctx_expired_def
      split: if_splits option.splits http_reply.splits)

lemma do_request_ok: "do_request e ctx c req path w = (Inr br, w') \<Longrightarrow> br_status br"
  by (auto simp: do_request_def Let_def split: if_splits option.splits http_reply.splits)

lemma do_request_error:
  "do_request e ctx c req path w = (Inl err, w') \<Longrightarrow> \<not> errors_Is err ErrNotFound \<and> \<not> isUniqueViolation err"
  by (auto simp: do_request_def Let_def split: if_splits option.splits http_reply.splits)

lemma bare_string_nonempty: "bare_string r = Some s \<Longrightarrow> s \<noteq> ''''"
  by (auto simp: bare_string_def split: option.splits if_splits)

lemma unmarshal_strings_length: "unmarshal_strings names r = Some vs \<Longrightarrow> length vs = length names"
  by (cases r) (auto simp: unmarshal_strings_def dest: read_strings_length)

lemma request_id_nonempty: "request_id_of r = Some i \<Longrightarrow> i \<noteq> ''''"
  by (auto simp: request_id_of_def dest: bare_string_nonempty split: option.splits list.splits if_splits)

lemma NewClient_timeout [simp]: "0 < cl_timeout (NewClient base t)"
  by (simp add: NewClient_def second_def)

text \<open>The pool hands out, for a base URL, the client \<open>New\<close> would build for it.\<close>

definition pool_ok :: "'z networld_scheme \<Rightarrow> bool" where
  "pool_ok w \<longleftrightarrow>
     (\<forall>base c. map_of (w_pool w) base = Some c \<longrightarrow> c = NewClient base (w_pool_timeout w))"

lemma ForBaseURL_ok:
  assumes "ForBaseURL base w = (r, w')" and "pool_ok w"
  shows "pool_ok w'" and "quiet w w'" and "w_now w' = w_now w" and "w_sent w' = w_sent w"
    and "r = (if base = '''' then Inl (Plain ''rubix: empty base URL'')
              else Inr (NewClient base (w_pool_timeout w)))"
  using assms
  by (auto simp: ForBaseURL_def pool_ok_def quiet_def Let_def update_conv' split: if_splits option.splits)

section \<open>Reading the transaction id out of a message\<close>

lemma HasPrefix_hd: "HasPrefix s (x # xs) \<Longrightarrow> \<exists>t. s = x # t"
  by (cases s) (auto simp: HasPrefix_def)

lemma match_tx_hex: "match_tx s = Some h \<Longrightarrow> length h = 64 \<and> list_all is_hex h"
  by (auto simp: match_tx_def Let_def split: if_splits)

lemma txIDFromMessage_hex:
  assumes "txIDFromMessage msg = Some h"
  shows "length h = 64 \<and> list_all is_hex h"
  using assms unfolding txIDFromMessage_def by (metis search_SomeE match_tx_hex)

lemma hex_not_space: "is_hex c \<Longrightarrow> \<not> re_space c"
  by (auto simp: is_hex_def is_hex_lower_def is_digit_def re_space_def)

lemma txIDFromMessage_success:
  assumes "length h = 64" and "list_all is_hex h"
  shows "txIDFromMessage (''Transaction '' @ h @ '' completed successfully'') = Some h"
proof -
  let ?t = "h @ '' completed successfully''"
  obtain c cs where h: "h = c # cs" using assms(1) by (cases h) auto
  have "\<not> re_space c" using assms(2) h by (simp add: hex_not_space)
  then have dw: "dropWhile re_space (CHR '' '' # ?t) = ?t"
    by (simp add: h) (simp add: re_space_def byte_def)
  have hd: "\<not> re_word (CHR '' '')" by (simp add: re_word_def is_alnum_def is_digit_def byte_def)
  have "match_tx (''Transaction '' @ ?t) = Some h"
    using assms dw hd by (simp add: match_tx_def HasPrefix_def)
  then show ?thesis by (simp add: txIDFromMessage_def search_here)
qed

section \<open>What each call sends and returns\<close>

definition tx_request :: "Client \<Rightarrow> TransactionRequest \<Rightarrow> http_request" where
  "tx_request c req =
     \<lparr>rq_method = ''POST'', rq_url = resolve c ''/rubix/v1/tx'' [], rq_body = JsonBody (tx_json req)\<rparr>"

definition sign_request :: "Client \<Rightarrow> string \<Rightarrow> string \<Rightarrow> http_request" where
  "sign_request c rid password =
     \<lparr>rq_method = ''POST'', rq_url = resolve c ''/rubix/v1/signature'' [],
      rq_body = JsonBody (sign_body rid password)\<rparr>"

lemma PostTx_quiet: "PostTx e ctx c req w = (r, w') \<Longrightarrow> 0 < cl_timeout c \<Longrightarrow> quiet w w'"
  by (auto simp: PostTx_def postJSON_def dest: do_request_quiet split: prod.splits sum.splits option.splits)

lemma PostTx_ok:
  "PostTx e ctx c req w = (Inr i, w') \<Longrightarrow> i \<noteq> '''' \<and> w_sent w' = w_sent w @ [tx_request c req]"
  by (auto simp: PostTx_def postJSON_def tx_request_def dest: do_request_sent_ok request_id_nonempty
      split: prod.splits sum.splits option.splits)

lemma PostTx_sent:
  "PostTx e ctx c req w = (r, w') \<Longrightarrow> w_sent w' = w_sent w \<or> w_sent w' = w_sent w @ [tx_request c req]"
  by (auto simp: PostTx_def postJSON_def tx_request_def dest: do_request_sent
      split: prod.splits sum.splits option.splits)

lemma PostTx_error:
  "PostTx e ctx c req w = (Inl err, w') \<Longrightarrow> \<not> errors_Is err ErrNotFound \<and> \<not> isUniqueViolation err"
  by (auto simp: PostTx_def postJSON_def dest: do_request_error split: prod.splits sum.splits option.splits)

lemma Sign_quiet: "Sign e ctx c i p w = (r, w') \<Longrightarrow> 0 < cl_timeout c \<Longrightarrow> quiet w w'"
  by (auto simp: Sign_def postJSON_def dest: do_request_quiet split: prod.splits sum.splits)

lemma Sign_ok: "Sign e ctx c i p w = (Inr sr, w') \<Longrightarrow> w_sent w' = w_sent w @ [sign_request c i p]"
  by (auto simp: Sign_def postJSON_def sign_request_def dest: do_request_sent_ok
      split: prod.splits sum.splits)

lemma Sign_sent:
  "Sign e ctx c i p w = (r, w') \<Longrightarrow> w_sent w' = w_sent w \<or> w_sent w' = w_sent w @ [sign_request c i p]"
  by (auto simp: Sign_def postJSON_def sign_request_def dest: do_request_sent split: prod.splits sum.splits)

lemma Sign_error:
  "Sign e ctx c i p w = (Inl err, w') \<Longrightarrow> \<not> errors_Is err ErrNotFound \<and> \<not> isUniqueViolation err"
  by (auto simp: Sign_def postJSON_def dest: do_request_error split: prod.splits sum.splits)

lemma CreateDID_quiet: "CreateDID e ctx c req w = (r, w') \<Longrightarrow> 0 < cl_timeout c \<Longrightarrow> quiet w w'"
  by (auto simp: CreateDID_def postJSON_def Let_def dest: do_request_quiet
      split: prod.splits sum.splits option.splits list.splits if_splits)

lemma CreateDID_ok: "CreateDID e ctx c req w = (Inr res, w') \<Longrightarrow> cr_did res \<noteq> ''''"
  by (auto simp: CreateDID_def Let_def split: prod.splits sum.splits option.splits list.splits if_splits)

lemma RegisterDID_quiet: "RegisterDID e ctx c did w = (r, w') \<Longrightarrow> 0 < cl_timeout c \<Longrightarrow> quiet w w'"
  by (auto simp: RegisterDID_def postJSON_def dest: do_request_quiet
      split: prod.splits sum.splits option.splits if_splits)

lemma MintFT_quiet: "MintFT e ctx c req w = (r, w') \<Longrightarrow> 0 < cl_timeout c \<Longrightarrow> quiet w w'"
  by (auto simp: MintFT_def postJSON_def dest: do_request_quiet
      split: prod.splits sum.splits option.splits)

lemma GenerateSmartContract_quiet:
  "GenerateSmartContract e ctx c did p q w = (r, w') \<Longrightarrow> 0 < cl_timeout c \<Longrightarrow> quiet w w'"
  by (auto simp: GenerateSmartContract_def Let_def dest: do_request_quiet
      split: prod.splits sum.splits option.splits)

lemma GenerateSmartContract_missing:
  assumes "map_of (w_files w) p = None \<or> map_of (w_files w) q = None"
  shows "\<exists>err. GenerateSmartContract e ctx c did p q w = (Inl err, w)"
  using assms by (auto simp: GenerateSmartContract_def split: option.splits)

lemma SubscribeSmartContract_quiet:
  "SubscribeSmartContract e ctx c h w = (r, w') \<Longrightarrow> 0 < cl_timeout c \<Longrightarrow> quiet w w'"
  by (auto simp: SubscribeSmartContract_def getJSON_def dest: do_request_quiet split: prod.splits sum.splits)

lemma GetSmartContractChain_quiet:
  "GetSmartContractChain e ctx c h w = (r, w') \<Longrightarrow> 0 < cl_timeout c \<Longrightarrow> quiet w w'"
  by (auto simp: GetSmartContractChain_def getJSON_def dest: do_request_quiet
      split: prod.splits sum.splits option.splits)

lemma GetSmartContractChain_error:
  "GetSmartContractChain e ctx c h w = (Inl err, w') \<Longrightarrow>
     \<not> errors_Is err ErrNotFound \<and> \<not> isUniqueViolation err"
  by (auto simp: GetSmartContractChain_def getJSON_def dest: do_request_error
      split: prod.splits sum.splits option.splits)

text \<open>The deployed contract's token is never empty, wherever in the result it was found.\<close>

lemma ContractTokenFromSignResult_ok: "ContractTokenFromSignResult sr = Inr t \<Longrightarrow> t \<noteq> ''''"
  by (auto simp: ContractTokenFromSignResult_def Let_def dest: bare_string_nonempty
      split: option.splits list.splits if_splits)

lemmas net_quiet = db_stmt_quiet PostTx_quiet Sign_quiet CreateDID_quiet RegisterDID_quiet MintFT_quiet
  GenerateSmartContract_quiet SubscribeSmartContract_quiet GetSmartContractChain_quiet

text \<open>A chain is read from both shapes a node answers with.\<close>

lemma decode_chain_wrapped:
  assumes "read_entries None (JArr xs) = Some es"
  shows "decode_chain (Some (JArr xs)) = Some es \<and> decode_chain (Some (JObj [(''chain'', JArr xs)])) = Some es"
  using assms by (auto simp: decode_chain_def)

section \<open>Properties\<close>


definition sample_net :: networld where
  "sample_net = dbworld.extend empty_world
     \<lparr>w_cfg = projr (Load (\<lambda>_. None) (\<lambda>_. '''')), w_sent = [], w_files = [], w_pool = [], w_pool_timeout = 9\<rparr>"

lemma sample_net_fields [simp]: "w_now sample_net = 7000" "w_sent sample_net = []"
  by (simp_all add: sample_net_def dbworld.defs empty_world_def)

definition sample_request :: http_request where
  "sample_request = \<lparr>rq_method = ''GET'', rq_url = ''/x'', rq_body = NoBody\<rparr>"




text \<open>
  When the node reports a transaction only in the sentence \<open>Transaction <64 hex
  digits> completed successfully\<close>, the id it names is the one the caller gets.
\<close>

lemma tx_id_from_message:
  assumes "length h = 64" and "list_all is_hex h"
  shows "sign_tx_id None (''Transaction '' @ h @ '' completed successfully'') = h"
proof -
  have "''Transaction '' @ h @ '' completed successfully'' \<noteq> ''''" by simp
  then show ?thesis
    using txIDFromMessage_success [OF assms]
    by (simp add: sign_tx_id_def bare_string_def unmarshal_string_def unmarshal_strings_def)
qed

end
