(* ===== verification/Service.thy ===== *)
theory Service
  imports Rubix
begin

text \<open>
  \<open>internal/service/service.go\<close>: the flows that combine the registries, the rubix client and the
  ledger. Each Go method is one definition that threads the world through its calls in the
  source's order. A method that returns partial values beside an error returns the error here:
  no caller reads them.
\<close>

section \<open>Operations\<close>

definition ClientFor :: "string \<Rightarrow> ('z, Client \<times> AdminConfig) netaction" where
  "ClientFor adminDID w =
     (case AdminByDID (w_cfg w) adminDID of
        None \<Rightarrow> (Inl (Plain (''unknown admin_did '' @ Quote adminDID)), w)
      | Some a \<Rightarrow>
          (case ForBaseURL (BaseURL a) w of
             (Inl err, w1) \<Rightarrow> (Inl (wrap (''rubix client for '' @ adminDID @ '': '') err), w1)
           | (Inr c, w1) \<Rightarrow> (Inr (c, a), w1)))"

definition CreateDIDWithPubKey :: "env \<Rightarrow> ctx \<Rightarrow> string \<Rightarrow> string \<Rightarrow> ('z, string) netaction" where
  "CreateDIDWithPubKey e ctx adminDID pubKey w =
     (if pubKey = '''' then (Inl (Plain ''public_key is required''), w)
      else case ClientFor adminDID w of
        (Inl err, w1) \<Rightarrow> (Inl err, w1)
      | (Inr (c, a), w1) \<Rightarrow>
          (case CreateDID e ctx c
              \<lparr>cd_password = ac_password a, cd_public_key = pubKey, cd_private_key = '''',
               cd_mnemonic = '''', cd_child_path = 0\<rparr> w1 of
             (Inl err, w2) \<Rightarrow> (Inl (wrap ''create DID: '' err), w2)
           | (Inr res, w2) \<Rightarrow>
               if cr_did res = '''' then (Inl (Plain ''create DID: node returned empty did''), w2)
               else (Inr (cr_did res), snd (UpsertUserAdmin e ctx (cr_did res) adminDID w2))))"

definition DeployContract ::
    "env \<Rightarrow> ctx \<Rightarrow> string \<Rightarrow> string \<Rightarrow> string \<Rightarrow> string \<Rightarrow> ('z, string) netaction" where
  "DeployContract e ctx adminDID kind wasmPath rsPath w =
     (if kind = '''' then (Inl (Plain ''kind is required''), w)
      else case ClientFor adminDID w of
        (Inl err, w1) \<Rightarrow> (Inl err, w1)
      | (Inr (c, a), w1) \<Rightarrow>
          (case GenerateSmartContract e ctx c adminDID wasmPath rsPath w1 of
             (Inl err, w2) \<Rightarrow> (Inl (wrap ''generate smart contract: '' err), w2)
           | (Inr reqID, w2) \<Rightarrow>
               (case Sign e ctx c reqID (ac_password a) w2 of
                  (Inl err, w3) \<Rightarrow> (Inl (wrap ''sign generate: '' err), w3)
                | (Inr sr, w3) \<Rightarrow>
                    (case ContractTokenFromSignResult sr of
                       Inl err \<Rightarrow> (Inl (wrap ''extract contract token: '' err), w3)
                     | Inr token \<Rightarrow>
                         let w4 = snd (SubscribeSmartContract e ctx c token w3) in
                         (case UpsertAdminContract e ctx adminDID kind token w4 of
                            (Inl err, w5) \<Rightarrow> (Inl (wrap ''persist admin contract: '' err), w5)
                          | (Inr _, w5) \<Rightarrow> (Inr token, w5))))))"

definition sc_leg :: "string \<Rightarrow> string \<Rightarrow> TransactionTokenDetails" where
  "sc_leg hash payload =
     \<lparr>tt_rbt = 0, tt_ft = [], tt_nft = [], tt_sc = [\<lparr>sc_id = hash, sc_value = 0, sc_data = payload\<rparr>],
      tt_transfer_nft = False\<rparr>"

definition execute_tx :: "string \<Rightarrow> string \<Rightarrow> string \<Rightarrow> TransactionRequest" where
  "execute_tx adminDID contractHash input =
     \<lparr>tx_initiator = adminDID, tx_owner = adminDID, tx_tokens = sc_leg contractHash input, tx_memo = ''''\<rparr>"

definition ExecuteContract :: "env \<Rightarrow> ctx \<Rightarrow> string \<Rightarrow> string \<Rightarrow> string \<Rightarrow> ('z, SignResult) netaction" where
  "ExecuteContract e ctx adminDID contractHash input w =
     (case ClientFor adminDID w of
        (Inl err, w1) \<Rightarrow> (Inl err, w1)
      | (Inr (c, a), w1) \<Rightarrow>
          (case PostTx e ctx c (execute_tx adminDID contractHash input) w1 of
             (Inl err, w2) \<Rightarrow> (Inl (wrap ''post tx: '' err), w2)
           | (Inr reqID, w2) \<Rightarrow>
               (case Sign e ctx c reqID (ac_password a) w2 of
                  (Inl err, w3) \<Rightarrow> (Inl (wrap ''sign: '' err), w3)
                | (Inr sr, w3) \<Rightarrow> (Inr sr, w3))))"

definition GetContractChain ::
    "env \<Rightarrow> ctx \<Rightarrow> string \<Rightarrow> string \<Rightarrow> ('z, string \<times> chain) netaction" where
  "GetContractChain e ctx adminDID kind w =
     (case GetAdminContract e ctx adminDID kind w of
        (Inl err, w1) \<Rightarrow> (Inl (wrap ''lookup contract: '' err), w1)
      | (Inr hash, w1) \<Rightarrow>
          (case ClientFor adminDID w1 of
             (Inl err, w2) \<Rightarrow> (Inl err, w2)
           | (Inr (c, _), w2) \<Rightarrow>
               (case GetSmartContractChain e ctx c hash w2 of
                  (Inl err, w3) \<Rightarrow> (Inl (wrap ''get chain: '' err), w3)
                | (Inr chain, w3) \<Rightarrow> (Inr (hash, chain), w3))))"

definition GetContractChainByHash ::
    "env \<Rightarrow> ctx \<Rightarrow> string \<Rightarrow> ('z, string \<times> chain) netaction" where
  "GetContractChainByHash e ctx contractHash w =
     (case GetAdminDIDByContract e ctx contractHash w of
        (Inl err, w1) \<Rightarrow> (Inl (wrap (''resolve admin for contract '' @ contractHash @ '': '') err), w1)
      | (Inr adminDID, w1) \<Rightarrow>
          (case ClientFor adminDID w1 of
             (Inl err, w2) \<Rightarrow> (Inl err, w2)
           | (Inr (c, _), w2) \<Rightarrow>
               (case GetSmartContractChain e ctx c contractHash w2 of
                  (Inl err, w3) \<Rightarrow> (Inl (wrap ''get chain: '' err), w3)
                | (Inr chain, w3) \<Rightarrow> (Inr (adminDID, chain), w3))))"

definition activity_payload :: "string \<Rightarrow> int \<Rightarrow> string \<Rightarrow> string" where
  "activity_payload activityID rewardPoints description =
     Marshal_map [(''action'', JStr ''add_activity''), (''activity_id'', JStr activityID),
       (''reward_points'', JInt rewardPoints), (''description'', JStr description)]"

definition AddActivity ::
    "env \<Rightarrow> ctx \<Rightarrow> string \<Rightarrow> string \<Rightarrow> int \<Rightarrow> string \<Rightarrow> ('z, SignResult \<times> string) netaction" where
  "AddActivity e ctx adminDID activityID rewardPoints description w =
     (if activityID = '''' then (Inl (Plain ''activity_id is required''), w)
      else if rewardPoints < 0 then (Inl (Plain ''reward_points must be >= 0''), w)
      else case GetAdminContract e ctx adminDID KindAddActivity w of
        (Inl err, w1) \<Rightarrow> (Inl (wrap ''admin has no add_activity contract: '' err), w1)
      | (Inr contractHash, w1) \<Rightarrow>
          (case ExecuteContract e ctx adminDID contractHash
              (activity_payload activityID rewardPoints description) w1 of
             (Inl err, w2) \<Rightarrow> (Inl err, w2)
           | (Inr sr, w2) \<Rightarrow>
               (case CreateActivity e ctx
                   \<lparr>av_admin_did = adminDID, av_activity_id = activityID, av_reward_points = rewardPoints,
                    av_description = description, av_transaction_id = sr_transaction_id sr,
                    av_created_at = 0\<rparr> w2 of
                  (Inl err, w3) \<Rightarrow> (Inl (wrap ''persist activity: '' err), w3)
                | (Inr _, w3) \<Rightarrow> (Inr (sr, contractHash), w3))))"

definition isPlausibleDID :: "string \<Rightarrow> bool" where
  "isPlausibleDID did \<longleftrightarrow>
     (if length did < 20 then False else HasPrefix did ''bafyb'' \<or> HasPrefix did ''Qm'')"

definition admin_payload :: "string \<Rightarrow> string" where
  "admin_payload newAdminDID =
     Marshal_map [(''action'', JStr ''add_admin''), (''new_admin_did'', JStr newAdminDID)]"

definition AddAdmin :: "env \<Rightarrow> ctx \<Rightarrow> string \<Rightarrow> string \<Rightarrow> ('z, SignResult \<times> string) netaction" where
  "AddAdmin e ctx existingAdminDID newAdminDID w =
     (if \<not> isPlausibleDID newAdminDID then
        (Inl (Plain (''new_admin_did '' @ Quote newAdminDID @ '' does not look like a valid Rubix DID'')), w)
      else case GetAdminContract e ctx existingAdminDID KindAddAdmin w of
        (Inl err, w1) \<Rightarrow> (Inl (wrap ''existing admin has no add_admin contract: '' err), w1)
      | (Inr contractHash, w1) \<Rightarrow>
          (case ExecuteContract e ctx existingAdminDID contractHash (admin_payload newAdminDID) w1 of
             (Inl err, w2) \<Rightarrow> (Inl err, w2)
           | (Inr sr, w2) \<Rightarrow> (Inr (sr, contractHash), w2)))"

record TransferRewardInput =
  ti_admin_did :: string
  ti_user_did :: string
  ti_activity_ids :: "string list"

record TransferRewardResult =
  rr_transaction_id :: string
  rr_contract_hash :: string
  rr_reward_points :: int
  rr_message :: string

fun blank_id_at :: "nat \<Rightarrow> string list \<Rightarrow> nat option" where
  "blank_id_at i [] = None"
| "blank_id_at i (x # xs) = (if TrimSpace x = '''' then Some i else blank_id_at (Suc i) xs)"

definition ValidateTransferReward :: "AppConfig \<Rightarrow> TransferRewardInput \<Rightarrow> goerr option" where
  "ValidateTransferReward cfg i =
     (if \<not> isPlausibleDID (ti_admin_did i) then
        Some (Plain (''admin_did '' @ Quote (ti_admin_did i) @ '' does not look valid''))
      else if \<not> isPlausibleDID (ti_user_did i) then
        Some (Plain (''user_did '' @ Quote (ti_user_did i) @ '' does not look valid''))
      else if AdminByDID cfg (ti_admin_did i) = None then
        Some (Plain (''admin_did '' @ Quote (ti_admin_did i) @ '' is not registered in config''))
      else if ti_activity_ids i = [] then Some (Plain ''activity_id must be a non-empty array'')
      else case blank_id_at 0 (ti_activity_ids i) of
        Some n \<Rightarrow> Some (Plain (''activity_id['' @ Itoa (int n) @ ''] is empty''))
      | None \<Rightarrow> None)"

definition transfer_payload :: "TransferRewardInput \<Rightarrow> int \<Rightarrow> string" where
  "transfer_payload i points =
     Marshal_map [(''action'', JStr ''transfer''), (''user_did'', JStr (ti_user_did i)),
       (''activity_ids'', JArr (map JStr (ti_activity_ids i))), (''reward_points'', JInt points)]"

definition transfer_tx :: "TransferRewardInput \<Rightarrow> string \<Rightarrow> int \<Rightarrow> TransactionRequest" where
  "transfer_tx i contractHash points =
     \<lparr>tx_initiator = ti_admin_did i, tx_owner = ti_user_did i,
      tx_tokens = sc_leg contractHash (transfer_payload i points),
      tx_memo = ''reward to '' @ ti_user_did i @ '' (activities='' @ Itoa (int (length (ti_activity_ids i)))
        @ '' points='' @ Itoa points @ '')''\<rparr>"

definition ProcessTransferReward ::
    "env \<Rightarrow> ctx \<Rightarrow> TransferRewardInput \<Rightarrow> ('z, TransferRewardResult) netaction" where
  "ProcessTransferReward e ctx i w =
     (case GetAdminContract e ctx (ti_admin_did i) KindReward w of
        (Inl err, w1) \<Rightarrow> (Inl (wrap ''admin has no reward contract: '' err), w1)
      | (Inr contractHash, w1) \<Rightarrow>
          (case SumRewardPointsForActivities e ctx (ti_admin_did i) (ti_activity_ids i) w1 of
             (Inl err, w2) \<Rightarrow> (Inl (wrap ''sum reward points: '' err), w2)
           | (Inr points, w2) \<Rightarrow>
               if points \<le> 0 then (Inl (Plain ''activities resolved to zero reward points''), w2)
               else case ClientFor (ti_admin_did i) w2 of
                 (Inl err, w3) \<Rightarrow> (Inl err, w3)
               | (Inr (c, a), w3) \<Rightarrow>
                   (case PostTx e ctx c (transfer_tx i contractHash points) w3 of
                      (Inl err, w4) \<Rightarrow> (Inl (wrap ''post tx: '' err), w4)
                    | (Inr reqID, w4) \<Rightarrow>
                        (case Sign e ctx c reqID (ac_password a) w4 of
                           (Inl err, w5) \<Rightarrow> (Inl (wrap ''sign: '' err), w5)
                         | (Inr sr, w5) \<Rightarrow>
                             (Inr \<lparr>rr_transaction_id = sr_transaction_id sr,
                                   rr_contract_hash = contractHash, rr_reward_points = points,
                                   rr_message = sr_message sr\<rparr>, w5)))))"

section \<open>Lemmas\<close>

lemma ClientFor_ok:
  assumes "ClientFor did w = (r, w')" and "pool_ok w"
  shows "pool_ok w'" and "quiet w w'" and "w_sent w' = w_sent w" and "w_now w' = w_now w"
    and "r = (case AdminByDID (w_cfg w) did of
                None \<Rightarrow> Inl (Plain (''unknown admin_did '' @ Quote did))
              | Some a \<Rightarrow> Inr (NewClient (BaseURL a) (w_pool_timeout w), a))"
  using assms
  by (auto simp: ClientFor_def BaseURL_def NodeHost_def dest: ForBaseURL_ok
      split: option.splits prod.splits sum.splits)

lemma ClientFor_client:
  "ClientFor did w = (Inr (c, a), w') \<Longrightarrow> pool_ok w \<Longrightarrow>
     AdminByDID (w_cfg w) did = Some a \<and> c = NewClient (BaseURL a) (w_pool_timeout w) \<and> 0 < cl_timeout c"
  using ClientFor_ok(5) [of did w "Inr (c, a)" w'] by (auto split: option.splits)

lemma db_stmt_net:
  assumes "db_stmt e ctx w = (r, w1)"
  shows "quiet w (w1 :: 'z networld_scheme) \<and> w_sent w1 = w_sent w \<and> w_pool w1 = w_pool w \<and>
    (\<forall>err. r = Inl err \<longrightarrow> \<not> errors_Is err ErrNotFound \<and> \<not> isUniqueViolation err)"
  using db_stmt_quiet [OF assms] more_fields [OF db_stmtD(3) [OF assms]] db_stmt_error_not assms by blast

lemma GetAdminContract_ok:
  assumes "GetAdminContract e ctx admin kind w = (r, w')"
  shows "quiet w (w' :: 'z networld_scheme)" and "w_sent w' = w_sent w" and "w_pool w' = w_pool w"
    and "r = Inr h \<Longrightarrow> contract_of w admin kind = Some h"
    and "contract_of w admin kind = None \<Longrightarrow> \<exists>err. r = Inl err"
    and "r = Inl err \<Longrightarrow> errors_Is err ErrNotFound \<Longrightarrow> contract_of w admin kind = None"
  using assms
  by (auto simp: GetAdminContract_eq dest!: db_stmt_net
      split: prod.splits sum.splits option.splits)

lemma SumRewardPoints_ok:
  assumes "SumRewardPointsForActivities e ctx admin ids w = (r, w')"
  shows "quiet w (w' :: 'z networld_scheme)" and "w_sent w' = w_sent w" and "w_pool w' = w_pool w"
    and "r = Inr p \<Longrightarrow> p = points_for w admin ids"
proof -
  have "points_for w admin [] = 0" by (simp add: points_for_def activities_for_def)
  with assms show "quiet w w'" and "w_sent w' = w_sent w" and "w_pool w' = w_pool w"
    and "r = Inr p \<Longrightarrow> p = points_for w admin ids"
    by (auto simp: SumRewardPoints_eq dest!: db_stmt_net
        split: prod.splits sum.splits if_splits)
qed

lemma pool_ok_cong: "w_pool w' = w_pool w \<Longrightarrow> w_pool_timeout w' = w_pool_timeout w \<Longrightarrow> pool_ok w \<Longrightarrow> pool_ok w'"
  by (simp add: pool_ok_def)

lemma do_request_pool: "do_request e ctx c req path w = (r, w') \<Longrightarrow> w_pool w' = w_pool w"
  by (auto simp: do_request_def Let_def split: if_splits option.splits http_reply.splits)

lemma PostTx_pool: "PostTx e ctx c req w = (r, w') \<Longrightarrow> w_pool w' = w_pool w"
  by (auto simp: PostTx_def postJSON_def dest: do_request_pool split: prod.splits sum.splits option.splits)

lemma Sign_pool: "Sign e ctx c i p w = (r, w') \<Longrightarrow> w_pool w' = w_pool w"
  by (auto simp: Sign_def postJSON_def dest: do_request_pool split: prod.splits sum.splits)

text \<open>
  What a node call leaves alone: the views of the tables a flow reads are those of the state it
  started in.
\<close>

lemma quiet_views:
  assumes "quiet w w'"
  shows "contract_of w' a k = contract_of w a k" and "points_for w' a ids = points_for w a ids"
    and "AdminByDID (w_cfg w') d = AdminByDID (w_cfg w) d" and "activity_of w' a aid = activity_of w a aid"
    and "registry_ok w' = registry_ok w" and "transfer_of w' rid = transfer_of w rid"
    and "admin_of_user w' a = admin_of_user w a" and "transfers_ok w' = transfers_ok w"
  using quietD [OF assms]
  by (simp_all add: contract_of_def points_for_def activity_of_def registry_ok_def transfer_of_def
      admin_of_user_def transfers_ok_def)

section \<open>Posting and signing\<close>

text \<open>
  The pair of calls every on-chain write makes: the transaction, then the signature of the
  request it opened. \<open>sent_pair\<close> is what it may have sent, \<open>signed\<close> what it has when it is done.
\<close>

definition post_and_sign ::
    "env \<Rightarrow> ctx \<Rightarrow> Client \<Rightarrow> string \<Rightarrow> TransactionRequest \<Rightarrow> ('z, SignResult) netaction" where
  "post_and_sign e ctx c password req w =
     (case PostTx e ctx c req w of
        (Inl err, w4) \<Rightarrow> (Inl (wrap ''post tx: '' err), w4)
      | (Inr reqID, w4) \<Rightarrow>
          (case Sign e ctx c reqID password w4 of
             (Inl err, w5) \<Rightarrow> (Inl (wrap ''sign: '' err), w5)
           | (Inr sr, w5) \<Rightarrow> (Inr sr, w5)))"

lemma post_and_sign_quiet:
  "post_and_sign e ctx c p req w = (r, w') \<Longrightarrow> 0 < cl_timeout c \<Longrightarrow> quiet w w'"
  by (auto simp: post_and_sign_def intro: quiet_trans dest: PostTx_quiet Sign_quiet
      split: prod.splits sum.splits)

lemma post_and_sign_pool: "post_and_sign e ctx c p req w = (r, w') \<Longrightarrow> w_pool w' = w_pool w"
  by (auto simp: post_and_sign_def dest!: PostTx_pool Sign_pool split: prod.splits sum.splits)

lemma post_and_sign_sent:
  "post_and_sign e ctx c p req w = (r, w') \<Longrightarrow>
     \<exists>i n. w_sent w' = w_sent w @ take n [tx_request c req, sign_request c i p]"
proof -
  assume run: "post_and_sign e ctx c p req w = (r, w')"
  obtain r1 w1 where tx: "PostTx e ctx c req w = (r1, w1)" by fastforce
  show ?thesis
  proof (cases r1)
    case (Inl err)
    have "w' = w1" using run tx Inl by (simp add: post_and_sign_def)
    then have "w_sent w' = w_sent w @ take 0 [tx_request c req, sign_request c '''' p] \<or>
        w_sent w' = w_sent w @ take 1 [tx_request c req, sign_request c '''' p]"
      using PostTx_sent [OF tx] by auto
    then show ?thesis by blast
  next
    case (Inr i)
    obtain r2 w2 where sg: "Sign e ctx c i p w1 = (r2, w2)" by fastforce
    have "w' = w2" using run tx sg Inr by (auto simp: post_and_sign_def split: sum.splits)
    moreover have "w_sent w1 = w_sent w @ [tx_request c req]" using tx Inr PostTx_ok by blast
    moreover have "w_sent w2 = w_sent w1 \<or> w_sent w2 = w_sent w1 @ [sign_request c i p]"
      using Sign_sent [OF sg] .
    ultimately have "w_sent w' = w_sent w @ take 1 [tx_request c req, sign_request c i p] \<or>
        w_sent w' = w_sent w @ take 2 [tx_request c req, sign_request c i p]"
      by auto
    then show ?thesis by blast
  qed
qed

lemma post_and_sign_ok:
  "post_and_sign e ctx c p req w = (Inr sr, w') \<Longrightarrow>
     \<exists>i. i \<noteq> '''' \<and> w_sent w' = w_sent w @ [tx_request c req, sign_request c i p]"
  by (auto simp: post_and_sign_def dest!: PostTx_ok Sign_ok split: prod.splits sum.splits)

lemma post_and_sign_error:
  "post_and_sign e ctx c p req w = (Inl err, w') \<Longrightarrow> \<not> errors_Is err ErrNotFound \<and> \<not> isUniqueViolation err"
  by (auto simp: post_and_sign_def dest: PostTx_error Sign_error split: prod.splits sum.splits)

lemma ExecuteContract_eq:
  "ExecuteContract e ctx adminDID hash input w =
     (case ClientFor adminDID w of
        (Inl err, w1) \<Rightarrow> (Inl err, w1)
      | (Inr (c, a), w1) \<Rightarrow> post_and_sign e ctx c (ac_password a) (execute_tx adminDID hash input) w1)"
  by (simp add: ExecuteContract_def post_and_sign_def split: prod.split sum.split)

lemma ProcessTransferReward_eq:
  "ProcessTransferReward e ctx i w =
     (case GetAdminContract e ctx (ti_admin_did i) KindReward w of
        (Inl err, w1) \<Rightarrow> (Inl (wrap ''admin has no reward contract: '' err), w1)
      | (Inr hash, w1) \<Rightarrow>
          (case SumRewardPointsForActivities e ctx (ti_admin_did i) (ti_activity_ids i) w1 of
             (Inl err, w2) \<Rightarrow> (Inl (wrap ''sum reward points: '' err), w2)
           | (Inr points, w2) \<Rightarrow>
               if points \<le> 0 then (Inl (Plain ''activities resolved to zero reward points''), w2)
               else case ClientFor (ti_admin_did i) w2 of
                 (Inl err, w3) \<Rightarrow> (Inl err, w3)
               | (Inr (c, a), w3) \<Rightarrow>
                   (case post_and_sign e ctx c (ac_password a) (transfer_tx i hash points) w3 of
                      (Inl err, w5) \<Rightarrow> (Inl err, w5)
                    | (Inr sr, w5) \<Rightarrow>
                        (Inr \<lparr>rr_transaction_id = sr_transaction_id sr, rr_contract_hash = hash,
                              rr_reward_points = points, rr_message = sr_message sr\<rparr>, w5))))"
  by (simp add: ProcessTransferReward_def post_and_sign_def split: prod.split sum.split)

text \<open>Posting and signing through an admin's client, as every flow does it.\<close>

lemma client_signs:
  assumes cf: "ClientFor d w = (Inr (c, a), w1)" and ok: "pool_ok w"
    and ps: "post_and_sign e ctx c (ac_password a) req w1 = (r, w')"
  shows "AdminByDID (w_cfg w) d = Some a" and "c = NewClient (BaseURL a) (w_pool_timeout w)"
    and "quiet w w'" and "pool_ok w'"
    and "\<exists>q n. w_sent w' = w_sent w @ take n [tx_request c req, sign_request c q (ac_password a)] \<and>
      (\<forall>sr. r = Inr sr \<longrightarrow> q \<noteq> '''' \<and> w_sent w' = w_sent w @ [tx_request c req, sign_request c q (ac_password a)])"
proof -
  note q1 = ClientFor_ok [OF cf ok] and cl = ClientFor_client [OF cf ok]
  have q: "quiet w1 w'" using post_and_sign_quiet [OF ps] cl by blast
  show "AdminByDID (w_cfg w) d = Some a" and "c = NewClient (BaseURL a) (w_pool_timeout w)" using cl by simp_all
  show "quiet w w'" by (rule quiet_trans [OF q1(2) q])
  show "pool_ok w'" using pool_ok_cong [OF post_and_sign_pool [OF ps] _ q1(1)] quietD(7) [OF q] by simp
  show "\<exists>q n. w_sent w' = w_sent w @ take n [tx_request c req, sign_request c q (ac_password a)] \<and>
      (\<forall>sr. r = Inr sr \<longrightarrow> q \<noteq> '''' \<and> w_sent w' = w_sent w @ [tx_request c req, sign_request c q (ac_password a)])"
  proof (cases r)
    case (Inl err)
    with post_and_sign_sent [OF ps] q1(3) show ?thesis by auto
  next
    case (Inr sr)
    with post_and_sign_ok [of e ctx c _ req w1 sr w'] ps q1(3) obtain q where
      "q \<noteq> ''''" "w_sent w' = w_sent w @ [tx_request c req, sign_request c q (ac_password a)]" by auto
    then show ?thesis by (intro exI [of _ q] exI [of _ 2]) simp
  qed
qed

section \<open>The flows\<close>

text \<open>
  A transfer reads first: it stops, or finds the admin's contract and a positive sum. Then it sends
  at most the transaction and its signature.
\<close>

lemma ProcessTransferReward_reads:
  assumes run: "ProcessTransferReward e ctx i w = (r, w')" and ok: "pool_ok w"
  obtains (stopped) err where "r = Inl err" "quiet w w'" "pool_ok w'" "w_sent w' = w_sent w"
  | (pays) hash c a w2 w3 x where "contract_of w (ti_admin_did i) KindReward = Some hash"
      "0 < points_for w (ti_admin_did i) (ti_activity_ids i)" "quiet w w2" "pool_ok w2" "w_sent w2 = w_sent w"
      "ClientFor (ti_admin_did i) w2 = (Inr (c, a), w3)"
      "post_and_sign e ctx c (ac_password a) (transfer_tx i hash (points_for w (ti_admin_did i) (ti_activity_ids i))) w3 = (x, w')"
      "r = map_sum id (\<lambda>sr. \<lparr>rr_transaction_id = sr_transaction_id sr, rr_contract_hash = hash,
          rr_reward_points = points_for w (ti_admin_did i) (ti_activity_ids i), rr_message = sr_message sr\<rparr>) x"
proof -
  let ?d = "ti_admin_did i" and ?p = "points_for w (ti_admin_did i) (ti_activity_ids i)"
  obtain r1 w1 where g: "GetAdminContract e ctx ?d KindReward w = (r1, w1)" by fastforce
  obtain r2 w2 where s: "SumRewardPointsForActivities e ctx ?d (ti_activity_ids i) w1 = (r2, w2)" by fastforce
  obtain r3 w3 where cf: "ClientFor ?d w2 = (r3, w3)" by fastforce
  note q1 = GetAdminContract_ok [OF g] and q2 = SumRewardPoints_ok [OF s]
  have q12: "quiet w w2" "w_sent w2 = w_sent w" "w_pool w2 = w_pool w" using q1 q2 quiet_trans by simp_all
  have ok1: "pool_ok w1" and ok2: "pool_ok w2"
    using pool_ok_cong [OF q1(3) _ ok] pool_ok_cong [OF q12(3) _ ok] quietD(7) [OF q1(1)] quietD(7) [OF q12(1)] by simp_all
  note q3 = ClientFor_ok [OF cf ok2]
  consider (contract) err where "r1 = Inl err" | (sum) h err where "r1 = Inr h" "r2 = Inl err"
    | (zero) h p where "r1 = Inr h" "r2 = Inr p" "p \<le> 0" | (client) h p err where "r1 = Inr h" "r2 = Inr p" "0 < p" "r3 = Inl err"
    | (pays) h p c a where "r1 = Inr h" "r2 = Inr p" "0 < p" "r3 = Inr (c, a)"
    by (metis not_le obj_sumE surj_pair)
  then show ?thesis
  proof cases
    case contract
    with run g q1(1,2) ok1 that(1) show ?thesis by (auto simp: ProcessTransferReward_eq)
  next
    case sum
    with run g s q12 ok2 that(1) show ?thesis by (auto simp: ProcessTransferReward_eq)
  next
    case zero
    with run g s q12 ok2 that(1) show ?thesis by (auto simp: ProcessTransferReward_eq)
  next
    case client
    with run g s cf q12(2) q3(1,3) quiet_trans [OF q12(1) q3(2)] that(1) show ?thesis
      by (auto simp: ProcessTransferReward_eq)
  next
    case (pays h p c a)
    have p: "p = ?p" using q2(4) pays(2) quiet_views(2) [OF q1(1)] by simp
    obtain x w4 where ps: "post_and_sign e ctx c (ac_password a) (transfer_tx i h p) w3 = (x, w4)" by fastforce
    with run g s cf pays have "w' = w4 \<and> r = map_sum id (\<lambda>sr. \<lparr>rr_transaction_id = sr_transaction_id sr,
        rr_contract_hash = h, rr_reward_points = p, rr_message = sr_message sr\<rparr>) x"
      by (cases x) (auto simp: ProcessTransferReward_eq)
    with that(2) [of h w2 c a w3 x] q1(4) [OF pays(1)] pays cf ps p q12 ok2 show ?thesis by simp
  qed
qed

lemma ProcessTransferReward_cases:
  assumes run: "ProcessTransferReward e ctx i w = (r, w')" and ok: "pool_ok w"
  obtains (unsent) err where "r = Inl err" "quiet w w'" "pool_ok w'" "w_sent w' = w_sent w"
  | (sent) hash a c q where "contract_of w (ti_admin_did i) KindReward = Some hash"
      "0 < points_for w (ti_admin_did i) (ti_activity_ids i)"
      "AdminByDID (w_cfg w) (ti_admin_did i) = Some a" "c = NewClient (BaseURL a) (w_pool_timeout w)"
      "quiet w w'" "pool_ok w'"
      "\<exists>n. w_sent w' = w_sent w @
        take n [tx_request c (transfer_tx i hash (points_for w (ti_admin_did i) (ti_activity_ids i))),
                sign_request c q (ac_password a)]"
      "\<And>res. r = Inr res \<Longrightarrow>
        rr_contract_hash res = hash \<and>
        rr_reward_points res = points_for w (ti_admin_did i) (ti_activity_ids i) \<and> q \<noteq> '''' \<and>
        w_sent w' = w_sent w @
          [tx_request c (transfer_tx i hash (points_for w (ti_admin_did i) (ti_activity_ids i))),
           sign_request c q (ac_password a)]"
  using run ok
proof (cases rule: ProcessTransferReward_reads)
  case stopped
  with unsent show ?thesis by blast
next
  case (pays hash c a w2 w3 x)
  note q = quietD(3,7) [OF pays(3)] and cs = client_signs [OF pays(6,4,7)]
  from cs(5) obtain q n where
    s: "w_sent w' = w_sent w2 @ take n [tx_request c (transfer_tx i hash (points_for w (ti_admin_did i) (ti_activity_ids i))),
        sign_request c q (ac_password a)]"
    "\<And>sr. x = Inr sr \<Longrightarrow> q \<noteq> '''' \<and> w_sent w' = w_sent w2 @ [tx_request c (transfer_tx i hash
        (points_for w (ti_admin_did i) (ti_activity_ids i))), sign_request c q (ac_password a)]"
    by blast
  from pays(8) have x: "r = Inr res \<Longrightarrow> (\<exists>sr. x = Inr sr) \<and> rr_contract_hash res = hash \<and>
      rr_reward_points res = points_for w (ti_admin_did i) (ti_activity_ids i)" for res
    by (cases x) auto
  show ?thesis
    by (rule sent [of hash a c q]) (use pays(1,2,5) cs(1-4) q s x quiet_trans [OF pays(3) cs(3)] in \<open>auto\<close>)
qed

lemma ExecuteContract_ok:
  assumes run: "ExecuteContract e ctx d hash input w = (r, w')" and ok: "pool_ok w"
  shows "quiet w w'" and "pool_ok w'"
    and "r = Inr sr \<Longrightarrow> \<exists>a q. AdminByDID (w_cfg w) d = Some a \<and> q \<noteq> '''' \<and>
      w_sent w' = w_sent w @
        [tx_request (NewClient (BaseURL a) (w_pool_timeout w)) (execute_tx d hash input),
         sign_request (NewClient (BaseURL a) (w_pool_timeout w)) q (ac_password a)]"
    and "AdminByDID (w_cfg w) d = None \<Longrightarrow> (\<exists>err. r = Inl err) \<and> w_sent w' = w_sent w"
    and "r = Inl err \<Longrightarrow> \<not> errors_Is err ErrNotFound \<and> \<not> isUniqueViolation err"
proof -
  obtain r1 w1 where cf: "ClientFor d w = (r1, w1)" by fastforce
  note q1 = ClientFor_ok [OF cf ok]
  have "quiet w w' \<and> pool_ok w' \<and>
    (\<forall>sr. r = Inr sr \<longrightarrow> (\<exists>a q. AdminByDID (w_cfg w) d = Some a \<and> q \<noteq> '''' \<and>
      w_sent w' = w_sent w @
        [tx_request (NewClient (BaseURL a) (w_pool_timeout w)) (execute_tx d hash input),
         sign_request (NewClient (BaseURL a) (w_pool_timeout w)) q (ac_password a)])) \<and>
    (AdminByDID (w_cfg w) d = None \<longrightarrow> (\<exists>err. r = Inl err) \<and> w_sent w' = w_sent w) \<and>
    (\<forall>err. r = Inl err \<longrightarrow> \<not> errors_Is err ErrNotFound \<and> \<not> isUniqueViolation err)"
  proof (cases "AdminByDID (w_cfg w) d")
    case None
    with run cf q1 show ?thesis by (auto simp: ExecuteContract_eq)
  next
    case (Some a)
    let ?c = "NewClient (BaseURL a) (w_pool_timeout w)"
    have ps: "post_and_sign e ctx ?c (ac_password a) (execute_tx d hash input) w1 = (r, w')"
      using run cf q1(5) Some by (simp add: ExecuteContract_eq)
    have q2: "quiet w1 w'" using post_and_sign_quiet [OF ps] by simp
    have "pool_ok w'" using pool_ok_cong [OF post_and_sign_pool [OF ps] _ q1(1)] quietD(7) [OF q2] by simp
    with Some quiet_trans [OF q1(2) q2] post_and_sign_ok [of e ctx ?c] post_and_sign_error [of e ctx ?c] ps q1(3)
    show ?thesis by fastforce
  qed
  then show "quiet w w'" and "pool_ok w'"
    and "r = Inr sr \<Longrightarrow> \<exists>a q. AdminByDID (w_cfg w) d = Some a \<and> q \<noteq> '''' \<and>
      w_sent w' = w_sent w @
        [tx_request (NewClient (BaseURL a) (w_pool_timeout w)) (execute_tx d hash input),
         sign_request (NewClient (BaseURL a) (w_pool_timeout w)) q (ac_password a)]"
    and "AdminByDID (w_cfg w) d = None \<Longrightarrow> (\<exists>err. r = Inl err) \<and> w_sent w' = w_sent w"
    and "r = Inl err \<Longrightarrow> \<not> errors_Is err ErrNotFound \<and> \<not> isUniqueViolation err"
    by blast+
qed

text \<open>
  \<open>AddActivity\<close> writes the table only after the chain accepted the activity, and writes exactly
  what it put on chain.
\<close>

lemma AddActivity_invalid:
  "aid = '''' \<or> points < 0 \<Longrightarrow> \<exists>m. AddActivity e ctx d aid points desc w = (Inl (Plain m), w)"
  by (auto simp: AddActivity_def)

lemma AddActivity_stages:
  assumes run: "AddActivity e ctx d aid points desc w = (r, w')" and ok: "pool_ok w"
  obtains (stopped) err where "r = Inl err" "quiet w w'" "pool_ok w'"
  | (signed) hash w2 sr where "contract_of w d KindAddActivity = Some hash" "aid \<noteq> ''''" "0 \<le> points"
      "quiet w w2" "pool_ok w2"
      "\<exists>a q. AdminByDID (w_cfg w) d = Some a \<and> w_sent w2 = w_sent w @
        [tx_request (NewClient (BaseURL a) (w_pool_timeout w)) (execute_tx d hash (activity_payload aid points desc)),
         sign_request (NewClient (BaseURL a) (w_pool_timeout w)) q (ac_password a)]"
      "case CreateActivity e ctx
          \<lparr>av_admin_did = d, av_activity_id = aid, av_reward_points = points, av_description = desc,
           av_transaction_id = sr_transaction_id sr, av_created_at = 0\<rparr> w2 of
         (Inl err, w3) \<Rightarrow> r = Inl (wrap ''persist activity: '' err) \<and> w' = w3
       | (Inr _, w3) \<Rightarrow> r = Inr (sr, hash) \<and> w' = w3"
proof (cases "aid = '''' \<or> points < 0")
  case True
  with run ok stopped AddActivity_invalid [OF True, of e ctx d desc w] show ?thesis by auto
next
  case False
  obtain r1 w1 where g: "GetAdminContract e ctx d KindAddActivity w = (r1, w1)" by fastforce
  note q1 = GetAdminContract_ok [OF g]
  have ok1: "pool_ok w1" using pool_ok_cong [OF q1(3) _ ok] quietD(7) [OF q1(1)] by simp
  show ?thesis
  proof (cases r1)
    case (Inl err)
    with run g False q1(1) ok1 stopped show ?thesis by (auto simp: AddActivity_def)
  next
    case (Inr hash)
    obtain r2 w2 where x: "ExecuteContract e ctx d hash (activity_payload aid points desc) w1 = (r2, w2)"
      by fastforce
    note q2 = ExecuteContract_ok [OF x ok1]
    have q: "quiet w w2" using quiet_trans [OF q1(1) q2(1)] .
    show ?thesis
    proof (cases r2)
      case (Inl err)
      with run g False \<open>r1 = Inr hash\<close> x q q2(2) stopped show ?thesis by (auto simp: AddActivity_def)
    next
      case sr: (Inr sr)
      have "\<exists>a q. AdminByDID (w_cfg w) d = Some a \<and> w_sent w2 = w_sent w @
        [tx_request (NewClient (BaseURL a) (w_pool_timeout w)) (execute_tx d hash (activity_payload aid points desc)),
         sign_request (NewClient (BaseURL a) (w_pool_timeout w)) q (ac_password a)]"
        using q2(3) [OF sr] q1(2) quietD(3,7) [OF q1(1)] by auto
      moreover have "contract_of w d KindAddActivity = Some hash" using q1(4) [OF Inr] .
      ultimately show ?thesis
        using run g False Inr x sr q q2(2)
        by (intro signed [of hash w2 sr]) (auto simp: AddActivity_def split: prod.splits sum.splits)
    qed
  qed
qed

lemma AddActivity_error_frame:
  assumes "AddActivity e ctx d aid points desc w = (Inl err, w')" and "pool_ok w"
  shows "w_db w' = w_db w"
  using assms
proof (cases rule: AddActivity_stages)
  case stopped
  then show ?thesis by (simp add: quiet_def)
next
  case (signed hash w2 sr)
  then show ?thesis
    by (auto simp: quiet_def split: prod.splits sum.splits elim!: CreateActivity_cases)
qed

lemma AddActivity_ok:
  assumes "AddActivity e ctx d aid points desc w = (Inr (sr, hash), w')" and "pool_ok w"
  shows "contract_of w d KindAddActivity = Some hash" and "in_int32 points" and "0 \<le> points"
    and "\<exists>at. activity_of w' d aid = Some \<lparr>av_admin_did = d, av_activity_id = aid, av_reward_points = points,
           av_description = desc, av_transaction_id = sr_transaction_id sr, av_created_at = at\<rparr>"
    and "\<exists>a q. AdminByDID (w_cfg w) d = Some a \<and> w_sent w' = w_sent w @
        [tx_request (NewClient (BaseURL a) (w_pool_timeout w)) (execute_tx d hash (activity_payload aid points desc)),
         sign_request (NewClient (BaseURL a) (w_pool_timeout w)) q (ac_password a)]"
  using assms
proof -
  let ?a = "\<lparr>av_admin_did = d, av_activity_id = aid, av_reward_points = points, av_description = desc,
           av_transaction_id = sr_transaction_id sr, av_created_at = 0\<rparr>"
  obtain w2 where st: "contract_of w d KindAddActivity = Some hash" "0 \<le> points"
      "\<exists>a q. AdminByDID (w_cfg w) d = Some a \<and> w_sent w2 = w_sent w @
        [tx_request (NewClient (BaseURL a) (w_pool_timeout w)) (execute_tx d hash (activity_payload aid points desc)),
         sign_request (NewClient (BaseURL a) (w_pool_timeout w)) q (ac_password a)]"
    and c: "CreateActivity e ctx ?a w2 = (Inr (), w')"
    using assms by (cases rule: AddActivity_stages) (auto split: prod.splits sum.splits)
  show "contract_of w d KindAddActivity = Some hash" and "0 \<le> points" using st by auto
  from c have cr: "in_int32 points \<and> activity_of w' d aid = Some (?a\<lparr>av_created_at :=
      (case activity_of w2 d aid of None \<Rightarrow> pg_time (w_now w2) | Some old \<Rightarrow> av_created_at old)\<rparr>) \<and>
      dbworld.more w' = dbworld.more w2"
    by (cases rule: CreateActivity_cases) auto
  then show "in_int32 points"
    and "\<exists>at. activity_of w' d aid = Some \<lparr>av_admin_did = d, av_activity_id = aid, av_reward_points = points,
           av_description = desc, av_transaction_id = sr_transaction_id sr, av_created_at = at\<rparr>"
    by auto
  have "w_sent w' = w_sent w2" using cr more_fields by blast
  with st(3)
  show "\<exists>a q. AdminByDID (w_cfg w) d = Some a \<and> w_sent w' = w_sent w @
        [tx_request (NewClient (BaseURL a) (w_pool_timeout w)) (execute_tx d hash (activity_payload aid points desc)),
         sign_request (NewClient (BaseURL a) (w_pool_timeout w)) q (ac_password a)]"
    by simp
qed

text \<open>\<open>AddAdmin\<close> touches no table; it only appends to the chain.\<close>

lemma AddAdmin_frame:
  assumes run: "AddAdmin e ctx d new w = (r, w')" and ok: "pool_ok w"
  shows "quiet w w'" and "pool_ok w'" and "\<not> isPlausibleDID new \<Longrightarrow> w' = w \<and> (\<exists>m. r = Inl (Plain m))"
    and "r = Inr (sr, hash) \<Longrightarrow> contract_of w d KindAddAdmin = Some hash \<and>
      (\<exists>a q. AdminByDID (w_cfg w) d = Some a \<and> w_sent w' = w_sent w @
        [tx_request (NewClient (BaseURL a) (w_pool_timeout w)) (execute_tx d hash (admin_payload new)),
         sign_request (NewClient (BaseURL a) (w_pool_timeout w)) q (ac_password a)])"
proof -
  obtain r1 w1 where g: "GetAdminContract e ctx d KindAddAdmin w = (r1, w1)" by fastforce
  note q1 = GetAdminContract_ok [OF g]
  have ok1: "pool_ok w1" using pool_ok_cong [OF q1(3) _ ok] quietD(7) [OF q1(1)] by simp
  obtain r2 w2 where x: "ExecuteContract e ctx d (projr r1) (admin_payload new) w1 = (r2, w2)" by fastforce
  note q2 = ExecuteContract_ok [OF x ok1]
  note run' = run [unfolded AddAdmin_def, simplified g prod.case]
  show "quiet w w'" "pool_ok w'"
    using run' x q1(1) ok ok1 q2(1,2) quiet_trans [OF q1(1) q2(1)] by (auto split: if_splits sum.splits)
  show "\<not> isPlausibleDID new \<Longrightarrow> w' = w \<and> (\<exists>m. r = Inl (Plain m))" using run' by auto
  show "contract_of w d KindAddAdmin = Some hash \<and>
      (\<exists>a q. AdminByDID (w_cfg w) d = Some a \<and> w_sent w' = w_sent w @
        [tx_request (NewClient (BaseURL a) (w_pool_timeout w)) (execute_tx d hash (admin_payload new)),
         sign_request (NewClient (BaseURL a) (w_pool_timeout w)) q (ac_password a)])" if "r = Inr (sr, hash)"
  proof -
    have "r1 = Inr hash" "r2 = Inr sr" "w' = w2" using run' x that by (auto split: if_splits sum.splits)
    with q2(3) [of sr] q1(2,4) quietD(3,7) [OF q1(1)] show ?thesis by auto
  qed
qed

text \<open>Deployment records the contract only when the node has signed it, and then under its token.\<close>

lemma UpsertAdminContract_fail:
  "UpsertAdminContract e ctx d k h w = (Inl err, w') \<Longrightarrow> w_db w' = w_db w"
  by (auto simp: UpsertAdminContract_def dest: db_stmtD(1) split: prod.splits sum.splits)

lemma SubscribeSmartContract_db:
  "0 < cl_timeout c \<Longrightarrow> w_db (snd (SubscribeSmartContract e ctx c t w)) = w_db w"
  using SubscribeSmartContract_quiet [of e ctx c t w] quietD(1) by (metis prod.collapse)

lemma DeployContract_stages:
  assumes run: "DeployContract e ctx d k p q w = (r, w')" and ok: "pool_ok w"
  obtains (stopped) err where "r = Inl err" "w_db w' = w_db w"
  | (signed) token w4 where "token \<noteq> ''''" "k \<noteq> ''''" "w_db w4 = w_db w"
      "UpsertAdminContract e ctx d k token w4 = (Inr (), w')" "r = Inr token"
proof (cases "k = ''''")
  case True
  with run stopped show ?thesis by (auto simp: DeployContract_def)
next
  case False
  obtain r1 w1 where cf: "ClientFor d w = (r1, w1)" by fastforce
  note q1 = ClientFor_ok [OF cf ok]
  show ?thesis
  proof (cases r1)
    case (Inl err)
    with run cf False q1(2) stopped show ?thesis by (auto simp: DeployContract_def quiet_def)
  next
    case (Inr ca)
    obtain c a where ca: "ca = (c, a)" by fastforce
    have t: "0 < cl_timeout c" using ClientFor_client cf Inr ca ok by blast
    obtain r2 w2 where g: "GenerateSmartContract e ctx c d p q w1 = (r2, w2)" by fastforce
    obtain r3 w3 where s: "Sign e ctx c (projr r2) (ac_password a) w2 = (r3, w3)" by fastforce
    have db: "w_db w1 = w_db w" "w_db w2 = w_db w" "w_db w3 = w_db w"
      using quietD(1) [OF q1(2)] quietD(1) [OF GenerateSmartContract_quiet [OF g t]]
        quietD(1) [OF Sign_quiet [OF s t]] by simp_all
    note run' = run [unfolded DeployContract_def, simplified cf prod.case Inr ca sum.case g]
    define w4 where "w4 = snd (SubscribeSmartContract e ctx c (projr (ContractTokenFromSignResult (projr r3))) w3)"
    have db4: "w_db w4 = w_db w" by (simp add: w4_def SubscribeSmartContract_db [OF t] db)
    obtain r5 w5 where u:
      "UpsertAdminContract e ctx d k (projr (ContractTokenFromSignResult (projr r3))) w4 = (r5, w5)" by fastforce
    show ?thesis
      using run' False s db db4 u [unfolded w4_def] UpsertAdminContract_fail [of e ctx d k _ w4 _ w5]
        ContractTokenFromSignResult_ok
      by (auto simp: Let_def w4_def split: sum.splits intro: stopped) (metis signed)
  qed
qed

lemma DeployContract_ok:
  assumes "DeployContract e ctx d k p q w = (Inr token, w')" and "pool_ok w"
  shows "token \<noteq> ''''" and "k \<noteq> ''''"
    and "contract_of w' x y = (if x = d \<and> y = k then Some token else contract_of w x y)"
    and "registry_ok w \<Longrightarrow> registry_ok w'"
proof -
  obtain w4 where "token \<noteq> ''''" "k \<noteq> ''''" "w_db w4 = w_db w"
    and u: "UpsertAdminContract e ctx d k token w4 = (Inr (), w')"
    using assms by (cases rule: DeployContract_stages) auto
  then show "token \<noteq> ''''" and "k \<noteq> ''''"
    and "contract_of w' x y = (if x = d \<and> y = k then Some token else contract_of w x y)"
    and "registry_ok w \<Longrightarrow> registry_ok w'"
    using UpsertAdminContract_views [OF u] by (auto simp: contract_of_def registry_ok_def)
qed

lemma DeployContract_error_frame:
  "DeployContract e ctx d k p q w = (Inl err, w') \<Longrightarrow> pool_ok w \<Longrightarrow> w_db w' = w_db w"
  by (erule DeployContract_stages) auto

text \<open>
  Onboarding: the user is attributed to the admin who asked first; the write is best effort, so
  success does not promise it happened, but it never moves a user.
\<close>

lemma UpsertUserAdmin_cases:
  assumes "UpsertUserAdmin e ctx u d w = (r, w')"
  obtains (fail) err where "r = Inl err" "w_db w' = w_db w" | (applied) "r = Inr ()"
  using assms by (auto simp: UpsertUserAdmin_def dest: db_stmtD(1) split: prod.splits sum.splits)

lemma CreateDIDWithPubKey_ok:
  assumes run: "CreateDIDWithPubKey e ctx d key w = (Inr did, w')" and ok: "pool_ok w"
  shows "did \<noteq> ''''" and "key \<noteq> ''''" and "AdminByDID (w_cfg w) d \<noteq> None"
    and "admin_of_user w' u = admin_of_user w u \<or>
      (u = did \<and> admin_of_user w u = None \<and> admin_of_user w' u = Some d)"
proof -
  obtain c a w1 where cf: "ClientFor d w = (Inr (c, a), w1)" and k: "key \<noteq> ''''"
    using run by (auto simp: CreateDIDWithPubKey_def split: if_splits prod.splits sum.splits)
  note cl = ClientFor_client [OF cf ok] and q1 = ClientFor_ok [OF cf ok]
  obtain res w2 where cd: "CreateDID e ctx c \<lparr>cd_password = ac_password a, cd_public_key = key,
      cd_private_key = '''', cd_mnemonic = '''', cd_child_path = 0\<rparr> w1 = (Inr res, w2)"
    and did: "did = cr_did res" and w': "w' = snd (UpsertUserAdmin e ctx did d w2)"
    using run cf k by (auto simp: CreateDIDWithPubKey_def split: if_splits prod.splits sum.splits)
  show "did \<noteq> ''''" using CreateDID_ok [OF cd] did by simp
  show "key \<noteq> ''''" using k .
  show "AdminByDID (w_cfg w) d \<noteq> None" using cl by simp
  have v: "admin_of_user w2 x = admin_of_user w x" for x
    using quiet_views(7) [OF quiet_trans [OF q1(2) CreateDID_quiet [OF cd]]] cl by simp
  obtain r w3 where u: "UpsertUserAdmin e ctx did d w2 = (r, w3)" by fastforce
  then show "admin_of_user w' u = admin_of_user w u \<or>
      (u = did \<and> admin_of_user w u = None \<and> admin_of_user w' u = Some d)"
  proof (cases rule: UpsertUserAdmin_cases)
    case (fail err)
    with u w' v show ?thesis by (simp add: admin_of_user_def)
  next
    case applied
    with u w' v UpsertUserAdmin_views(1) [of e ctx did d w2 w3 u] show ?thesis
      by (cases "admin_of_user w u") auto
  qed
qed

end
