(* ===== verification/Queue.thy ===== *)
theory Queue
  imports Service
begin

text \<open>
  \<open>internal/queue/manager.go\<close>: the data of the per-admin payout queues, the operations callers
  use (\<open>NewManager\<close>, the interval setters, \<open>Enqueue\<close>, \<open>Snapshot\<close>), the pieces of the worker
  loop, and \<open>processOne\<close>, the whole handling of one job over the database and the node. The
  interleaving of the goroutines is in theory \<open>Scheduler\<close>. A buffered channel is the list of
  its elements, oldest first, behind the interface \<open>bounded_fifo\<close>.
\<close>

section \<open>Channels\<close>

definition chan_send :: "nat \<Rightarrow> 'a list \<Rightarrow> 'a \<Rightarrow> 'a list option" where
  "chan_send cap ch x = (if length ch < cap then Some (ch @ [x]) else None)"

fun chan_recv :: "'a list \<Rightarrow> ('a \<times> 'a list) option" where
  "chan_recv [] = None"
| "chan_recv (x # xs) = Some (x, xs)"

fun send_all :: "('c \<Rightarrow> 'a \<Rightarrow> 'c option) \<Rightarrow> 'c \<Rightarrow> 'a list \<Rightarrow> 'c option" where
  "send_all send c [] = Some c"
| "send_all send c (x # xs) = Option.bind (send c x) (\<lambda>c'. send_all send c' xs)"

text \<open>
  What the queue relies on: a send appends or, exactly at capacity, is refused; a receive takes
  the oldest element and blocks only on an empty channel.
\<close>

locale bounded_fifo =
  fixes cap :: nat
    and fresh :: 'c
    and send :: "'c \<Rightarrow> 'a \<Rightarrow> 'c option"
    and recv :: "'c \<Rightarrow> ('a \<times> 'c) option"
    and contents :: "'c \<Rightarrow> 'a list"
  assumes contents_fresh: "contents fresh = []"
    and send_Some: "send c x = Some c' \<Longrightarrow> contents c' = contents c @ [x]"
    and send_None: "send c x = None \<longleftrightarrow> cap \<le> length (contents c)"
    and recv_Some: "recv c = Some (x, c') \<Longrightarrow> contents c = x # contents c'"
    and recv_None: "recv c = None \<longleftrightarrow> contents c = []"
begin

text \<open>Nothing is lost, duplicated or reordered between the two ends.\<close>

lemma send_transit: "send c x = Some c' \<Longrightarrow> sent = received @ contents c \<Longrightarrow> sent @ [x] = received @ contents c'"
  by (simp add: send_Some)

lemma recv_transit: "recv c = Some (x, c') \<Longrightarrow> sent = received @ contents c \<Longrightarrow> sent = (received @ [x]) @ contents c'"
  by (simp add: recv_Some)

lemma send_bounded: "send c x = Some c' \<Longrightarrow> length (contents c') \<le> cap"
  using send_None [of c x] by (simp add: send_Some)

lemma send_all_ok:
  "length (contents c) + length xs \<le> cap \<Longrightarrow>
     \<exists>c'. send_all send c xs = Some c' \<and> contents c' = contents c @ xs"
proof (induction xs arbitrary: c)
  case Nil
  then show ?case by simp
next
  case (Cons x xs)
  then obtain c1 where c1: "send c x = Some c1"
    using send_None [of c x] by (cases "send c x") auto
  with Cons.IH [of c1] Cons.prems send_Some [OF c1] show ?case by auto
qed

lemma send_all_full:
  "cap < length (contents c) + length xs \<Longrightarrow> length (contents c) \<le> cap \<Longrightarrow> send_all send c xs = None"
proof (induction xs arbitrary: c)
  case Nil
  then show ?case by simp
next
  case (Cons x xs)
  show ?case
  proof (cases "send c x")
    case (Some c1)
    with Cons.IH [of c1] Cons.prems send_Some [OF Some] send_bounded [OF Some] show ?thesis by simp
  qed simp
qed

end

interpretation chan: bounded_fifo cap "[]" "chan_send cap" chan_recv "\<lambda>c. c"
  for cap
proof unfold_locales
  show "chan_recv c = Some (x, c') \<Longrightarrow> c = x # c'" for c :: "'a list" and x c'
    by (cases c) auto
  show "chan_recv c = None \<longleftrightarrow> c = []" for c :: "'a list"
    by (cases c) auto
qed (auto simp: chan_send_def split: if_splits)

section \<open>The manager\<close>

record TransferJob =
  tj_request_id :: string
  tj_input :: TransferRewardInput
  tj_enqueued_at :: instant

record adminQueue =
  aq_adminDID :: string
  aq_ch :: "TransferJob list"
  aq_lastDone :: instant

record Manager =
  mgr_bufferSize :: int
  mgr_procTimeout :: duration
  mgr_minInterval :: duration
  mgr_adminInterval :: "(string \<times> duration) list"
  mgr_queues :: "(string \<times> adminQueue) list"

definition NewManager :: "int \<Rightarrow> duration \<Rightarrow> Manager" where
  "NewManager bufferSize procTimeout =
     \<lparr>mgr_bufferSize = (if bufferSize \<le> 0 then 1000 else bufferSize),
      mgr_procTimeout = (if procTimeout \<le> 0 then 5 * minute else procTimeout),
      mgr_minInterval = 0, mgr_adminInterval = [], mgr_queues = []\<rparr>"

definition SetMinInterval :: "duration \<Rightarrow> Manager \<Rightarrow> Manager" where
  "SetMinInterval d m = m\<lparr>mgr_minInterval := (if d < 0 then 0 else d)\<rparr>"

definition SetAdminMinInterval :: "string \<Rightarrow> duration \<Rightarrow> Manager \<Rightarrow> Manager" where
  "SetAdminMinInterval admin d m =
     m\<lparr>mgr_adminInterval := AList.update admin (if d < 0 then 0 else d) (mgr_adminInterval m)\<rparr>"

definition IntervalFor :: "Manager \<Rightarrow> string \<Rightarrow> duration" where
  "IntervalFor m admin =
     (case map_of (mgr_adminInterval m) admin of Some d \<Rightarrow> d | None \<Rightarrow> mgr_minInterval m)"

definition set_queue :: "string \<Rightarrow> adminQueue \<Rightarrow> Manager \<Rightarrow> Manager" where
  "set_queue admin q m = m\<lparr>mgr_queues := AList.update admin q (mgr_queues m)\<rparr>"

definition getOrCreate :: "string \<Rightarrow> Manager \<Rightarrow> adminQueue \<times> Manager" where
  "getOrCreate admin m =
     (case map_of (mgr_queues m) admin of
        Some q \<Rightarrow> (q, m)
      | None \<Rightarrow>
          let q = \<lparr>aq_adminDID = admin, aq_ch = [], aq_lastDone = 0\<rparr> in (q, set_queue admin q m))"

text \<open>The job is a pointer: \<open>None\<close> is nil.\<close>

definition Enqueue :: "TransferJob option \<Rightarrow> Manager \<Rightarrow> (goerr + unit) \<times> Manager" where
  "Enqueue job m =
     (case job of
        None \<Rightarrow> (Inl (Plain ''queue.Enqueue: job missing admin_did''), m)
      | Some j \<Rightarrow>
          let admin = ti_admin_did (tj_input j) in
          if admin = '''' then (Inl (Plain ''queue.Enqueue: job missing admin_did''), m)
          else
            let (q, m1) = getOrCreate admin m in
            (case chan_send (nat (mgr_bufferSize m)) (aq_ch q) j of
               Some ch \<Rightarrow> (Inr (), set_queue admin (q\<lparr>aq_ch := ch\<rparr>) m1)
             | None \<Rightarrow>
                 (Inl (Wrapped '''' (Sentinel ErrQueueFull)
                    ('': admin='' @ admin @ '' capacity='' @ Itoa (mgr_bufferSize m))), m1)))"

definition Snapshot :: "Manager \<Rightarrow> int \<times> (string \<times> int) list" where
  "Snapshot m =
     (let per = map (\<lambda>(d, q). (d, int (length (aq_ch q)))) (mgr_queues m)
      in (sum_list (map snd per), per))"

text \<open>What \<open>waitForSpacing\<close> asks \<open>sleep\<close> for, if it sleeps.\<close>

definition waitForSpacing :: "Manager \<Rightarrow> adminQueue \<Rightarrow> instant \<Rightarrow> duration option" where
  "waitForSpacing m q now =
     (let interval = IntervalFor m (aq_adminDID q) in
      if interval \<le> 0 \<or> is_zero_time (aq_lastDone q) then None
      else
        let remaining = wrap64 (interval - time_sub now (aq_lastDone q)) in
        if 0 < remaining then Some remaining else None)"

section \<open>One job\<close>

definition mark_processing :: "env \<Rightarrow> ctx \<Rightarrow> TransferJob \<Rightarrow> ('z, unit) netaction" where
  "mark_processing e ctx job =
     UpdateTransferStatus e ctx (tj_request_id job) [(''status'', VStr StatusProcessing)]"

definition failure_updates :: "goerr \<Rightarrow> (string \<times> upd_val) list" where
  "failure_updates err =
     [(''status'', VStr StatusFailed), (''message'', VStr ''reward transfer failed''),
      (''error_details'', VStr (err_text err))]"

definition success_updates :: "string \<Rightarrow> TransferJob \<Rightarrow> TransferRewardResult \<Rightarrow> (string \<times> upd_val) list" where
  "success_updates ftname job res =
     [(''status'', VStr StatusSuccess),
      (''message'', VStr (''transferred '' @ Itoa (rr_reward_points res) @ '' '' @ ftname @ '' to ''
         @ ti_user_did (tj_input job))),
      (''reward_points'', VInt (rr_reward_points res))] @
     (if rr_transaction_id res \<noteq> '''' then [(''transaction_id'', VStr (rr_transaction_id res))] else []) @
     (if rr_contract_hash res \<noteq> '''' then [(''contract_hash'', VStr (rr_contract_hash res))] else [])"

definition record_outcome ::
    "env \<Rightarrow> ctx \<Rightarrow> TransferJob \<Rightarrow> goerr + TransferRewardResult \<Rightarrow> ('z, unit) netaction" where
  "record_outcome e ctx job r w =
     (case r of
        Inl err \<Rightarrow> UpdateTransferStatus e ctx (tj_request_id job) (failure_updates err) w
      | Inr res \<Rightarrow>
          UpdateTransferStatus e ctx (tj_request_id job)
            (success_updates (cfg_FTName (app_env (w_cfg w))) job res) w)"

definition processOne :: "env \<Rightarrow> Manager \<Rightarrow> TransferJob \<Rightarrow> 'z networld_scheme \<Rightarrow> 'z networld_scheme" where
  "processOne e m job w =
     (let ctx = with_timeout None (w_now w) (mgr_procTimeout m);
          (_, w1) = mark_processing e ctx job w;
          (r, w2) = ProcessTransferReward e ctx (tj_input job) w1;
          (_, w3) = record_outcome e ctx job r w2
      in w3)"

section \<open>The manager's invariant\<close>

abbreviation job_admin :: "TransferJob \<Rightarrow> string" where
  "job_admin j \<equiv> ti_admin_did (tj_input j)"

definition queue_ok :: "nat \<Rightarrow> string \<Rightarrow> adminQueue \<Rightarrow> bool" where
  "queue_ok cap d q \<longleftrightarrow>
     aq_adminDID q = d \<and> d \<noteq> '''' \<and> length (aq_ch q) \<le> cap \<and> (\<forall>j \<in> set (aq_ch q). job_admin j = d)"

definition mgr_ok :: "Manager \<Rightarrow> bool" where
  "mgr_ok m \<longleftrightarrow>
     0 < mgr_bufferSize m \<and> 0 < mgr_procTimeout m \<and>
     0 \<le> mgr_minInterval m \<and> in_int64 (mgr_minInterval m) \<and>
     (\<forall>d i. map_of (mgr_adminInterval m) d = Some i \<longrightarrow> 0 \<le> i \<and> in_int64 i) \<and>
     distinct (map fst (mgr_queues m)) \<and>
     (\<forall>d q. map_of (mgr_queues m) d = Some q \<longrightarrow> queue_ok (nat (mgr_bufferSize m)) d q)"

definition queue_of :: "Manager \<Rightarrow> string \<Rightarrow> TransferJob list" where
  "queue_of m d = (case map_of (mgr_queues m) d of None \<Rightarrow> [] | Some q \<Rightarrow> aq_ch q)"

lemma set_queue_simps [simp]:
  "mgr_bufferSize (set_queue d q m) = mgr_bufferSize m"
  "mgr_procTimeout (set_queue d q m) = mgr_procTimeout m"
  "mgr_minInterval (set_queue d q m) = mgr_minInterval m"
  "mgr_adminInterval (set_queue d q m) = mgr_adminInterval m"
  "map_of (mgr_queues (set_queue d q m)) = (map_of (mgr_queues m))(d \<mapsto> q)"
  "IntervalFor (set_queue d q m) = IntervalFor m"
  by (simp_all add: set_queue_def update_conv' IntervalFor_def fun_eq_iff split: option.split)

lemma mgr_ok_set_queue:
  "mgr_ok m \<Longrightarrow> queue_ok (nat (mgr_bufferSize m)) d q \<Longrightarrow> mgr_ok (set_queue d q m)"
  by (auto simp: mgr_ok_def) (simp add: set_queue_def distinct_update)

lemma mgr_ok_NewManager: "mgr_ok (NewManager n t)"
  by (simp add: mgr_ok_def NewManager_def in_int64_def duration_defs)

lemma mgr_ok_SetMinInterval: "mgr_ok m \<Longrightarrow> in_int64 d \<Longrightarrow> mgr_ok (SetMinInterval d m)"
  by (auto simp: mgr_ok_def SetMinInterval_def in_int64_def)

lemma mgr_ok_SetAdminMinInterval: "mgr_ok m \<Longrightarrow> in_int64 d \<Longrightarrow> mgr_ok (SetAdminMinInterval a d m)"
  by (auto simp: mgr_ok_def SetAdminMinInterval_def update_conv' in_int64_def)

lemma IntervalFor_range: "mgr_ok m \<Longrightarrow> 0 \<le> IntervalFor m d \<and> in_int64 (IntervalFor m d)"
  by (auto simp: mgr_ok_def IntervalFor_def split: option.splits)

lemma getOrCreate_ok:
  assumes "getOrCreate d m = (q, m1)" and "mgr_ok m" and "d \<noteq> ''''"
  shows "mgr_ok m1" and "map_of (mgr_queues m1) d = Some q" and "aq_ch q = queue_of m d"
    and "queue_of m1 x = queue_of m x" and "mgr_bufferSize m1 = mgr_bufferSize m"
    and "IntervalFor m1 = IntervalFor m"
    and "map_of (mgr_queues m) d = Some q \<and> m1 = m \<or>
      map_of (mgr_queues m) d = None \<and> aq_lastDone q = 0 \<and> aq_adminDID q = d \<and> m1 = set_queue d q m"
  using assms
  by (auto simp: getOrCreate_def queue_of_def Let_def queue_ok_def intro!: mgr_ok_set_queue
      split: option.splits if_splits)

text \<open>The outcomes of \<open>Enqueue\<close>: refused without a trace, or appended to its admin's queue.\<close>

lemma Enqueue_cases:
  assumes run: "Enqueue (Some j) m = (r, m')" and ok: "mgr_ok m"
  obtains (missing) msg where "job_admin j = ''''" "r = Inl (Plain msg)" "m' = m"
  | (full) err where "job_admin j \<noteq> ''''" "r = Inl err" "errors_Is err ErrQueueFull" "mgr_ok m'"
      "nat (mgr_bufferSize m) \<le> length (queue_of m (job_admin j))"
      "queue_of m' = queue_of m" "snd (getOrCreate (job_admin j) m) = m'"
  | (accepted) q where "job_admin j \<noteq> ''''" "r = Inr ()" "mgr_ok m'"
      "length (queue_of m (job_admin j)) < nat (mgr_bufferSize m)"
      "queue_of m' = (queue_of m)(job_admin j := queue_of m (job_admin j) @ [j])"
      "fst (getOrCreate (job_admin j) m) = q"
      "m' = set_queue (job_admin j) (q\<lparr>aq_ch := aq_ch q @ [j]\<rparr>) (snd (getOrCreate (job_admin j) m))"
proof (cases "job_admin j = ''''")
  case True
  with run missing show ?thesis by (auto simp: Enqueue_def)
next
  case False
  obtain q m1 where g: "getOrCreate (job_admin j) m = (q, m1)" by fastforce
  note g' = getOrCreate_ok [OF g ok False]
  show ?thesis
  proof (cases "chan_send (nat (mgr_bufferSize m)) (aq_ch q) j")
    case None
    then have "nat (mgr_bufferSize m) \<le> length (aq_ch q)" by (rule iffD1 [OF chan.send_None])
    moreover have "queue_of m1 = queue_of m" by (rule ext) (rule g'(4))
    moreover have "r = Inl (Wrapped '''' (Sentinel ErrQueueFull)
        ('': admin='' @ job_admin j @ '' capacity='' @ Itoa (mgr_bufferSize m)))" "m' = m1"
      using run False g None by (simp_all add: Enqueue_def)
    ultimately show ?thesis
      using full [of "Wrapped '''' (Sentinel ErrQueueFull)
        ('': admin='' @ job_admin j @ '' capacity='' @ Itoa (mgr_bufferSize m))"] False g g'(1,3) by simp
  next
    case (Some ch)
    have ch: "ch = aq_ch q @ [j]" "length ch \<le> nat (mgr_bufferSize m)"
      by (rule chan.send_Some [OF Some], rule chan.send_bounded [OF Some])
    have q: "queue_ok (nat (mgr_bufferSize m1)) (job_admin j) q" using g'(1,2) by (auto simp: mgr_ok_def)
    have m': "m' = set_queue (job_admin j) (q\<lparr>aq_ch := ch\<rparr>) m1" and r: "r = Inr ()"
      using run False g Some by (auto simp: Enqueue_def)
    have "mgr_ok m'"
      unfolding m' using q ch g'(5) by (intro mgr_ok_set_queue [OF g'(1)]) (auto simp: queue_ok_def)
    moreover have "queue_of m' = (queue_of m)(job_admin j := queue_of m (job_admin j) @ [j])"
      using g'(3,4) by (auto simp: m' ch fun_eq_iff queue_of_def)
    moreover have "length (queue_of m (job_admin j)) < nat (mgr_bufferSize m)"
      using ch g'(3) by simp
    ultimately show ?thesis using accepted [of q] False r g m' ch by simp
  qed
qed

text \<open>How long a worker waits: what is left of the interval, exactly.\<close>

lemma waitForSpacing_wait:
  assumes ok: "mgr_ok m" and last: "0 < aq_lastDone q" "aq_lastDone q \<le> now"
  shows "case waitForSpacing m q now of
      None \<Rightarrow> aq_lastDone q + IntervalFor m (aq_adminDID q) \<le> now
    | Some d \<Rightarrow> 0 < d \<and> now + d = aq_lastDone q + IntervalFor m (aq_adminDID q)"
proof -
  let ?i = "IntervalFor m (aq_adminDID q)" and ?s = "time_sub now (aq_lastDone q)"
  have i: "0 \<le> ?i" "?i < 2 ^ 63" using IntervalFor_range [OF ok] by (auto simp: in_int64_def)
  have s: "0 \<le> ?s" "?s < 2 ^ 63" using last by (auto simp: time_sub_def)
  have "wrap64 (?i - ?s) = ?i - ?s" using i s by (intro wrap64_id) (simp add: in_int64_def)
  moreover have "?s = now - aq_lastDone q \<or> ?s = 2 ^ 63 - 1 \<and> 2 ^ 63 - 1 \<le> now - aq_lastDone q"
    using last by (auto simp: time_sub_def)
  ultimately show ?thesis
    using i last by (auto simp: waitForSpacing_def is_zero_time_def Let_def)
qed

lemma waitForSpacing_fresh: "aq_lastDone q = 0 \<Longrightarrow> waitForSpacing m q now = None"
  by (simp add: waitForSpacing_def is_zero_time_def)

text \<open>The snapshot counts what the queues hold.\<close>

lemma Snapshot_total: "fst (Snapshot m) = sum_list (map snd (snd (Snapshot m)))"
  by (simp add: Snapshot_def Let_def)

lemma Snapshot_of:
  "map_of (snd (Snapshot m)) d = map_option (\<lambda>q. int (length (aq_ch q))) (map_of (mgr_queues m) d)"
proof -
  have "map_of (map (\<lambda>(d, q). (d, int (length (aq_ch q)))) xs) d =
      map_option (\<lambda>q. int (length (aq_ch q))) (map_of xs d)" for xs
    by (induction xs) auto
  then show ?thesis by (simp add: Snapshot_def Let_def)
qed

section \<open>What one job does\<close>

text \<open>The update maps the worker writes are ones the ledger accepts, and what they leave in a row.\<close>

lemma success_updates_allowed [simp]:
  "success_updates n job res \<noteq> []"
  "list_all encodes (success_updates n job res) = in_int32 (rr_reward_points res)"
  "failure_updates err \<noteq> []" "list_all encodes (failure_updates err)"
  by (auto simp: success_updates_def failure_updates_def)

lemma apply_failure [simp]:
  "tr_status (apply_updates (failure_updates err) t r) = StatusFailed"
  "tr_error_details (apply_updates (failure_updates err) t r) = Some (err_text err)"
  "tr_reward_points (apply_updates (failure_updates err) t r) = tr_reward_points r"
  "tr_transaction_id (apply_updates (failure_updates err) t r) = tr_transaction_id r"
  by (simp_all add: apply_updates_def failure_updates_def)

lemma apply_success [simp]:
  "tr_status (apply_updates (success_updates n job res) t r) = StatusSuccess"
  "tr_reward_points (apply_updates (success_updates n job res) t r) = Some (rr_reward_points res)"
  "tr_transaction_id (apply_updates (success_updates n job res) t r) =
     (if rr_transaction_id res = '''' then tr_transaction_id r else Some (rr_transaction_id res))"
  "tr_contract_hash (apply_updates (success_updates n job res) t r) =
     (if rr_contract_hash res = '''' then tr_contract_hash r else Some (rr_contract_hash res))"
  "tr_error_details (apply_updates (success_updates n job res) t r) = tr_error_details r"
  by (simp_all add: apply_updates_def success_updates_def)

lemma apply_processing [simp]:
  "tr_status (apply_updates [(''status'', VStr s)] t r) = s"
  "tr_reward_points (apply_updates [(''status'', VStr s)] t r) = tr_reward_points r"
  "tr_transaction_id (apply_updates [(''status'', VStr s)] t r) = tr_transaction_id r"
  by (simp_all add: apply_updates_def)

text \<open>An update of the ledger is invisible to every other component.\<close>

lemma UpdateTransferStatus_frame:
  assumes "UpdateTransferStatus e ctx rid us w = (r, w')"
  shows "t_user_admins (w_db w') = t_user_admins (w_db w)" and "t_contracts (w_db w') = t_contracts (w_db w)"
    and "t_activities (w_db w') = t_activities (w_db w)" and "t_admins (w_db w') = t_admins (w_db w)"
    and "t_users (w_db w') = t_users (w_db w)" and "t_tokens (w_db w') = t_tokens (w_db w)"
    and "w_now w \<le> w_now w'" and "w_fresh w' = w_fresh w" and "dbworld.more w' = dbworld.more w"
  using assms by (auto elim!: UpdateTransferStatus_cases)

lemma UpdateTransferStatus_net:
  assumes "UpdateTransferStatus e ctx rid us w = (r, (w' :: 'z networld_scheme))"
  shows "w_sent w' = w_sent w" and "w_cfg w' = w_cfg w" and "pool_ok w' = pool_ok w"
    and "w_pool_timeout w' = w_pool_timeout w"
    and "contract_of w' a k = contract_of w a k" and "points_for w' a ids = points_for w a ids"
    and "registry_ok w' = registry_ok w"
  using UpdateTransferStatus_frame [OF assms] more_fields [of w' w]
  by (simp_all add: pool_ok_def contract_of_def points_for_def registry_ok_def)

lemma UpdateTransferStatus_found:
  assumes "UpdateTransferStatus e ctx rid us w = (r, w')" and "transfer_of w rid = Some row" and "us \<noteq> []"
  shows "transfer_of w' rid =
    Some (if r = Inr () then apply_updates us (w_now w) row else row)"
proof (cases r)
  case (Inl err)
  with UpdateTransferStatus_fail assms show ?thesis by (fastforce simp: transfer_of_def)
next
  case (Inr u)
  with UpdateTransferStatus_row assms show ?thesis by fastforce
qed

lemma UpdateTransferStatus_ok_encodes:
  "UpdateTransferStatus e ctx rid us w = (Inr (), w') \<Longrightarrow> list_all encodes us"
  by (cases "us = []") (auto elim: UpdateTransferStatus_cases)

lemma UpdateTransferStatus_expired:
  "ctx_expired ctx (w_now w) \<Longrightarrow> us \<noteq> [] \<Longrightarrow>
     \<exists>err. UpdateTransferStatus e ctx rid us w = (Inl err, w)"
  by (auto simp: UpdateTransferStatus_def db_stmt_expired split: option.split)

text \<open>\<open>processOne\<close> as its three stages.\<close>

lemma processOne_stages:
  obtains r1 w1 r w2 r3 where
    "mark_processing e (with_timeout None (w_now w) (mgr_procTimeout m)) job w = (r1, w1)"
    "ProcessTransferReward e (with_timeout None (w_now w) (mgr_procTimeout m)) (tj_input job) w1 = (r, w2)"
    "record_outcome e (with_timeout None (w_now w) (mgr_procTimeout m)) job r w2 = (r3, processOne e m job w)"
proof -
  let ?ctx = "with_timeout None (w_now w) (mgr_procTimeout m)"
  obtain r1 w1 where 1: "mark_processing e ?ctx job w = (r1, w1)" by fastforce
  obtain r w2 where 2: "ProcessTransferReward e ?ctx (tj_input job) w1 = (r, w2)" by fastforce
  obtain r3 w3 where 3: "record_outcome e ?ctx job r w2 = (r3, w3)" by fastforce
  show ?thesis using that [OF 1 2] 1 2 3 by (simp add: processOne_def)
qed

lemma record_outcome_update:
  obtains us where "record_outcome e ctx job r w = UpdateTransferStatus e ctx (tj_request_id job) us w"
    "us \<noteq> []" "us = (case r of Inl err \<Rightarrow> failure_updates err
                     | Inr res \<Rightarrow> success_updates (cfg_FTName (app_env (w_cfg w))) job res)"
  by (cases r) (auto simp: record_outcome_def)

lemma ProcessTransferReward_quiet:
  "ProcessTransferReward e ctx i w = (r, w') \<Longrightarrow> pool_ok w \<Longrightarrow> quiet w w' \<and> pool_ok w'"
  by (elim ProcessTransferReward_cases) auto

lemma processOne_frame:
  assumes ok: "pool_ok w"
  shows "pool_ok (processOne e m job w)"
    and "q \<noteq> tj_request_id job \<Longrightarrow> transfer_of (processOne e m job w) q = transfer_of w q"
    and "transfers_ok w \<Longrightarrow> transfers_ok (processOne e m job w)"
    and "w_db (processOne e m job w) = (w_db w)\<lparr>t_transfers := t_transfers (w_db (processOne e m job w))\<rparr>"
    and "prefix (w_sent w) (w_sent (processOne e m job w))"
proof -
  obtain r1 w1 r w2 r3 where
    m: "mark_processing e (with_timeout None (w_now w) (mgr_procTimeout m)) job w = (r1, w1)"
    and p: "ProcessTransferReward e (with_timeout None (w_now w) (mgr_procTimeout m)) (tj_input job) w1 = (r, w2)"
    and o: "record_outcome e (with_timeout None (w_now w) (mgr_procTimeout m)) job r w2 = (r3, processOne e m job w)"
    by (rule processOne_stages)
  obtain us where o': "UpdateTransferStatus e (with_timeout None (w_now w) (mgr_procTimeout m))
      (tj_request_id job) us w2 = (r3, processOne e m job w)"
    using o record_outcome_update by metis
  note m' = m [unfolded mark_processing_def]
  have ok1: "pool_ok w1" using UpdateTransferStatus_net(3) [OF m'] ok by simp
  note q = ProcessTransferReward_quiet [OF p ok1, THEN conjunct1]
  note q' = quietD [OF q] quiet_views [OF q]
  show "pool_ok (processOne e m job w)"
    using UpdateTransferStatus_net(3) [OF o'] ProcessTransferReward_quiet [OF p ok1] by simp
  show "transfer_of (processOne e m job w) q = transfer_of w q" if "q \<noteq> tj_request_id job" for q
    using UpdateTransferStatus_other [OF m' that] UpdateTransferStatus_other [OF o' that] q' by simp
  show "transfers_ok (processOne e m job w)" if "transfers_ok w"
    using UpdateTransferStatus_ok [OF m' that] UpdateTransferStatus_ok [OF o'] q' by simp
  show "w_db (processOne e m job w) = (w_db w)\<lparr>t_transfers := t_transfers (w_db (processOne e m job w))\<rparr>"
    using UpdateTransferStatus_frame [OF m'] UpdateTransferStatus_frame [OF o'] q'(1)
    by (intro db.equality) simp_all
  show "prefix (w_sent w) (w_sent (processOne e m job w))"
    using UpdateTransferStatus_net(1) [OF m'] UpdateTransferStatus_net(1) [OF o'] q'(6) by simp
qed

text \<open>
  The row after one job. It is a success only if the transaction and its signature went out for
  the admin's contract with the sum of the activities; a failure carries the error's text;
  otherwise the outcome could not be written and the row says what marking it left.
\<close>

definition sent_for :: "TransferRewardInput \<Rightarrow> 'z networld_scheme \<Rightarrow> 'z networld_scheme \<Rightarrow> bool" where
  "sent_for i w w' \<longleftrightarrow>
     (\<exists>hash a q.
        contract_of w (ti_admin_did i) KindReward = Some hash \<and>
        AdminByDID (w_cfg w) (ti_admin_did i) = Some a \<and> q \<noteq> '''' \<and>
        w_sent w' = w_sent w @
          [tx_request (NewClient (BaseURL a) (w_pool_timeout w))
             (transfer_tx i hash (points_for w (ti_admin_did i) (ti_activity_ids i))),
           sign_request (NewClient (BaseURL a) (w_pool_timeout w)) q (ac_password a)])"

lemma ProcessTransferReward_sent_for:
  assumes "ProcessTransferReward e ctx i w = (Inr res, w')" and "pool_ok w"
  shows "sent_for i w w'" and "rr_reward_points res = points_for w (ti_admin_did i) (ti_activity_ids i)"
    and "0 < rr_reward_points res" and "contract_of w (ti_admin_did i) KindReward = Some (rr_contract_hash res)"
  using assms by (auto simp: sent_for_def elim!: ProcessTransferReward_cases)

lemma processOne_row:
  assumes ok: "pool_ok w" and row: "transfer_of w (tj_request_id job) = Some r0"
    and w'_def: "w' = processOne e m job w" and i_def: "i = tj_input job"
  obtains (success) r' where "transfer_of w' (tj_request_id job) = Some r'" "tr_status r' = StatusSuccess"
      "tr_reward_points r' = Some (points_for w (ti_admin_did i) (ti_activity_ids i))"
      "0 < points_for w (ti_admin_did i) (ti_activity_ids i)"
      "in_int32 (points_for w (ti_admin_did i) (ti_activity_ids i))" "sent_for i w w'"
  | (failed) r' err where "transfer_of w' (tj_request_id job) = Some r'" "tr_status r' = StatusFailed"
      "tr_error_details r' = Some (err_text err)" "tr_reward_points r' = tr_reward_points r0"
      "tr_transaction_id r' = tr_transaction_id r0"
  | (unrecorded) r' where "transfer_of w' (tj_request_id job) = Some r'"
      "tr_status r' \<in> {StatusProcessing, tr_status r0}" "tr_reward_points r' = tr_reward_points r0"
proof -
  obtain r1 w1 r w2 r3 where
    m: "mark_processing e (with_timeout None (w_now w) (mgr_procTimeout m)) job w = (r1, w1)"
    and p: "ProcessTransferReward e (with_timeout None (w_now w) (mgr_procTimeout m)) i w1 = (r, w2)"
    and o: "record_outcome e (with_timeout None (w_now w) (mgr_procTimeout m)) job r w2 = (r3, w')"
    unfolding w'_def i_def by (rule processOne_stages)
  note m' = m [unfolded mark_processing_def]
  have ok1: "pool_ok w1" using UpdateTransferStatus_net(3) [OF m'] ok by simp
  note q = ProcessTransferReward_quiet [OF p ok1, THEN conjunct1]
  define row1 where "row1 = (if r1 = Inr () then apply_updates [(''status'', VStr StatusProcessing)] (w_now w) r0 else r0)"
  have row1: "transfer_of w2 (tj_request_id job) = Some row1"
    using UpdateTransferStatus_found [OF m' row] quiet_views(6) [OF q] by (simp add: row1_def)
  have st1: "tr_status row1 \<in> {StatusProcessing, tr_status r0}" "tr_reward_points row1 = tr_reward_points r0"
    "tr_transaction_id row1 = tr_transaction_id r0"
    by (simp_all add: row1_def)
  show ?thesis
  proof (cases "r3 = Inr ()")
    case False
    obtain us where us: "UpdateTransferStatus e (with_timeout None (w_now w) (mgr_procTimeout m))
        (tj_request_id job) us w2 = (r3, w')" "us \<noteq> []"
      using o record_outcome_update by metis
    show ?thesis using unrecorded [of row1] UpdateTransferStatus_found [OF us(1) row1 us(2)] False st1 by simp
  next
    case True
    show ?thesis
    proof (cases r)
      case (Inl err)
      with o True have "UpdateTransferStatus e (with_timeout None (w_now w) (mgr_procTimeout m))
        (tj_request_id job) (failure_updates err) w2 = (Inr (), w')" by (simp add: record_outcome_def)
      from UpdateTransferStatus_found [OF this row1] show ?thesis using st1 failed by simp
    next
      case (Inr res)
      with o True have u: "UpdateTransferStatus e (with_timeout None (w_now w) (mgr_procTimeout m))
        (tj_request_id job) (success_updates (cfg_FTName (app_env (w_cfg w2))) job res) w2 = (Inr (), w')"
        by (simp add: record_outcome_def)
      note s = ProcessTransferReward_sent_for [OF p [unfolded Inr] ok1]
      have pts: "rr_reward_points res = points_for w (ti_admin_did i) (ti_activity_ids i)"
        using s(2) UpdateTransferStatus_net(6) [OF m'] by simp
      have "sent_for i w w'"
        using s(1) UpdateTransferStatus_net [OF m'] UpdateTransferStatus_net(1) [OF u]
        by (simp add: sent_for_def)
      with UpdateTransferStatus_found [OF u row1] UpdateTransferStatus_ok_encodes [OF u] pts s(3)
      show ?thesis using success by simp
    qed
  qed
qed

text \<open>
  The outcome update runs under the job's own context: past its deadline it cannot be written,
  and otherwise only a database failure or a sum outside the column's range keeps it out.
\<close>

lemma UpdateTransferStatus_written:
  assumes "\<not> ctx_expired ctx (w_now w)" and "env_dbfault e (w_dbops w) = None"
    and "list_all (\<lambda>u. fst u \<in> set allowed_fields) us" and "list_all encodes us"
    and "transfer_of w rid \<noteq> None"
  shows "fst (UpdateTransferStatus e ctx rid us w) = Inr ()"
proof -
  have "find (\<lambda>u. fst u \<notin> set allowed_fields) us = None"
    using assms(3) by (auto simp: find_None_iff list_all_iff)
  moreover have "rid \<in> tr_request_id ` set (t_transfers (w_db w))"
    using assms(5) by (auto simp: transfer_of_def row_of_None_iff)
  ultimately show ?thesis
    using assms(1,2,4) by (simp add: UpdateTransferStatus_def db_stmt_def Let_def)
qed

lemma updates_allowed [simp]:
  "list_all (\<lambda>u. fst u \<in> set allowed_fields) (success_updates n job res)"
  "list_all (\<lambda>u. fst u \<in> set allowed_fields) (failure_updates err)"
  by (auto simp: success_updates_def failure_updates_def allowed_fields_def)

lemma processOne_late:
  assumes ok: "pool_ok w" and row: "transfer_of w (tj_request_id job) = Some r0"
    and m: "mark_processing e (with_timeout None (w_now w) (mgr_procTimeout m)) job w = (r1, w1)"
    and p: "ProcessTransferReward e (with_timeout None (w_now w) (mgr_procTimeout m)) (tj_input job) w1 = (r, w2)"
    and late: "w_now w + mgr_procTimeout m \<le> w_now w2"
  shows "processOne e m job w = w2"
    and "transfer_of w2 (tj_request_id job) =
      Some (if r1 = Inr () then apply_updates [(''status'', VStr StatusProcessing)] (w_now w) r0 else r0)"
proof -
  let ?ctx = "with_timeout None (w_now w) (mgr_procTimeout m)"
  have "ctx_expired ?ctx (w_now w2)" using late by (simp add: ctx_expired_def with_timeout_def)
  then have "snd (record_outcome e ?ctx job r w2) = w2"
    using UpdateTransferStatus_expired [of ?ctx w2] record_outcome_update [of e ?ctx job r w2]
    by (metis snd_conv)
  then show "processOne e m job w = w2"
    using m p by (auto simp: processOne_def Let_def split: prod.splits)
  have "pool_ok w1" using UpdateTransferStatus_net(3) [OF m [unfolded mark_processing_def]] ok by simp
  from quiet_views(6) [OF ProcessTransferReward_quiet [OF p this, THEN conjunct1]]
  show "transfer_of w2 (tj_request_id job) =
      Some (if r1 = Inr () then apply_updates [(''status'', VStr StatusProcessing)] (w_now w) r0 else r0)"
    using UpdateTransferStatus_found [OF m [unfolded mark_processing_def] row] by simp
qed

lemma processOne_settles:
  assumes ok: "pool_ok w" and row: "transfer_of w (tj_request_id job) = Some r0"
    and db: "\<And>n. env_dbfault e n = None"
    and intime: "w_now (processOne e m job w) < w_now w + mgr_procTimeout m"
    and pts: "in_int32 (points_for w (job_admin job) (ti_activity_ids (tj_input job)))"
  shows "\<exists>r'. transfer_of (processOne e m job w) (tj_request_id job) = Some r' \<and>
    tr_status r' \<in> {StatusSuccess, StatusFailed}"
proof -
  obtain r1 w1 r w2 r3 where
    m: "mark_processing e (with_timeout None (w_now w) (mgr_procTimeout m)) job w = (r1, w1)"
    and p: "ProcessTransferReward e (with_timeout None (w_now w) (mgr_procTimeout m)) (tj_input job) w1 = (r, w2)"
    and o: "record_outcome e (with_timeout None (w_now w) (mgr_procTimeout m)) job r w2 = (r3, processOne e m job w)"
    by (rule processOne_stages)
  let ?ctx = "with_timeout None (w_now w) (mgr_procTimeout m)"
  note m' = m [unfolded mark_processing_def]
  have ok1: "pool_ok w1" using UpdateTransferStatus_net(3) [OF m'] ok by simp
  have row2: "transfer_of w2 (tj_request_id job) =
      Some (if r1 = Inr () then apply_updates [(''status'', VStr StatusProcessing)] (w_now w) r0 else r0)"
    using UpdateTransferStatus_found [OF m' row]
      quiet_views(6) [OF ProcessTransferReward_quiet [OF p ok1, THEN conjunct1]] by simp
  obtain us where us: "record_outcome e ?ctx job r w2 = UpdateTransferStatus e ?ctx (tj_request_id job) us w2"
    "us \<noteq> []" "us = (case r of Inl err \<Rightarrow> failure_updates err
                     | Inr res \<Rightarrow> success_updates (cfg_FTName (app_env (w_cfg w2))) job res)"
    by (rule record_outcome_update)
  have "w_now w2 \<le> w_now (processOne e m job w)" using o us(1) UpdateTransferStatus_frame(7) by metis
  then have live: "\<not> ctx_expired ?ctx (w_now w2)"
    using intime by (simp add: ctx_expired_def with_timeout_def)
  have "list_all encodes us"
    using us(3) pts ProcessTransferReward_sent_for(2) [of e ?ctx "tj_input job" w1 _ w2] p ok1
      UpdateTransferStatus_net(6) [OF m'] by (cases r) auto
  moreover have "list_all (\<lambda>u. fst u \<in> set allowed_fields) us" by (cases r) (simp_all add: us(3))
  ultimately have "r3 = Inr ()"
    using UpdateTransferStatus_written [OF live db, of us "tj_request_id job"] row2 o us(1) by simp
  from UpdateTransferStatus_found [OF o [unfolded us(1)] row2 us(2)] this
  show ?thesis by (cases r) (simp_all add: us(3))
qed

end
