(* ===== verification/Scheduler.thy ===== *)
theory Scheduler
  imports Queue
begin

text \<open>
  The goroutines of \<open>internal/queue/manager.go\<close> as a step relation. A state is the manager, the
  clock, where each admin's worker stands in its loop, and a log of what callers and workers did.
  Callers enqueue at any moment; each worker receives, spaces, runs and finishes on its own; time
  passes between any two steps. How long \<open>m.run\<close> takes is open, as it is in the code, where
  \<open>run\<close> is a field of the manager.
\<close>

section \<open>Steps\<close>

datatype worker_pc = Receiving | Spacing TransferJob | Sleeping TransferJob instant | Running TransferJob

datatype event =
    Accepted TransferJob
  | Rejected TransferJob
  | Started TransferJob instant
  | Finished TransferJob instant

record sched =
  q_mgr :: Manager
  q_now :: instant
  q_pc :: "string \<Rightarrow> worker_pc"
  q_log :: "event list"

definition log_enqueue :: "TransferJob \<Rightarrow> goerr + unit \<Rightarrow> event" where
  "log_enqueue j r = (case r of Inr _ \<Rightarrow> Accepted j | Inl _ \<Rightarrow> Rejected j)"

definition start_job :: "string \<Rightarrow> TransferJob \<Rightarrow> sched \<Rightarrow> sched" where
  "start_job d j s = s\<lparr>q_pc := (q_pc s)(d := Running j), q_log := q_log s @ [Started j (q_now s)]\<rparr>"

definition finish_job :: "string \<Rightarrow> adminQueue \<Rightarrow> TransferJob \<Rightarrow> sched \<Rightarrow> sched" where
  "finish_job d q j s =
     s\<lparr>q_mgr := set_queue d (q\<lparr>aq_lastDone := q_now s\<rparr>) (q_mgr s), q_pc := (q_pc s)(d := Receiving),
       q_log := q_log s @ [Finished j (q_now s)]\<rparr>"

definition receive_job :: "string \<Rightarrow> adminQueue \<Rightarrow> TransferJob \<Rightarrow> TransferJob list \<Rightarrow> sched \<Rightarrow> sched" where
  "receive_job d q j rest s =
     s\<lparr>q_mgr := set_queue d (q\<lparr>aq_ch := rest\<rparr>) (q_mgr s), q_pc := (q_pc s)(d := Spacing j)\<rparr>"

inductive qstep :: "sched \<Rightarrow> sched \<Rightarrow> bool" where
  enqueue: "Enqueue (Some j) (q_mgr s) = (r, m') \<Longrightarrow>
     qstep s (s\<lparr>q_mgr := m', q_log := q_log s @ [log_enqueue j r]\<rparr>)"
| receive: "map_of (mgr_queues (q_mgr s)) d = Some q \<Longrightarrow> q_pc s d = Receiving \<Longrightarrow>
     chan_recv (aq_ch q) = Some (j, rest) \<Longrightarrow> qstep s (receive_job d q j rest s)"
| sleep: "map_of (mgr_queues (q_mgr s)) d = Some q \<Longrightarrow> q_pc s d = Spacing j \<Longrightarrow>
     waitForSpacing (q_mgr s) q (q_now s) = Some rem \<Longrightarrow>
     qstep s (s\<lparr>q_pc := (q_pc s)(d := Sleeping j (q_now s + rem))\<rparr>)"
| start: "map_of (mgr_queues (q_mgr s)) d = Some q \<Longrightarrow> q_pc s d = Spacing j \<Longrightarrow>
     waitForSpacing (q_mgr s) q (q_now s) = None \<Longrightarrow> qstep s (start_job d j s)"
| wake: "q_pc s d = Sleeping j t \<Longrightarrow> t \<le> q_now s \<Longrightarrow> qstep s (start_job d j s)"
| finish: "map_of (mgr_queues (q_mgr s)) d = Some q \<Longrightarrow> q_pc s d = Running j \<Longrightarrow>
     qstep s (finish_job d q j s)"
| tick: "q_now s \<le> t \<Longrightarrow> qstep s (s\<lparr>q_now := t\<rparr>)"

text \<open>\<open>main\<close> builds the manager and sets the intervals before the first \<open>Enqueue\<close>.\<close>

definition configured :: "int \<Rightarrow> duration \<Rightarrow> duration \<Rightarrow> (string \<times> duration) list \<Rightarrow> Manager" where
  "configured bufferSize procTimeout interval overrides =
     fold (\<lambda>(d, i). SetAdminMinInterval d i) overrides
       (SetMinInterval interval (NewManager bufferSize procTimeout))"

definition qinit :: "sched \<Rightarrow> bool" where
  "qinit s \<longleftrightarrow>
     (\<exists>n t i os. in_int64 i \<and> (\<forall>x \<in> set os. in_int64 (snd x)) \<and> q_mgr s = configured n t i os) \<and>
     0 < q_now s \<and> q_pc s = (\<lambda>_. Receiving) \<and> q_log s = []"

section \<open>What the log says of one admin\<close>

fun accepted :: "string \<Rightarrow> event list \<Rightarrow> TransferJob list" where
  "accepted d [] = []"
| "accepted d (Accepted j # es) = (if job_admin j = d then j # accepted d es else accepted d es)"
| "accepted d (_ # es) = accepted d es"

fun started :: "string \<Rightarrow> event list \<Rightarrow> TransferJob list" where
  "started d [] = []"
| "started d (Started j t # es) = (if job_admin j = d then j # started d es else started d es)"
| "started d (_ # es) = started d es"

fun finished :: "string \<Rightarrow> event list \<Rightarrow> TransferJob list" where
  "finished d [] = []"
| "finished d (Finished j t # es) = (if job_admin j = d then j # finished d es else finished d es)"
| "finished d (_ # es) = finished d es"

lemma log_append:
  "accepted d (es @ fs) = accepted d es @ accepted d fs"
  "started d (es @ fs) = started d es @ started d fs"
  "finished d (es @ fs) = finished d es @ finished d fs"
  by (induction es rule: accepted.induct) auto

text \<open>The job a worker has taken off the channel and not started, and the one it runs.\<close>

fun taken :: "worker_pc \<Rightarrow> TransferJob list" where
  "taken (Spacing j) = [j]"
| "taken (Sleeping j t) = [j]"
| "taken _ = []"

fun running :: "worker_pc \<Rightarrow> TransferJob list" where
  "running (Running j) = [j]"
| "running _ = []"

text \<open>A start comes no sooner than the interval after every earlier finish of the same admin.\<close>

definition start_ok :: "(string \<Rightarrow> duration) \<Rightarrow> event list \<Rightarrow> event \<Rightarrow> bool" where
  "start_ok f es e =
     (case e of
        Started j t \<Rightarrow>
          (\<forall>j' u. Finished j' u \<in> set es \<and> job_admin j' = job_admin j \<longrightarrow> u + f (job_admin j) \<le> t)
      | _ \<Rightarrow> True)"

definition spaced :: "(string \<Rightarrow> duration) \<Rightarrow> event list \<Rightarrow> bool" where
  "spaced f es \<longleftrightarrow> (\<forall>xs e ys. es = xs @ e # ys \<longrightarrow> start_ok f xs e)"

lemma spaced_Nil [simp]: "spaced f []"
  by (simp add: spaced_def)

lemma spaced_snoc: "spaced f (es @ [e]) \<longleftrightarrow> spaced f es \<and> start_ok f es e"
proof
  assume L: "spaced f (es @ [e])"
  have "start_ok f xs y" if "es = xs @ y # ys" for xs y ys
    using L that unfolding spaced_def by (metis append.assoc append_Cons)
  moreover have "start_ok f es e" using L unfolding spaced_def by blast
  ultimately show "spaced f es \<and> start_ok f es e" by (simp add: spaced_def)
next
  assume R: "spaced f es \<and> start_ok f es e"
  have "start_ok f xs y" if "es @ [e] = xs @ y # ys" for xs y ys
    using R that by (cases ys rule: rev_cases) (auto simp: spaced_def)
  then show "spaced f (es @ [e])" by (simp add: spaced_def)
qed

lemma start_ok_simps [simp]:
  "start_ok f es (Accepted j)" "start_ok f es (Rejected j)" "start_ok f es (Finished j t)"
  by (simp_all add: start_ok_def)

section \<open>The invariant\<close>

definition admin_ok :: "sched \<Rightarrow> string \<Rightarrow> bool" where
  "admin_ok s d \<longleftrightarrow>
     accepted d (q_log s) = started d (q_log s) @ taken (q_pc s d) @ queue_of (q_mgr s) d \<and>
     started d (q_log s) = finished d (q_log s) @ running (q_pc s d) \<and>
     (\<forall>j \<in> set (taken (q_pc s d) @ running (q_pc s d)). job_admin j = d) \<and>
     (map_of (mgr_queues (q_mgr s)) d = None \<longrightarrow> q_pc s d = Receiving \<and> accepted d (q_log s) = []) \<and>
     (\<forall>q. map_of (mgr_queues (q_mgr s)) d = Some q \<longrightarrow>
        0 \<le> aq_lastDone q \<and> aq_lastDone q \<le> q_now s \<and>
        (\<forall>j u. Finished j u \<in> set (q_log s) \<and> job_admin j = d \<longrightarrow> 0 < u \<and> u \<le> aq_lastDone q) \<and>
        (\<forall>j t. q_pc s d = Sleeping j t \<longrightarrow> aq_lastDone q + IntervalFor (q_mgr s) d \<le> t))"

definition qinv :: "sched \<Rightarrow> bool" where
  "qinv s \<longleftrightarrow> mgr_ok (q_mgr s) \<and> 0 < q_now s \<and> (\<forall>d. admin_ok s d) \<and>
     spaced (IntervalFor (q_mgr s)) (q_log s)"

lemma configured_ok:
  assumes "in_int64 i" and "\<forall>x \<in> set os. in_int64 (snd x)"
  shows "mgr_ok (configured n t i os)" and "mgr_queues (configured n t i os) = []"
    and "mgr_bufferSize (configured n t i os) = (if n \<le> 0 then 1000 else n)"
proof -
  have "mgr_ok m \<and> (\<forall>x \<in> set os. in_int64 (snd x)) \<longrightarrow> mgr_ok (fold (\<lambda>(d, i). SetAdminMinInterval d i) os m)" for m
    by (induction os arbitrary: m) (auto simp: mgr_ok_SetAdminMinInterval)
  then show "mgr_ok (configured n t i os)"
    using assms by (simp add: configured_def mgr_ok_NewManager mgr_ok_SetMinInterval)
  have frame: "mgr_queues (fold (\<lambda>(d, i). SetAdminMinInterval d i) os m) = mgr_queues m \<and>
      mgr_bufferSize (fold (\<lambda>(d, i). SetAdminMinInterval d i) os m) = mgr_bufferSize m" for m
    by (induction os arbitrary: m) (auto simp: SetAdminMinInterval_def)
  show "mgr_queues (configured n t i os) = []"
    and "mgr_bufferSize (configured n t i os) = (if n \<le> 0 then 1000 else n)"
    by (simp_all add: configured_def frame SetMinInterval_def NewManager_def)
qed

lemma qinit_qinv: "qinit s \<Longrightarrow> qinv s"
  by (auto simp: qinit_def qinv_def admin_ok_def configured_ok queue_of_def)

lemma Finished_in: "Finished j u \<in> set es \<Longrightarrow> j \<in> set (finished (job_admin j) es)"
proof (induction es)
  case (Cons e es)
  then show ?case by (cases e) auto
qed simp

lemma admin_okI:
  assumes "accepted d (q_log s) = started d (q_log s) @ taken (q_pc s d) @ queue_of (q_mgr s) d"
    and "started d (q_log s) = finished d (q_log s) @ running (q_pc s d)"
    and "\<And>j. j \<in> set (taken (q_pc s d) @ running (q_pc s d)) \<Longrightarrow> job_admin j = d"
    and "map_of (mgr_queues (q_mgr s)) d = None \<Longrightarrow> q_pc s d = Receiving \<and> accepted d (q_log s) = []"
    and "\<And>q. map_of (mgr_queues (q_mgr s)) d = Some q \<Longrightarrow> 0 \<le> aq_lastDone q \<and> aq_lastDone q \<le> q_now s"
    and "\<And>q j u. map_of (mgr_queues (q_mgr s)) d = Some q \<Longrightarrow> Finished j u \<in> set (q_log s) \<Longrightarrow>
        job_admin j = d \<Longrightarrow> 0 < u \<and> u \<le> aq_lastDone q"
    and "\<And>q j t. map_of (mgr_queues (q_mgr s)) d = Some q \<Longrightarrow> q_pc s d = Sleeping j t \<Longrightarrow>
        aq_lastDone q + IntervalFor (q_mgr s) d \<le> t"
  shows "admin_ok s d"
  using assms unfolding admin_ok_def by blast

lemma admin_okD:
  assumes "admin_ok s d"
  shows "accepted d (q_log s) = started d (q_log s) @ taken (q_pc s d) @ queue_of (q_mgr s) d"
    and "started d (q_log s) = finished d (q_log s) @ running (q_pc s d)"
    and "\<And>j. j \<in> set (taken (q_pc s d) @ running (q_pc s d)) \<Longrightarrow> job_admin j = d"
    and "map_of (mgr_queues (q_mgr s)) d = None \<Longrightarrow> q_pc s d = Receiving \<and> accepted d (q_log s) = []"
    and "\<And>q. map_of (mgr_queues (q_mgr s)) d = Some q \<Longrightarrow>
        0 \<le> aq_lastDone q \<and> aq_lastDone q \<le> q_now s \<and>
        (\<forall>j u. Finished j u \<in> set (q_log s) \<and> job_admin j = d \<longrightarrow> 0 < u \<and> u \<le> aq_lastDone q) \<and>
        (\<forall>j t. q_pc s d = Sleeping j t \<longrightarrow> aq_lastDone q + IntervalFor (q_mgr s) d \<le> t)"
  using assms unfolding admin_ok_def by blast+

text \<open>A step that concerns one admin leaves every other admin's part of the invariant as it is.\<close>

lemma admin_ok_cong:
  assumes "admin_ok s d"
    and "accepted d (q_log s') = accepted d (q_log s)" and "started d (q_log s') = started d (q_log s)"
    and "finished d (q_log s') = finished d (q_log s)" and "q_pc s' d = q_pc s d"
    and "map_of (mgr_queues (q_mgr s')) d = map_of (mgr_queues (q_mgr s)) d"
    and "IntervalFor (q_mgr s') = IntervalFor (q_mgr s)" and "q_now s \<le> q_now s'"
    and "\<And>j u. Finished j u \<in> set (q_log s') \<Longrightarrow> job_admin j = d \<Longrightarrow> Finished j u \<in> set (q_log s)"
  shows "admin_ok s' d"
proof -
  note a = admin_okD [OF assms(1)]
  show ?thesis
  proof (rule admin_okI)
    show "accepted d (q_log s') = started d (q_log s') @ taken (q_pc s' d) @ queue_of (q_mgr s') d"
      using a(1) by (simp add: assms(2-6) queue_of_def)
    show "started d (q_log s') = finished d (q_log s') @ running (q_pc s' d)"
      using a(2) by (simp add: assms(3-5))
    show "j \<in> set (taken (q_pc s' d) @ running (q_pc s' d)) \<Longrightarrow> job_admin j = d" for j
      using a(3) by (simp add: assms(5))
    show "map_of (mgr_queues (q_mgr s')) d = None \<Longrightarrow> q_pc s' d = Receiving \<and> accepted d (q_log s') = []"
      using a(4) by (simp add: assms(2,5,6))
  next
    fix q assume "map_of (mgr_queues (q_mgr s')) d = Some q"
    then have q: "map_of (mgr_queues (q_mgr s)) d = Some q" by (simp add: assms(6))
    note l = a(5) [OF q]
    show "0 \<le> aq_lastDone q \<and> aq_lastDone q \<le> q_now s'" using l assms(8) by linarith
    show "Finished j u \<in> set (q_log s') \<Longrightarrow> job_admin j = d \<Longrightarrow> 0 < u \<and> u \<le> aq_lastDone q" for j u
      using l assms(9) by blast
    show "q_pc s' d = Sleeping j t \<Longrightarrow> aq_lastDone q + IntervalFor (q_mgr s') d \<le> t" for j t
      using l by (simp add: assms(5,7))
  qed
qed

lemma qinvD:
  assumes "qinv s"
  shows "mgr_ok (q_mgr s)" "0 < q_now s" "admin_ok s d" "spaced (IntervalFor (q_mgr s)) (q_log s)"
  using assms by (simp_all add: qinv_def)

lemma queue_of_Some: "map_of (mgr_queues m) d = Some q \<Longrightarrow> queue_of m d = aq_ch q"
  by (simp add: queue_of_def)

lemma mgr_okD: "mgr_ok m \<Longrightarrow> map_of (mgr_queues m) d = Some q \<Longrightarrow> queue_ok (nat (mgr_bufferSize m)) d q"
  by (simp add: mgr_ok_def)

lemma qinv_receive:
  assumes inv: "qinv s" and q: "map_of (mgr_queues (q_mgr s)) d = Some q" and pc: "q_pc s d = Receiving"
    and ch: "chan_recv (aq_ch q) = Some (j, rest)"
  shows "qinv (receive_job d q j rest s)"
proof -
  note ok = qinvD [OF inv] and c = chan.recv_Some [OF ch]
  note qok = mgr_okD [OF ok(1) q]
  have "mgr_ok (set_queue d (q\<lparr>aq_ch := rest\<rparr>) (q_mgr s))"
    using qok c by (intro mgr_ok_set_queue ok(1)) (auto simp: queue_ok_def)
  moreover have "admin_ok (receive_job d q j rest s) x" for x
  proof (cases "x = d")
    case True
    note a = admin_okD [OF ok(3) [of d]]
    show ?thesis
      using a(1,2,5) pc q qok c queue_of_Some [OF q]
      by (auto simp: True admin_ok_def receive_job_def queue_of_def queue_ok_def)
  next
    case False
    then show ?thesis by (intro admin_ok_cong [OF ok(3)]) (auto simp: receive_job_def)
  qed
  ultimately show ?thesis using ok(2,4) by (simp add: qinv_def receive_job_def)
qed

lemma qinv_sleep:
  assumes inv: "qinv s" and q: "map_of (mgr_queues (q_mgr s)) d = Some q" and pc: "q_pc s d = Spacing j"
    and w: "waitForSpacing (q_mgr s) q (q_now s) = Some rem"
  shows "qinv (s\<lparr>q_pc := (q_pc s)(d := Sleeping j (q_now s + rem))\<rparr>)"
proof -
  note ok = qinvD [OF inv] and a = admin_okD [OF qinvD(3) [OF inv, of d]]
  have "aq_adminDID q = d" using mgr_okD [OF ok(1) q] by (simp add: queue_ok_def)
  moreover have "aq_lastDone q \<noteq> 0" using w waitForSpacing_fresh [of q] by fastforce
  then have "0 < aq_lastDone q" "aq_lastDone q \<le> q_now s" using a(5) [OF q] by auto
  ultimately have t: "aq_lastDone q + IntervalFor (q_mgr s) d \<le> q_now s + rem"
    using waitForSpacing_wait [OF ok(1), of q "q_now s"] w by simp
  have "admin_ok (s\<lparr>q_pc := (q_pc s)(d := Sleeping j (q_now s + rem))\<rparr>) x" for x
  proof (cases "x = d")
    case True
    show ?thesis using a pc q t by (auto simp: True admin_ok_def)
  next
    case False
    then show ?thesis by (intro admin_ok_cong [OF ok(3)]) auto
  qed
  then show ?thesis using ok by (simp add: qinv_def)
qed

text \<open>A job starts with the interval behind it, whether the worker slept or not.\<close>

lemma qinv_start:
  assumes inv: "qinv s" and q: "map_of (mgr_queues (q_mgr s)) d = Some q"
    and pc: "taken (q_pc s d) = [j]" "running (q_pc s d) = []"
    and gap: "aq_lastDone q = 0 \<or> aq_lastDone q + IntervalFor (q_mgr s) d \<le> q_now s"
  shows "qinv (start_job d j s)"
proof -
  note ok = qinvD [OF inv] and a = admin_okD [OF qinvD(3) [OF inv, of d]]
  have j: "job_admin j = d" using a(3) [of j] pc by simp
  have "start_ok (IntervalFor (q_mgr s)) (q_log s) (Started j (q_now s))"
    using a(5) [OF q] gap by (fastforce simp: start_ok_def j)
  moreover have "admin_ok (start_job d j s) x" for x
  proof (cases "x = d")
    case True
    show ?thesis using a(1,2,5) pc q j by (auto simp: True admin_ok_def start_job_def log_append queue_of_def)
  next
    case False
    then show ?thesis using j by (intro admin_ok_cong [OF ok(3)]) (auto simp: start_job_def log_append)
  qed
  ultimately show ?thesis using ok by (simp add: qinv_def start_job_def spaced_snoc)
qed

lemma qinv_finish:
  assumes inv: "qinv s" and q: "map_of (mgr_queues (q_mgr s)) d = Some q" and pc: "q_pc s d = Running j"
  shows "qinv (finish_job d q j s)" (is "qinv ?s")
proof -
  note ok = qinvD [OF inv] and a = admin_okD [OF qinvD(3) [OF inv, of d]]
  have j: "job_admin j = d" using a(3) [of j] pc by simp
  have "mgr_ok (set_queue d (q\<lparr>aq_lastDone := q_now s\<rparr>) (q_mgr s))"
    using mgr_okD [OF ok(1) q] by (intro mgr_ok_set_queue ok(1)) (auto simp: queue_ok_def)
  moreover have "admin_ok (finish_job d q j s) x" for x
  proof (cases "x = d")
    case True
    have last: "0 < u \<and> u \<le> q_now s" if "Finished j' u \<in> set (q_log s)" "job_admin j' = d" for j' u
      using a(5) [OF q] that by force
    show ?thesis
      unfolding True
    proof (rule admin_okI)
      show "accepted d (q_log ?s) = started d (q_log ?s) @ taken (q_pc ?s d) @ queue_of (q_mgr ?s) d"
        using a(1) pc by (simp add: finish_job_def log_append queue_of_def q)
      show "started d (q_log ?s) = finished d (q_log ?s) @ running (q_pc ?s d)"
        using a(2) pc j by (simp add: finish_job_def log_append)
    next
      fix q' assume "map_of (mgr_queues (q_mgr ?s)) d = Some q'"
      then have l: "aq_lastDone q' = q_now s" by (auto simp: finish_job_def)
      show "0 \<le> aq_lastDone q' \<and> aq_lastDone q' \<le> q_now ?s" using ok(2) by (simp add: l finish_job_def)
      show "0 < u \<and> u \<le> aq_lastDone q'" if "Finished j' u \<in> set (q_log ?s)" "job_admin j' = d" for j' u
        using that last [of j' u] ok(2) by (auto simp: l finish_job_def)
    qed (simp_all add: finish_job_def)
  next
    case False
    then show ?thesis using j by (intro admin_ok_cong [OF ok(3)]) (auto simp: finish_job_def log_append)
  qed
  ultimately show ?thesis using ok(2,4) by (simp add: qinv_def finish_job_def spaced_snoc)
qed

lemma qinv_tick: "qinv s \<Longrightarrow> q_now s \<le> t \<Longrightarrow> qinv (s\<lparr>q_now := t\<rparr>)"
proof -
  assume inv: "qinv s" and t: "q_now s \<le> t"
  have "admin_ok (s\<lparr>q_now := t\<rparr>) d" for d
    by (rule admin_ok_cong [OF qinvD(3) [OF inv]]) (simp_all add: t)
  with inv t show ?thesis by (simp add: qinv_def)
qed

text \<open>The admin of an accepted job: its history and queue grow by the job, nothing else changes.\<close>

lemma admin_ok_accepted:
  assumes inv: "qinv s" and d: "job_admin j = d" and g: "getOrCreate d (q_mgr s) = (q, m1)" "d \<noteq> ''''"
    and m': "map_of (mgr_queues m') d = Some (q\<lparr>aq_ch := aq_ch q @ [j]\<rparr>)" "IntervalFor m' = IntervalFor (q_mgr s)"
      "queue_of m' d = queue_of (q_mgr s) d @ [j]"
  shows "admin_ok (s\<lparr>q_mgr := m', q_log := q_log s @ [Accepted j]\<rparr>) d" (is "admin_ok ?s d")
proof -
  note ok = qinvD [OF inv] and a = admin_okD [OF qinvD(3) [OF inv, of d]]
  have old: "map_of (mgr_queues (q_mgr s)) d = Some q \<or> map_of (mgr_queues (q_mgr s)) d = None \<and> aq_lastDone q = 0"
    using getOrCreate_ok(7) [OF g(1) ok(1) g(2)] by auto
  have none: "Finished j' u \<notin> set (q_log s)" if "map_of (mgr_queues (q_mgr s)) d = None" "job_admin j' = d" for j' u
    using a(1,2) a(4) [OF that(1)] Finished_in [of j' u "q_log s"] that(2) by auto
  have pc: "map_of (mgr_queues (q_mgr s)) d = None \<Longrightarrow> q_pc s d = Receiving" using a(4) by blast
  show ?thesis
  proof (rule admin_okI)
    show "accepted d (q_log ?s) = started d (q_log ?s) @ taken (q_pc ?s d) @ queue_of (q_mgr ?s) d"
      using a(1) m'(3) d by (simp add: log_append)
    show "started d (q_log ?s) = finished d (q_log ?s) @ running (q_pc ?s d)"
      using a(2) by (simp add: log_append)
    show "job_admin j' = d" if "j' \<in> set (taken (q_pc ?s d) @ running (q_pc ?s d))" for j'
      using a(3) [of j'] that by simp
  next
    fix q' assume "map_of (mgr_queues (q_mgr ?s)) d = Some q'"
    then have l: "aq_lastDone q' = aq_lastDone q" using m'(1) by auto
    show "0 \<le> aq_lastDone q' \<and> aq_lastDone q' \<le> q_now ?s" using old a(5) ok(2) by (auto simp: l)
    show "0 < u \<and> u \<le> aq_lastDone q'" if "Finished j' u \<in> set (q_log ?s)" "job_admin j' = d" for j' u
      using old a(5) none that by (auto simp: l)
    show "aq_lastDone q' + IntervalFor (q_mgr ?s) d \<le> t" if "q_pc ?s d = Sleeping j' t" for j' t
      using old a(5) pc that by (auto simp: l m'(2))
  qed (simp add: m'(1))
qed

lemma qinv_enqueue:
  assumes inv: "qinv s" and run: "Enqueue (Some j) (q_mgr s) = (r, m')"
  shows "qinv (s\<lparr>q_mgr := m', q_log := q_log s @ [log_enqueue j r]\<rparr>)" (is "qinv ?s")
proof -
  note ok = qinvD [OF inv]
  let ?d = "job_admin j"
  from run ok(1) show ?thesis
  proof (cases rule: Enqueue_cases)
    case (missing msg)
    have "admin_ok ?s x" for x
      using missing by (intro admin_ok_cong [OF ok(3)]) (auto simp: log_enqueue_def log_append)
    with missing ok show ?thesis by (simp add: qinv_def log_enqueue_def spaced_snoc)
  next
    case (full err)
    have "queue_of (q_mgr s) ?d \<noteq> []" using full(5) ok(1) by (auto simp: mgr_ok_def)
    then have "m' = q_mgr s"
      using full(7) by (auto simp: queue_of_def getOrCreate_def split: option.splits)
    moreover have "admin_ok (s\<lparr>q_log := q_log s @ [Rejected j]\<rparr>) x" for x
      by (intro admin_ok_cong [OF ok(3)]) (auto simp: log_append)
    ultimately show ?thesis using full(2) ok by (simp add: qinv_def log_enqueue_def spaced_snoc)
  next
    case (accepted q)
    obtain m1 where g: "getOrCreate ?d (q_mgr s) = (q, m1)" using accepted(6) by (cases "getOrCreate ?d (q_mgr s)") auto
    note g' = getOrCreate_ok [OF g ok(1) accepted(1)]
    have m': "map_of (mgr_queues m') x =
        (if x = ?d then Some (q\<lparr>aq_ch := aq_ch q @ [j]\<rparr>) else map_of (mgr_queues (q_mgr s)) x)"
      and i: "IntervalFor m' = IntervalFor (q_mgr s)" for x
      using accepted(7) g g'(6,7) by auto
    have l: "log_enqueue j r = Accepted j" using accepted(2) by (simp add: log_enqueue_def)
    have "admin_ok ?s x" for x
    proof (cases "x = ?d")
      case True
      show ?thesis
        unfolding True l by (rule admin_ok_accepted [OF inv refl g accepted(1)]) (use m' i accepted(5) in simp_all)
    next
      case False
      then show ?thesis using m' i by (intro admin_ok_cong [OF ok(3)]) (auto simp: l log_append)
    qed
    then show ?thesis using accepted(3) ok i by (simp add: qinv_def l spaced_snoc)
  qed
qed

lemma qinv_qstep:
  assumes inv: "qinv s" and step: "qstep s s'"
  shows "qinv s'"
  using step
proof cases
  case (start d q j)
  note ok = qinvD [OF inv] and a = admin_okD [OF qinvD(3) [OF inv, of d]]
  have "aq_adminDID q = d" using mgr_okD [OF ok(1) start(2)] by (simp add: queue_ok_def)
  then have "aq_lastDone q = 0 \<or> aq_lastDone q + IntervalFor (q_mgr s) d \<le> q_now s"
    using a(5) [OF start(2)] waitForSpacing_wait [OF ok(1), of q "q_now s"] start(4) by fastforce
  with start qinv_start [OF inv start(2)] show ?thesis by simp
next
  case (wake d j t)
  note a = admin_okD [OF qinvD(3) [OF inv, of d]]
  obtain q where q: "map_of (mgr_queues (q_mgr s)) d = Some q" using a(4) wake by fastforce
  then have "aq_lastDone q + IntervalFor (q_mgr s) d \<le> q_now s" using a(5) [OF q] wake by fastforce
  with wake qinv_start [OF inv q] show ?thesis by simp
qed (use inv in \<open>auto intro: qinv_enqueue qinv_receive qinv_sleep qinv_finish qinv_tick\<close>)

interpretation scheduler: invariant_system qinit qstep qinv
  by unfold_locales (auto intro: qinit_qinv qinv_qstep)

section \<open>Running the steps\<close>

text \<open>
  The relation as a partial function of what happens next, so that a schedule can be computed;
  the two agree.
\<close>

datatype action = DoEnqueue TransferJob | DoReceive string | DoSpace string | DoWake string
  | DoFinish string | DoTick instant

fun do_step :: "action \<Rightarrow> sched \<Rightarrow> sched option" where
  "do_step (DoEnqueue j) s =
     (let (r, m') = Enqueue (Some j) (q_mgr s)
      in Some (s\<lparr>q_mgr := m', q_log := q_log s @ [log_enqueue j r]\<rparr>))"
| "do_step (DoReceive d) s =
     (case (map_of (mgr_queues (q_mgr s)) d, q_pc s d) of
        (Some q, Receiving) \<Rightarrow>
          (case chan_recv (aq_ch q) of None \<Rightarrow> None | Some (j, rest) \<Rightarrow> Some (receive_job d q j rest s))
      | _ \<Rightarrow> None)"
| "do_step (DoSpace d) s =
     (case (map_of (mgr_queues (q_mgr s)) d, q_pc s d) of
        (Some q, Spacing j) \<Rightarrow>
          (case waitForSpacing (q_mgr s) q (q_now s) of
             Some rem \<Rightarrow> Some (s\<lparr>q_pc := (q_pc s)(d := Sleeping j (q_now s + rem))\<rparr>)
           | None \<Rightarrow> Some (start_job d j s))
      | _ \<Rightarrow> None)"
| "do_step (DoWake d) s =
     (case q_pc s d of Sleeping j t \<Rightarrow> if t \<le> q_now s then Some (start_job d j s) else None | _ \<Rightarrow> None)"
| "do_step (DoFinish d) s =
     (case (map_of (mgr_queues (q_mgr s)) d, q_pc s d) of
        (Some q, Running j) \<Rightarrow> Some (finish_job d q j s)
      | _ \<Rightarrow> None)"
| "do_step (DoTick t) s = (if q_now s \<le> t then Some (s\<lparr>q_now := t\<rparr>) else None)"

fun do_steps :: "action list \<Rightarrow> sched \<Rightarrow> sched option" where
  "do_steps [] s = Some s"
| "do_steps (a # as) s = Option.bind (do_step a s) (do_steps as)"

lemma do_step_sound: "do_step a s = Some s' \<Longrightarrow> qstep s s'"
  by (cases a) (auto simp: Let_def split: prod.splits option.splits worker_pc.splits if_splits intro: qstep.intros)

lemma do_step_complete: "qstep s s' \<Longrightarrow> \<exists>a. do_step a s = Some s'"
proof (induction rule: qstep.cases)
  case (enqueue j s r m')
  then show ?case by (intro exI [of _ "DoEnqueue j"]) simp
next
  case (receive s d q j rest)
  then show ?case by (intro exI [of _ "DoReceive d"]) simp
next
  case (sleep s d q j rem)
  then show ?case by (intro exI [of _ "DoSpace d"]) simp
next
  case (start s d q j)
  then show ?case by (intro exI [of _ "DoSpace d"]) simp
next
  case (wake s d j t)
  then show ?case by (intro exI [of _ "DoWake d"]) simp
next
  case (finish s d q j)
  then show ?case by (intro exI [of _ "DoFinish d"]) simp
next
  case (tick s t)
  then show ?case by (intro exI [of _ "DoTick t"]) simp
qed

lemma do_steps_reach: "reach init qstep s \<Longrightarrow> do_steps as s = Some s' \<Longrightarrow> reach init qstep s'"
proof (induction as arbitrary: s)
  case (Cons a as)
  then obtain t where "do_step a s = Some t" "do_steps as t = Some s'" by (auto split: bind_splits)
  with Cons reach_step [OF Cons(2) do_step_sound] show ?case by blast
qed simp

section \<open>Progress\<close>

text \<open>What the steps of one admin's worker leave alone: every other admin, and what was accepted.\<close>

definition only :: "string \<Rightarrow> sched \<Rightarrow> sched \<Rightarrow> bool" where
  "only d s s' \<longleftrightarrow>
     (\<forall>x. accepted x (q_log s') = accepted x (q_log s)) \<and>
     (\<forall>x. x \<noteq> d \<longrightarrow> q_pc s' x = q_pc s x \<and> queue_of (q_mgr s') x = queue_of (q_mgr s) x \<and>
        finished x (q_log s') = finished x (q_log s))"

lemma only_refl: "only d s s"
  by (simp add: only_def)

lemma only_trans: "only d s t \<Longrightarrow> only d t u \<Longrightarrow> only d s u"
  by (simp add: only_def)

definition serves :: "string \<Rightarrow> sched \<Rightarrow> sched \<Rightarrow> bool" where
  "serves d s s' \<longleftrightarrow> steps qstep s s' \<and> only d s s' \<and> qinv s'"

lemma serves_trans: "serves d s t \<Longrightarrow> serves d t u \<Longrightarrow> serves d s u"
proof -
  assume a: "serves d s t" and b: "serves d t u"
  have "steps qstep s u" by (rule steps_trans [of _ t]) (use a b in \<open>simp_all add: serves_def\<close>)
  moreover have "only d s u" by (rule only_trans [of _ _ t]) (use a b in \<open>simp_all add: serves_def\<close>)
  ultimately show ?thesis using b by (simp add: serves_def)
qed

lemma serves_refl: "qinv s \<Longrightarrow> serves d s s"
  by (simp add: serves_def steps_refl only_refl)

lemma serves_step: "qinv s \<Longrightarrow> qstep s t \<Longrightarrow> only d s t \<Longrightarrow> serves d s t"
  using steps_one qinv_qstep by (auto simp: serves_def)

lemma serve_running:
  assumes inv: "qinv s" and pc: "q_pc s d = Running j"
  shows "\<exists>s'. serves d s s' \<and> q_pc s' d = Receiving \<and> queue_of (q_mgr s') d = queue_of (q_mgr s) d"
proof -
  note a = admin_okD [OF qinvD(3) [OF inv, of d]]
  obtain q where q: "map_of (mgr_queues (q_mgr s)) d = Some q" using a(4) pc by fastforce
  have j: "job_admin j = d" using a(3) [of j] pc by simp
  have "only d s (finish_job d q j s)"
    using j by (auto simp: only_def finish_job_def log_append queue_of_def)
  then have "serves d s (finish_job d q j s)" using qstep.finish [OF q pc] inv serves_step by blast
  moreover have "q_pc (finish_job d q j s) d = Receiving"
    "queue_of (q_mgr (finish_job d q j s)) d = queue_of (q_mgr s) d"
    using q by (simp_all add: finish_job_def queue_of_def)
  ultimately show ?thesis by blast
qed

lemma only_start: "job_admin j = d \<Longrightarrow> only d s (start_job d j s)"
  by (auto simp: only_def start_job_def log_append)

lemma start_job_pc: "q_pc (start_job d j s) d = Running j" "q_mgr (start_job d j s) = q_mgr s"
  by (simp_all add: start_job_def)

lemma serve_sleeping:
  assumes inv: "qinv s" and pc: "q_pc s d = Sleeping j t"
  shows "\<exists>s'. serves d s s' \<and> q_pc s' d = Running j \<and> queue_of (q_mgr s') d = queue_of (q_mgr s) d"
proof -
  let ?s1 = "s\<lparr>q_now := max t (q_now s)\<rparr>"
  have j: "job_admin j = d" using admin_okD(3) [OF qinvD(3) [OF inv, of d], of j] pc by simp
  have s1: "serves d s ?s1"
    by (rule serves_step [OF inv qstep.tick]) (simp_all add: only_def)
  have "qstep ?s1 (start_job d j ?s1)" using pc by (intro qstep.wake [of _ _ _ t]) simp_all
  then have "serves d ?s1 (start_job d j ?s1)"
    using s1 by (intro serves_step only_start [OF j]) (simp_all add: serves_def)
  with s1 serves_trans have "serves d s (start_job d j ?s1)" by blast
  then show ?thesis using start_job_pc by (intro exI [of _ "start_job d j ?s1"]) simp
qed

lemma serve_spacing:
  assumes inv: "qinv s" and pc: "q_pc s d = Spacing j"
  shows "\<exists>s'. serves d s s' \<and> q_pc s' d = Running j \<and> queue_of (q_mgr s') d = queue_of (q_mgr s) d"
proof -
  note a = admin_okD [OF qinvD(3) [OF inv, of d]]
  obtain q where q: "map_of (mgr_queues (q_mgr s)) d = Some q" using a(4) pc by fastforce
  have j: "job_admin j = d" using a(3) [of j] pc by simp
  show ?thesis
  proof (cases "waitForSpacing (q_mgr s) q (q_now s)")
    case None
    have "serves d s (start_job d j s)"
      using serves_step [OF inv qstep.start [OF q pc None] only_start [OF j]] .
    then show ?thesis using start_job_pc by (intro exI [of _ "start_job d j s"]) simp
  next
    case (Some rem)
    let ?s1 = "s\<lparr>q_pc := (q_pc s)(d := Sleeping j (q_now s + rem))\<rparr>"
    have s1: "serves d s ?s1"
      by (rule serves_step [OF inv qstep.sleep [OF q pc Some]]) (simp add: only_def)
    then have "qinv ?s1" by (simp add: serves_def)
    from serve_sleeping [OF this, of d j "q_now s + rem"] s1 serves_trans show ?thesis by fastforce
  qed
qed

lemma serve_current:
  assumes inv: "qinv s"
  shows "\<exists>s'. serves d s s' \<and> q_pc s' d = Receiving \<and> queue_of (q_mgr s') d = queue_of (q_mgr s) d"
proof -
  have run: ?thesis if "serves d s t" "q_pc t d = Running j" "queue_of (q_mgr t) d = queue_of (q_mgr s) d" for t j
    using serve_running [of t d j] that serves_trans unfolding serves_def by metis
  show ?thesis
  proof (cases "q_pc s d")
    case Receiving
    then show ?thesis using serves_refl [OF inv] by blast
  next
    case (Spacing j)
    from serve_spacing [OF inv this] run show ?thesis by blast
  next
    case (Sleeping j t)
    from serve_sleeping [OF inv this] run show ?thesis by blast
  next
    case (Running j)
    from serve_running [OF inv this] show ?thesis .
  qed
qed

lemma drain_admin:
  assumes "qinv s"
  shows "\<exists>s'. serves d s s' \<and> q_pc s' d = Receiving \<and> queue_of (q_mgr s') d = []"
  using assms
proof (induction "queue_of (q_mgr s) d" arbitrary: s)
  case Nil
  from serve_current [OF Nil(2), of d] Nil(1) show ?case by metis
next
  case (Cons j rest)
  obtain s1 where s1: "serves d s s1" "q_pc s1 d = Receiving" "queue_of (q_mgr s1) d = j # rest"
    using serve_current [OF Cons(3), of d] Cons(2) by metis
  then have inv1: "qinv s1" by (simp add: serves_def)
  obtain q where q: "map_of (mgr_queues (q_mgr s1)) d = Some q" and ch: "aq_ch q = j # rest"
    using s1(3) by (auto simp: queue_of_def split: option.splits)
  let ?s2 = "receive_job d q j rest s1"
  have s2: "serves d s1 ?s2"
    by (rule serves_step [OF inv1 qstep.receive [OF q s1(2)]])
      (auto simp: ch only_def receive_job_def queue_of_def)
  have "queue_of (q_mgr ?s2) d = rest" by (simp add: receive_job_def queue_of_def)
  moreover have "qinv ?s2" using s2 by (simp add: serves_def)
  ultimately obtain s' where "serves d ?s2 s'" "q_pc s' d = Receiving" "queue_of (q_mgr s') d = []"
    using Cons(1) by metis
  then show ?case using s1(1) s2 serves_trans by metis
qed

text \<open>With its channel empty and its worker at rest, an admin has nothing left over.\<close>

lemma drained: "qinv s \<Longrightarrow> q_pc s d = Receiving \<Longrightarrow> queue_of (q_mgr s) d = [] \<Longrightarrow>
    finished d (q_log s) = accepted d (q_log s)"
  using admin_okD(1,2) [OF qinvD(3), of s d] by simp

lemma drain_admins:
  assumes "qinv s" and "\<And>d. d \<notin> set ds \<Longrightarrow> finished d (q_log s) = accepted d (q_log s)"
  shows "\<exists>s'. steps qstep s s' \<and> (\<forall>d. finished d (q_log s') = accepted d (q_log s')) \<and>
    (\<forall>d. accepted d (q_log s') = accepted d (q_log s))"
  using assms
proof (induction ds arbitrary: s)
  case Nil
  then show ?case by (intro exI [of _ s]) (simp add: steps_refl)
next
  case (Cons d ds)
  obtain s1 where s1: "serves d s s1" "q_pc s1 d = Receiving" "queue_of (q_mgr s1) d = []"
    using drain_admin [OF Cons(2)] by blast
  have inv1: "qinv s1" and o: "only d s s1" and st: "steps qstep s s1"
    using s1(1) by (simp_all add: serves_def)
  have "finished x (q_log s1) = accepted x (q_log s1)" if "x \<notin> set ds" for x
    using drained [OF inv1 s1(2,3)] o Cons(3) [of x] that by (cases "x = d") (auto simp: only_def)
  from Cons(1) [OF inv1 this] obtain s' where s': "steps qstep s1 s'"
    "\<forall>d. finished d (q_log s') = accepted d (q_log s')" "\<forall>d. accepted d (q_log s') = accepted d (q_log s1)"
    by blast
  moreover have "\<forall>d. accepted d (q_log s1) = accepted d (q_log s)" using o by (simp add: only_def)
  ultimately show ?case using steps_trans [OF s'(1) st] by auto
qed

lemma no_queue_no_jobs:
  assumes "qinv s" and "d \<notin> fst ` set (mgr_queues (q_mgr s))"
  shows "finished d (q_log s) = accepted d (q_log s)"
proof -
  have none: "map_of (mgr_queues (q_mgr s)) d = None" using assms(2) by (simp add: map_of_eq_None_iff)
  then have "q_pc s d = Receiving" using admin_okD(4) [OF qinvD(3) [OF assms(1)]] by blast
  with none assms(1) show ?thesis by (intro drained) (simp_all add: queue_of_def)
qed

section \<open>Properties\<close>

definition demo_job :: "string \<Rightarrow> string \<Rightarrow> TransferJob" where
  "demo_job rid d =
     \<lparr>tj_request_id = rid, tj_input = \<lparr>ti_admin_did = d, ti_user_did = ''u'', ti_activity_ids = [''a'']\<rparr>,
      tj_enqueued_at = 1\<rparr>"

definition demo_start :: sched where
  "demo_start =
     \<lparr>q_mgr = configured 2 0 1000 [(''B'', 50)], q_now = 1, q_pc = (\<lambda>_. Receiving), q_log = []\<rparr>"

text \<open>Two jobs of one admin and one of another; the second job of the first admin has to wait.\<close>

definition demo_run :: "action list" where
  "demo_run =
     [DoEnqueue (demo_job ''r1'' ''A''), DoEnqueue (demo_job ''r2'' ''A''), DoEnqueue (demo_job ''r3'' ''B''),
      DoReceive ''A'', DoSpace ''A'', DoTick 10, DoFinish ''A'', DoReceive ''A'', DoSpace ''A'',
      DoReceive ''B'', DoSpace ''B'', DoTick 1010, DoWake ''A'']"

lemma demo_start_reach: "reach qinit qstep demo_start"
  by (rule reach_init) (simp add: qinit_def demo_start_def in_int64_def, rule exI [of _ 2], rule exI [of _ 0],
      rule exI [of _ 1000], simp add: in_int64_def, rule exI [of _ "[(''B'', 50)]"], simp)

definition demo_log :: "event list" where
  "demo_log =
     [Accepted (demo_job ''r1'' ''A''), Accepted (demo_job ''r2'' ''A''), Accepted (demo_job ''r3'' ''B''),
      Started (demo_job ''r1'' ''A'') 1, Finished (demo_job ''r1'' ''A'') 10, Started (demo_job ''r3'' ''B'') 10,
      Started (demo_job ''r2'' ''A'') 1010]"

lemma demo_run_log: "map_option q_log (do_steps demo_run demo_start) = Some demo_log"
  by code_simp

lemma demo_reach: "\<exists>s. reach qinit qstep s \<and> q_log s = demo_log"
  using demo_run_log do_steps_reach [OF demo_start_reach] by blast

text \<open>
  Property C7: in every reachable state, the jobs an admin's queue accepted are, in the order of
  acceptance, those its worker finished, then at most one it is running, then at most one it has
  taken and is spacing, then those still in its channel; and it started exactly the finished ones
  and the running one. Jobs of one admin run one at a time and in order, and none is lost or run
  twice.
\<close>

theorem payouts_fifo:
  assumes "reach qinit qstep s"
  shows "accepted d (q_log s) =
      finished d (q_log s) @ running (q_pc s d) @ taken (q_pc s d) @ queue_of (q_mgr s) d \<and>
    started d (q_log s) = finished d (q_log s) @ running (q_pc s d) \<and>
    length (queue_of (q_mgr s) d) \<le> nat (mgr_bufferSize (q_mgr s))"
proof -
  note inv = scheduler.inv_reach [OF assms]
  have "length (queue_of (q_mgr s) d) \<le> nat (mgr_bufferSize (q_mgr s))"
    using qinvD(1) [OF inv] by (auto simp: queue_of_def mgr_ok_def queue_ok_def split: option.split)
  then show ?thesis using admin_okD(1,2) [OF qinvD(3) [OF inv], of d] by simp
qed

theorem payouts_fifo_witness:
  "\<exists>s :: sched. q_log s = demo_log \<and>
     [demo_job ''r1'' ''A'', demo_job ''r2'' ''A''] =
       finished ''A'' demo_log @ running (q_pc s ''A'') @ taken (q_pc s ''A'') @ queue_of (q_mgr s) ''A''"
proof -
  obtain s where "reach qinit qstep s" "q_log s = demo_log" using demo_reach by blast
  moreover have "accepted ''A'' demo_log = [demo_job ''r1'' ''A'', demo_job ''r2'' ''A'']"
    by (simp add: demo_log_def demo_job_def)
  ultimately show ?thesis using payouts_fifo [of s "''A''"] by metis
qed

text \<open>
  Property C6: a job never starts sooner than the interval in effect for its admin after any
  earlier job of that admin finished, whatever other admins, callers and the clock do in between:
  the rule that keeps the node from forking its chain.
\<close>

theorem payouts_spaced:
  assumes "reach qinit qstep s" and "q_log s = xs @ Finished j t # ys @ Started j' t' # zs"
    and "job_admin j = job_admin j'"
  shows "t + IntervalFor (q_mgr s) (job_admin j) \<le> t'"
proof -
  have "spaced (IntervalFor (q_mgr s)) ((xs @ Finished j t # ys) @ Started j' t' # zs)"
    using qinvD(4) [OF scheduler.inv_reach [OF assms(1)]] assms(2) by simp
  then have "start_ok (IntervalFor (q_mgr s)) (xs @ Finished j t # ys) (Started j' t')"
    unfolding spaced_def by blast
  then show ?thesis using assms(3) by (auto simp: start_ok_def)
qed

theorem payouts_spaced_witness:
  "\<exists>s :: sched. q_log s = demo_log \<and> 10 + IntervalFor (q_mgr s) ''A'' \<le> 1010"
proof -
  obtain s where s: "reach qinit qstep s" "q_log s = demo_log" using demo_reach by blast
  have "q_log s = take 4 demo_log @ Finished (demo_job ''r1'' ''A'') 10 #
      [Started (demo_job ''r3'' ''B'') 10] @ Started (demo_job ''r2'' ''A'') 1010 # []"
    by (simp add: s(2) demo_log_def)
  from payouts_spaced [OF s(1) this] have "10 + IntervalFor (q_mgr s) ''A'' \<le> 1010" by (simp add: demo_job_def)
  with s(2) show ?thesis by blast
qed

text \<open>
  Property C30: no reachable state is stuck: from it there is a schedule of the workers and the
  clock alone after which every job accepted so far has finished, for every admin, and nothing
  further was accepted.
\<close>

theorem payouts_drain:
  assumes "reach qinit qstep s"
  shows "\<exists>s'. steps qstep s s' \<and>
    (\<forall>d. finished d (q_log s') = accepted d (q_log s') \<and> accepted d (q_log s') = accepted d (q_log s))"
proof -
  note inv = scheduler.inv_reach [OF assms]
  have "finished d (q_log s) = accepted d (q_log s)" if "d \<notin> set (map fst (mgr_queues (q_mgr s)))" for d
    using no_queue_no_jobs [OF inv] that by simp
  from drain_admins [OF inv this] show ?thesis by blast
qed

theorem payouts_drain_witness:
  "\<exists>s s'. q_log s = demo_log \<and> steps qstep s s' \<and>
     finished ''A'' (q_log s') = [demo_job ''r1'' ''A'', demo_job ''r2'' ''A'']"
proof -
  obtain s where s: "reach qinit qstep s" "q_log s = demo_log" using demo_reach by blast
  moreover have "accepted ''A'' demo_log = [demo_job ''r1'' ''A'', demo_job ''r2'' ''A'']"
    by (simp add: demo_log_def demo_job_def)
  ultimately show ?thesis using payouts_drain [OF s(1)] by metis
qed

text \<open>
  Property C31: a worker that is serving or waiting for one admin holds up no other: from every
  reachable state an admin's queue can be emptied by steps that leave the queue, the worker and
  the finished jobs of every other admin as they were.
\<close>

theorem payouts_independent:
  assumes "reach qinit qstep s"
  shows "\<exists>s'. steps qstep s s' \<and> finished d (q_log s') = accepted d (q_log s) \<and>
    (\<forall>x. x \<noteq> d \<longrightarrow> q_pc s' x = q_pc s x \<and> queue_of (q_mgr s') x = queue_of (q_mgr s) x \<and>
      finished x (q_log s') = finished x (q_log s))"
proof -
  obtain s' where "serves d s s'" "q_pc s' d = Receiving" "queue_of (q_mgr s') d = []"
    using drain_admin [OF scheduler.inv_reach [OF assms]] by blast
  with drained [of s' d] show ?thesis by (intro exI [of _ s']) (simp add: serves_def only_def)
qed

theorem payouts_independent_witness:
  "\<exists>s s'. q_log s = demo_log \<and> steps qstep s s' \<and> finished ''B'' (q_log s') = [demo_job ''r3'' ''B''] \<and>
     q_pc s' ''A'' = q_pc s ''A''"
proof -
  obtain s where s: "reach qinit qstep s" "q_log s = demo_log" using demo_reach by blast
  moreover have "accepted ''B'' demo_log = [demo_job ''r3'' ''B'']"
    by (simp add: demo_log_def demo_job_def)
  moreover have "''A'' \<noteq> ''B''" by simp
  ultimately show ?thesis using payouts_independent [OF s(1), of "''B''"] by metis
qed

end
