(* ===== verification/Latency.thy ===== *)
theory Latency
  imports Queue
begin

text \<open>
  How long a job takes at most, when every statement of the database takes at most \<open>L\<close> and every call
  to a node at most \<open>H\<close>: four statements and two calls.
\<close>

definition latencies_within :: "env \<Rightarrow> duration \<Rightarrow> duration \<Rightarrow> bool" where
  "latencies_within e L H \<longleftrightarrow> (\<forall>n. int (env_dblatency e n) \<le> L) \<and> (\<forall>h. int (fst (env_http e h)) \<le> H)"

lemma latencies_nonneg: "latencies_within e L H \<Longrightarrow> 0 \<le> L \<and> 0 \<le> H"
  unfolding latencies_within_def by (meson of_nat_0_le_iff order_trans)

lemma db_stmt_time: "db_stmt e ctx w = (r, w') \<Longrightarrow> latencies_within e L H \<Longrightarrow> w_now w' \<le> w_now w + L"
  using latencies_nonneg [of e L H]
  by (auto simp: db_stmt_def latencies_within_def Let_def split: if_splits option.splits)

lemma do_request_within: "do_request e ctx c req path w = (r, w') \<Longrightarrow> latencies_within e L H \<Longrightarrow> w_now w' \<le> w_now w + H"
proof -
  assume run: "do_request e ctx c req path w = (r, w')" and l: "latencies_within e L H"
  have "int (fst (env_http e h)) \<le> H" for h using l by (simp add: latencies_within_def)
  then have m: "min (int (fst (env_http e h))) x \<le> H" for h x by (meson min.coboundedI1)
  let ?lat = "int (fst (env_http e (w_sent w @ [req])))"
  have "w' = w \<or> w' = w\<lparr>w_now := w_now w + min ?lat (call_limit ctx c (w_now w)), w_sent := w_sent w @ [req]\<rparr>"
    using run by (simp add: do_request_def Let_def split: if_splits option.splits http_reply.splits)
  with m latencies_nonneg [OF l] show ?thesis by auto
qed

lemma post_and_sign_time:
  assumes "post_and_sign e ctx c p req w = (r, w')" and l: "latencies_within e L H"
  shows "w_now w' \<le> w_now w + 2 * H"
proof -
  have tx: "PostTx e ctx c req w = (q, v) \<Longrightarrow> w_now v \<le> w_now w + H" for q v
    by (auto simp: PostTx_def postJSON_def dest: do_request_within [OF _ l] split: prod.splits sum.splits option.splits)
  have sg: "Sign e ctx c i p v = (q, u) \<Longrightarrow> w_now u \<le> w_now v + H" for i q u v
    by (auto simp: Sign_def postJSON_def dest: do_request_within [OF _ l] split: prod.splits sum.splits)
  from assms(1) show ?thesis
    using latencies_nonneg [OF l] by (auto simp: post_and_sign_def dest!: tx sg split: prod.splits sum.splits) 
qed

lemma UpdateTransferStatus_time:
  "UpdateTransferStatus e ctx rid us w = (r, w') \<Longrightarrow> latencies_within e L H \<Longrightarrow> w_now w' \<le> w_now w + L"
  using latencies_nonneg [of e L H]
  by (auto simp: UpdateTransferStatus_def set_transfers_def Let_def dest!: db_stmt_time split: prod.splits sum.splits if_splits option.splits)

lemma ProcessTransferReward_time:
  assumes run: "ProcessTransferReward e ctx i w = (r, w')" and ok: "pool_ok w" and l: "latencies_within e L H"
  shows "w_now w' \<le> w_now w + 2 * L + 2 * H"
proof -
  have g: "GetAdminContract e ctx a k v = (q, u) \<Longrightarrow> w_now u \<le> w_now v + L" for a k q u and v :: "'a networld_scheme"
    using latencies_nonneg [OF l] by (auto simp: GetAdminContract_def dest!: db_stmt_time [OF _ l] split: prod.splits sum.splits option.splits)
  have s: "SumRewardPointsForActivities e ctx a ids v = (q, u) \<Longrightarrow> w_now u \<le> w_now v + L" for a ids q u and v :: "'a networld_scheme"
    using latencies_nonneg [OF l] by (auto simp: SumRewardPointsForActivities_def dest!: db_stmt_time [OF _ l] split: prod.splits sum.splits if_splits)
  obtain r1 w1 where 1: "GetAdminContract e ctx (ti_admin_did i) KindReward w = (r1, w1)" by fastforce
  obtain r2 w2 where 2: "SumRewardPointsForActivities e ctx (ti_admin_did i) (ti_activity_ids i) w1 = (r2, w2)" by fastforce
  obtain r3 w3 where 3: "ClientFor (ti_admin_did i) w2 = (r3, w3)" by fastforce
  have "pool_ok w2"
    using pool_ok_cong [OF _ _ ok] GetAdminContract_ok [OF 1] SumRewardPoints_ok [OF 2] quietD(7) by metis
  then have t: "w_now w1 \<le> w_now w + L" "w_now w2 \<le> w_now w1 + L" "w_now w3 = w_now w2"
    using g [OF 1] s [OF 2] ClientFor_ok(4) [OF 3] by simp_all
  have "w_now w' \<in> {w_now w1, w_now w2, w_now w3} \<or> (\<exists>c p q x. post_and_sign e ctx c p q w3 = (x, w'))"
    using run 1 2 3 by (auto simp: ProcessTransferReward_eq split: sum.splits prod.splits if_splits)
  with t latencies_nonneg [OF l] post_and_sign_time [OF _ l] show ?thesis by fastforce
qed

lemma processOne_time:
  assumes ok: "pool_ok w" and l: "latencies_within e L H"
  shows "w_now (processOne e m job w) \<le> w_now w + 4 * L + 2 * H"
proof -
  let ?ctx = "with_timeout None (w_now w) (mgr_procTimeout m)"
  obtain r1 w1 r w2 r3 where
    m: "mark_processing e ?ctx job w = (r1, w1)" and p: "ProcessTransferReward e ?ctx (tj_input job) w1 = (r, w2)"
    and o: "record_outcome e ?ctx job r w2 = (r3, processOne e m job w)"
    by (rule processOne_stages)
  have "pool_ok w1" using UpdateTransferStatus_net(3) [OF m [unfolded mark_processing_def]] ok by simp
  from ProcessTransferReward_time [OF p this l] have "w_now w2 \<le> w_now w1 + 2 * L + 2 * H" .
  moreover have "w_now w1 \<le> w_now w + L" by (rule UpdateTransferStatus_time [OF m [unfolded mark_processing_def] l])
  moreover obtain us where "UpdateTransferStatus e ?ctx (tj_request_id job) us w2 = (r3, processOne e m job w)"
    using o record_outcome_update by metis
  then have "w_now (processOne e m job w) \<le> w_now w2 + L" by (rule UpdateTransferStatus_time [OF _ l])
  ultimately show ?thesis by simp
qed

end
