(* ===== verification/Payouts.thy ===== *)
theory Payouts
  imports Scheduler Latency
begin

text \<open>
  The properties of a payout, from the validated request to the recorded outcome, and of the other
  flows of \<open>internal/service\<close>, with the small deployment their witnesses run on.
\<close>

section \<open>A small deployment\<close>

text \<open>
  The state the witnesses run on: one admin with a reward and an activity contract, two
  activities, one queued payout; a database that never fails and takes one nanosecond a
  statement; a node that accepts every call and takes \<open>lat\<close> nanoseconds for each.
\<close>

definition demo_input :: TransferRewardInput where
  "demo_input = \<lparr>ti_admin_did = ''A'', ti_user_did = ''U'', ti_activity_ids = [''x'', ''x'', ''y'']\<rparr>"

definition payout_job :: TransferJob where
  "payout_job = \<lparr>tj_request_id = ''r'', tj_input = demo_input, tj_enqueued_at = 5\<rparr>"

definition queued_row :: transfer_row where
  "queued_row =
     \<lparr>tr_request_id = ''r'', tr_transaction_id = None, tr_kind = KindReward, tr_admin_did = Some ''A'',
      tr_user_did = Some ''U'', tr_activity_ids = Some [''x'', ''x'', ''y''], tr_reward_points = Some 0,
      tr_contract_hash = None, tr_status = StatusQueued, tr_message = None, tr_error_details = None,
      tr_created_at = 0, tr_updated_at = 0\<rparr>"

definition demo_db :: "int \<Rightarrow> db" where
  "demo_db p =
     \<lparr>t_transfers = [queued_row],
      t_user_admins = [],
      t_contracts =
        [\<lparr>ac_admin_did = ''A'', ac_kind = KindReward, ac_hash = ''C'', ac_deployed_at = 0\<rparr>,
         \<lparr>ac_admin_did = ''A'', ac_kind = KindAddActivity, ac_hash = ''D'', ac_deployed_at = 0\<rparr>],
      t_activities =
        [\<lparr>vr_admin_did = ''A'', vr_activity_id = ''x'', vr_reward_points = p, vr_description = None,
          vr_transaction_id = None, vr_created_at = 0\<rparr>,
         \<lparr>vr_admin_did = ''A'', vr_activity_id = ''y'', vr_reward_points = 7, vr_description = None,
          vr_transaction_id = None, vr_created_at = 0\<rparr>],
      t_admins = [], t_users = [], t_tokens = []\<rparr>"

definition demo_admin :: AdminConfig where
  "demo_admin = \<lparr>ac_did = ''A'', ac_password = ''p'', ac_node_port = ''1''\<rparr>"

definition demo_env :: "(nat \<Rightarrow> nat) \<Rightarrow> env" where
  "demo_env lat =
     \<lparr>env_dbfault = (\<lambda>_. None), env_dblatency = (\<lambda>_. 1), env_uuid = (\<lambda>n. replicate n CHR ''u''),
      env_http = (\<lambda>hist. (lat (length hist), Response 200 (node_answer (JStr ''q''))))\<rparr>"

definition demo_cfg :: AppConfig where
  "demo_cfg = (projr (Load (\<lambda>_. None) (\<lambda>_. '''')))\<lparr>app_adminByDID := [(''A'', demo_admin)]\<rparr>"

definition demo_world :: "int \<Rightarrow> networld" where
  "demo_world p =
     \<lparr>w_now = 1000, w_dbops = 0, w_fresh = 0, w_db = demo_db p, w_cfg = demo_cfg, w_sent = [], w_files = [],
      w_pool = [], w_pool_timeout = 120 * second\<rparr>"

text \<open>The node's answer as the client reads it.\<close>

lemma demo_basic: "decode_basic (node_answer (JStr ''q'')) =
    Some \<lparr>br_status = True, br_message = '''', br_result = Some (JStr ''q'')\<rparr>"
  by (simp add: node_answer_read)

lemma demo_request_id: "request_id_of (Some (JStr ''q'')) = Some ''q''"
  by code_simp

lemma demo_fields [simp]:
  "w_now (demo_world p) = 1000" "w_db (demo_world p) = demo_db p" "w_cfg (demo_world p) = demo_cfg"
  "w_sent (demo_world p) = []" "w_pool (demo_world p) = []" "w_pool_timeout (demo_world p) = 120 * second"
  by (simp_all add: demo_world_def)

lemma demo_views [simp]:
  "pool_ok (demo_world p)" "transfer_of (demo_world p) ''r'' = Some queued_row"
  "contract_of (demo_world p) ''A'' KindReward = Some ''C''"
  "points_for (demo_world p) ''A'' [''x'', ''x'', ''y''] = p + 7"
  "AdminByDID demo_cfg ''A'' = Some demo_admin"
  by (simp_all add: pool_ok_def transfer_of_def contract_of_def points_for_def demo_db_def queued_row_def
      contract_key_def activities_for_def AdminByDID_def demo_cfg_def)

lemma demo_ok [simp]: "transfers_ok (demo_world p)" "registry_ok (demo_world p)"
  by (simp_all add: transfers_ok_def registry_ok_def demo_db_def contract_key_def activity_key_def)

lemma demo_env_ok [simp]: "env_dbfault (demo_env lat) n = None"
  by (simp add: demo_env_def)

lemma demo_sign: "sign_tx_id (Some (JStr ''q'')) '''' = ''q''"
  by code_simp

lemma demo_client: "cl_timeout (NewClient b 120000000000) = 120000000000"
  by (simp add: NewClient_def)

lemmas run_defs = processOne_def mark_processing_def UpdateTransferStatus_def db_stmt_def Let_def
  record_outcome_def ProcessTransferReward_def GetAdminContract_def SumRewardPointsForActivities_def
  ClientFor_def ForBaseURL_def PostTx_def Sign_def postJSON_def do_request_def call_limit_def
  ctx_expired_def with_timeout_def set_transfers_def allowed_fields_def failure_updates_def
  success_updates_def

lemmas demo_defs = demo_world_def demo_env_def payout_job_def demo_input_def demo_db_def contract_key_def
  activities_for_def demo_admin_def BaseURL_def NodeHost_def demo_basic demo_request_id demo_sign
  demo_client queued_row_def NewManager_def duration_defs in_int32_def

text \<open>The job run to its end, and one whose signature outlasts the job's deadline.\<close>

lemma demo_payout:
  "let w' = processOne (demo_env (\<lambda>_. 10)) (NewManager 10 0) payout_job (demo_world 5) in
     w_now w' = 1024 \<and> map_option tr_status (transfer_of w' ''r'') = Some StatusSuccess"
  by (simp add: run_defs demo_defs transfer_of_def apply_updates_def)

lemma demo_late:
  "let e = demo_env (\<lambda>n. if n = 1 then 10 else 1000); ctx = with_timeout None 1000 500;
       (r1, w1) = mark_processing e ctx payout_job (demo_world 5);
       (r, w2) = ProcessTransferReward e ctx demo_input w1
   in r1 = Inr () \<and> w_now w2 = 1500"
  by (simp add: run_defs demo_defs)

section \<open>A job's outcome\<close>

text \<open>
  When the worker leaves a payout's row as a success that was not one before, the
  transaction for the admin's reward contract and its signature have gone to the admin's own node,
  exactly these two requests, for the sum of the listed activities' points, which is positive and
  is what the row records.
\<close>

lemma payout_success_is_on_chain:
  assumes "pool_ok w" and "transfer_of w (tj_request_id job) = Some r0" and "tr_status r0 \<noteq> StatusSuccess"
    and "transfer_of (processOne e m job w) (tj_request_id job) = Some r'" and "tr_status r' = StatusSuccess"
  shows "tr_reward_points r' = Some (points_for w (job_admin job) (ti_activity_ids (tj_input job))) \<and>
    0 < points_for w (job_admin job) (ti_activity_ids (tj_input job)) \<and>
    sent_for (tj_input job) w (processOne e m job w)"
  using assms(1,2)
  by (rule processOne_row [where w' = "processOne e m job w" and i = "tj_input job" and e = e and m = m])
    (use assms in auto)

text \<open>
  Property C12: a payout settles when the infrastructure is in time: if every statement takes at most
  \<open>L\<close>, every node call at most \<open>H\<close>, four statements and two calls fit into the job's timeout, the
  database answers and the sum of the points fits the column, then the job ends within that time and
  leaves its row in a final status, success or failed.
\<close>

theorem payout_settles:
  assumes "pool_ok w" and "transfer_of w (tj_request_id job) = Some r0"
    and "\<And>n. env_dbfault e n = None" and "latencies_within e L H" and "4 * L + 2 * H < mgr_procTimeout m"
    and "in_int32 (points_for w (job_admin job) (ti_activity_ids (tj_input job)))"
  shows "w_now (processOne e m job w) \<le> w_now w + 4 * L + 2 * H \<and>
    (\<exists>r'. transfer_of (processOne e m job w) (tj_request_id job) = Some r' \<and> tr_status r' \<in> {StatusSuccess, StatusFailed})"
proof -
  have t: "w_now (processOne e m job w) \<le> w_now w + 4 * L + 2 * H" by (rule processOne_time [OF assms(1,4)])
  with assms(5) have "w_now (processOne e m job w) < w_now w + mgr_procTimeout m" by linarith
  from processOne_settles [OF assms(1-3) this assms(6)] t show ?thesis by blast
qed

theorem payout_settles_witness:
  "\<exists>r'. transfer_of (processOne (demo_env (\<lambda>_. 10)) (NewManager 10 0) payout_job (demo_world 5)) ''r'' = Some r' \<and>
    tr_status r' \<in> {StatusSuccess, StatusFailed} \<and>
    w_now (processOne (demo_env (\<lambda>_. 10)) (NewManager 10 0) payout_job (demo_world 5)) \<le> 1024"
proof -
  have "latencies_within (demo_env (\<lambda>_. 10)) 1 10" by (simp add: latencies_within_def demo_env_def)
  from payout_settles [of "demo_world 5" payout_job queued_row, OF _ _ _ this, of "NewManager 10 0"] show ?thesis
    by (auto simp: payout_job_def demo_input_def NewManager_def duration_defs in_int32_def)
qed

text \<open>
  Property C32: the outcome is written under the job's own context. When the transfer returns at or
  after the deadline, nothing is written: a row marked as processing stays so, whatever the
  transfer's result, although the job is over and no other one will take it up.
\<close>

theorem payout_late_unrecorded:
  assumes "pool_ok w" and "transfer_of w (tj_request_id job) = Some r0"
    and "mark_processing e (with_timeout None (w_now w) (mgr_procTimeout m)) job w = (Inr (), w1)"
    and "ProcessTransferReward e (with_timeout None (w_now w) (mgr_procTimeout m)) (tj_input job) w1 = (r, w2)"
    and "w_now w + mgr_procTimeout m \<le> w_now w2"
  shows "map_option tr_status (transfer_of (processOne e m job w) (tj_request_id job)) = Some StatusProcessing"
  using processOne_late [OF assms] by simp

theorem payout_late_unrecorded_witness:
  "map_option tr_status (transfer_of
     (processOne (demo_env (\<lambda>n. if n = 1 then 10 else 1000)) (NewManager 10 500) payout_job (demo_world 5)) ''r'')
   = Some StatusProcessing"
proof -
  obtain w1 r w2 where
    "mark_processing (demo_env (\<lambda>n. if n = 1 then 10 else 1000)) (with_timeout None 1000 500) payout_job (demo_world 5)
      = (Inr (), w1)"
    "ProcessTransferReward (demo_env (\<lambda>n. if n = 1 then 10 else 1000)) (with_timeout None 1000 500) demo_input w1 = (r, w2)"
    "w_now w2 = 1500"
    using demo_late by (auto simp: Let_def split: prod.splits)
  then show ?thesis
    using payout_late_unrecorded [of "demo_world 5" payout_job queued_row
        "demo_env (\<lambda>n. if n = 1 then 10 else 1000)" "NewManager 10 500" w1 r w2]
    by (simp add: payout_job_def NewManager_def)
qed

text \<open>
  A job touches the row of its own request and nothing else in the database: no other
  payout, no registry, no account; and the ledger's key stays unique.
\<close>

lemma payout_isolated:
  assumes "pool_ok w"
  shows "w_db (processOne e m job w) = (w_db w)\<lparr>t_transfers := t_transfers (w_db (processOne e m job w))\<rparr> \<and>
    (\<forall>q. q \<noteq> tj_request_id job \<longrightarrow> transfer_of (processOne e m job w) q = transfer_of w q) \<and>
    (transfers_ok w \<longrightarrow> transfers_ok (processOne e m job w))"
  using processOne_frame [OF assms] by blast

section \<open>What goes to the node\<close>

text \<open>
  Property C15: processing a transfer sends something only when it is owed: the admin has a reward
  contract, the sum of the activities is positive and the admin is configured. It then sends at
  most the one transaction, built from these, and after it the signature; and it changes no table,
  whatever the outcome.
\<close>

theorem reward_sent_only_if_owed:
  assumes "pool_ok w" and "ProcessTransferReward e ctx i w = (r, w')" and "w_sent w' \<noteq> w_sent w"
  shows "\<exists>hash a q n.
    contract_of w (ti_admin_did i) KindReward = Some hash \<and>
    0 < points_for w (ti_admin_did i) (ti_activity_ids i) \<and>
    AdminByDID (w_cfg w) (ti_admin_did i) = Some a \<and>
    w_sent w' = w_sent w @ take n
      [tx_request (NewClient (BaseURL a) (w_pool_timeout w))
         (transfer_tx i hash (points_for w (ti_admin_did i) (ti_activity_ids i))),
       sign_request (NewClient (BaseURL a) (w_pool_timeout w)) q (ac_password a)] \<and>
    w_db w' = w_db w"
  using assms(2,1)
proof (cases rule: ProcessTransferReward_cases)
  case (unsent err)
  with assms(3) show ?thesis by simp
next
  case (sent hash a c q)
  from sent(7) obtain n where "w_sent w' = w_sent w @ take n
      [tx_request c (transfer_tx i hash (points_for w (ti_admin_did i) (ti_activity_ids i))),
       sign_request c q (ac_password a)]" by blast
  with sent(1-5) show ?thesis by (auto simp: quiet_def)
qed

lemma demo_transfer:
  "let (r, w') = ProcessTransferReward (demo_env (\<lambda>_. 10)) None demo_input (demo_world 5)
   in (\<exists>res. r = Inr res \<and> rr_reward_points res = 12) \<and> length (w_sent w') = 2"
  by (simp add: run_defs demo_defs)

theorem reward_sent_only_if_owed_witness:
  "\<exists>w' :: networld. w_sent w' \<noteq> [] \<and> w_db w' = demo_db 5"
proof -
  obtain r w' where w': "ProcessTransferReward (demo_env (\<lambda>_. 10)) None demo_input (demo_world 5) = (r, w')"
    by fastforce
  then have sent: "w_sent w' \<noteq> []" using demo_transfer by auto
  then have "w_sent w' \<noteq> w_sent (demo_world 5)" by simp
  from reward_sent_only_if_owed [OF demo_views(1) w' this] sent show ?thesis by auto
qed

text \<open>
  Property C16: a payout pays each listed activity once, however often the request repeats it, and
  an activity the admin does not have contributes nothing.
\<close>

theorem reward_counts_once:
  assumes "pool_ok w" and "registry_ok w" and "ProcessTransferReward e ctx i w = (Inr res, w')"
  shows "rr_reward_points res =
    sum_list (map (\<lambda>aid. case activity_of w (ti_admin_did i) aid of None \<Rightarrow> 0 | Some a \<Rightarrow> av_reward_points a)
      (remdups (ti_activity_ids i))) \<and> 0 < rr_reward_points res"
  using ProcessTransferReward_sent_for(2,3) [OF assms(3,1)] points_for_once [OF assms(2)] by simp

theorem reward_counts_once_witness:
  "12 = sum_list (map (\<lambda>aid. case activity_of (demo_world 5) ''A'' aid of None \<Rightarrow> 0 | Some a \<Rightarrow> av_reward_points a)
      [''x'', ''y''])"
proof -
  obtain res w' where "ProcessTransferReward (demo_env (\<lambda>_. 10)) None demo_input (demo_world 5) = (Inr res, w')"
    "rr_reward_points res = 12"
    using demo_transfer by (auto split: prod.splits)
  with reward_counts_once [OF demo_views(1) demo_ok(2)] show ?thesis by (fastforce simp: demo_input_def)
qed

section \<open>Requests and queues\<close>

lemma blank_id_at_None: "blank_id_at n xs = None \<longleftrightarrow> list_all (\<lambda>x. TrimSpace x \<noteq> '''') xs"
  by (induction xs arbitrary: n) auto

text \<open>
  Validation passes exactly the requests with two plausible DIDs, a configured admin
  and a non-empty list of activity ids none of which is blank.
\<close>

lemma validate_accepts:
  "ValidateTransferReward cfg i = None \<longleftrightarrow>
     isPlausibleDID (ti_admin_did i) \<and> isPlausibleDID (ti_user_did i) \<and>
     AdminByDID cfg (ti_admin_did i) \<noteq> None \<and>
     ti_activity_ids i \<noteq> [] \<and> list_all (\<lambda>x. TrimSpace x \<noteq> '''') (ti_activity_ids i)"
  by (simp add: ValidateTransferReward_def blank_id_at_None [of 0, symmetric] split: option.split)

text \<open>
  \<open>Enqueue\<close> accepts a job exactly while its admin's channel is below capacity, and
  then appends it; at capacity it reports \<open>ErrQueueFull\<close> and changes no queue. Other admins' queues
  play no part, and the manager's invariant is kept.
\<close>

lemma enqueue_bounded:
  assumes "Enqueue (Some j) m = (r, m')" and "mgr_ok m" and "job_admin j \<noteq> ''''"
  shows "(r = Inr () \<longleftrightarrow> length (queue_of m (job_admin j)) < nat (mgr_bufferSize m)) \<and>
    queue_of m' =
      (if r = Inr () then (queue_of m)(job_admin j := queue_of m (job_admin j) @ [j]) else queue_of m) \<and>
    (\<forall>err. r = Inl err \<longrightarrow> errors_Is err ErrQueueFull) \<and> mgr_ok m'"
  using assms(1,2) by (rule Enqueue_cases) (use assms(3) in auto)


text \<open>
  The spacing a worker asks for ends exactly one interval after its last finish, and
  it does not wait when the interval has already passed.
\<close>

lemma spacing_exact:
  assumes "mgr_ok m" and "0 < aq_lastDone q" and "aq_lastDone q \<le> now"
  shows "case waitForSpacing m q now of
      None \<Rightarrow> aq_lastDone q + IntervalFor m (aq_adminDID q) \<le> now
    | Some d \<Rightarrow> 0 < d \<and> now + d = aq_lastDone q + IntervalFor m (aq_adminDID q)"
  using assms by (rule waitForSpacing_wait)


section \<open>Activities, contracts, users\<close>


lemmas activity_defs = AddActivity_def ExecuteContract_def CreateActivity_def set_activities_def upsert_def
  activity_key_def

lemma demo_activity:
  "let (r, w') = AddActivity (demo_env (\<lambda>_. 10)) None ''A'' ''z'' 9 ''d'' (demo_world 5)
   in \<exists>sr. r = Inr (sr, ''D'')"
  by (simp add: activity_defs run_defs demo_defs)


text \<open>
  When \<open>AddActivity\<close> fails, at whatever point, no table has changed.
\<close>

lemma add_activity_error_keeps_tables:
  assumes "pool_ok w" and "AddActivity e ctx d aid points desc w = (Inl err, w')"
  shows "w_db w' = w_db w"
  using AddActivity_error_frame [OF assms(2,1)] .


text \<open>
  Property C33: a deployed contract is the one later lookups of that admin and kind return, every
  other entry of the registry is as before, and a failed deployment leaves the registry unchanged.
\<close>

theorem deploy_then_lookup:
  assumes "pool_ok w" and "DeployContract e ctx d k p q w = (r, w')"
  shows "case r of
      Inl err \<Rightarrow> w_db w' = w_db w
    | Inr token \<Rightarrow> token \<noteq> '''' \<and> k \<noteq> '''' \<and>
        (\<forall>x y. contract_of w' x y = (if x = d \<and> y = k then Some token else contract_of w x y)) \<and>
        (\<forall>e' ctx' h w''. GetAdminContract e' ctx' d k w' = (Inr h, w'') \<longrightarrow> h = token)"
proof (cases r)
  case (Inl err)
  with DeployContract_error_frame assms show ?thesis by simp
next
  case (Inr token)
  note dep = DeployContract_ok [OF assms(2) [unfolded Inr] assms(1)]
  have "h = token" if "GetAdminContract e' ctx' d k w' = (Inr h, w'')" for e' ctx' h w''
    using GetAdminContract_ok(4) [OF that] dep(3) [of d k] by simp
  with dep Inr show ?thesis by auto
qed

lemma demo_deploy:
  "let (r, w') = DeployContract (demo_env (\<lambda>_. 10)) None ''A'' ''k'' ''f'' ''g''
     ((demo_world 5)\<lparr>w_files := [(''f'', ''1''), (''g'', ''2'')]\<rparr>)
   in r = Inr ''q''"
proof -
  have tok: "ContractTokenFromSignResult \<lparr>sr_transaction_id = t, sr_message = m, sr_result = Some (JStr ''q'')\<rparr> = Inr ''q''"
    for t m
    by (simp add: ContractTokenFromSignResult_def Let_def bare_string_def unmarshal_string_def)
  show ?thesis
    by (simp add: DeployContract_def GenerateSmartContract_def SubscribeSmartContract_def getJSON_def
        UpsertAdminContract_def set_contracts_def run_defs demo_defs tok)
qed

theorem deploy_then_lookup_witness:
  "\<exists>w' :: networld. contract_of w' ''A'' ''k'' = Some ''q'' \<and> contract_of w' ''A'' KindReward = Some ''C''"
proof -
  let ?w = "(demo_world 5)\<lparr>w_files := [(''f'', ''1''), (''g'', ''2'')]\<rparr>"
  obtain r w' where r: "DeployContract (demo_env (\<lambda>_. 10)) None ''A'' ''k'' ''f'' ''g'' ?w = (r, w')"
    by fastforce
  have "pool_ok ?w" "contract_of ?w ''A'' KindReward = Some ''C''"
    using demo_views(1,3) by (simp_all add: pool_ok_def contract_of_def)
  with deploy_then_lookup [OF _ r] r demo_deploy
  have "contract_of w' ''A'' ''k'' = Some ''q'' \<and> contract_of w' ''A'' KindReward = Some ''C''" by auto
  then show ?thesis by blast
qed


lemma demo_onboarding:
  "let e = (demo_env (\<lambda>_. 10))\<lparr>env_http := (\<lambda>hist. (1, Response 200 (node_answer (JObj [(''did'', JStr ''N'')]))))\<rparr>;
       (r, w') = CreateDIDWithPubKey e None ''A'' ''key'' (demo_world 5)
   in r = Inr ''N'' \<and> admin_of_user w' ''N'' = Some ''A''"
proof -
  have b: "decode_basic (node_answer (JObj [(''did'', JStr ''N'')])) =
      Some \<lparr>br_status = True, br_message = '''', br_result = Some (JObj [(''did'', JStr ''N'')])\<rparr>"
    by (simp add: node_answer_read)
  have u: "unmarshal_strings [''did'', ''peer_id''] (Some (JObj [(''did'', JStr ''N'')])) = Some [''N'', '''']"
    by code_simp
  show ?thesis
    by (simp add: CreateDIDWithPubKey_def CreateDID_def UpsertUserAdmin_def set_user_admins_def upsert_def
        admin_of_user_def run_defs demo_defs b u)
qed


end
