(* ===== verification/Accounts.thy ===== *)
theory Accounts
  imports Rubix
begin

text \<open>
  \<open>internal/database/auth.go\<close>: operator accounts and hashed refresh tokens. The columns' defaults
  and constraints are those of \<open>migrations/005_auth.sql\<close>: generated ids, a case-insensitive unique
  e-mail (\<open>lower\<close> is the collation's folding), unique token hashes, tokens that refer to an account.
\<close>

section \<open>Operations\<close>

definition CreateAuthUser ::
    "(string \<Rightarrow> string) \<Rightarrow> env \<Rightarrow> ctx \<Rightarrow> string \<Rightarrow> string \<Rightarrow> string \<Rightarrow> ('z, AuthUser) action" where
  "CreateAuthUser lower e ctx email hash role w =
     (case db_stmt e ctx w of
        (Inl err, w1) \<Rightarrow> (Inl (wrap ''CreateAuthUser: '' err), w1)
      | (Inr _, w1) \<Rightarrow>
          let (i, w2) = fresh_uuid e w1;
              u = \<lparr>au_id = i, au_email = email, au_password_hash = hash,
                   au_role = (if role = '''' then RoleOperator else role),
                   au_created_at = pg_time (w_now w), au_updated_at = pg_time (w_now w)\<rparr>;
              rows = t_users (w_db w2)
          in if lower email \<in> (lower \<circ> au_email) ` set rows \<or> i \<in> au_id ` set rows then
               (Inl (wrap ''CreateAuthUser: '' (PgErr ''23505'' ''duplicate key'')), w2)
             else (Inr u, set_users (rows @ [u]) w2))"

definition GetAuthUserByEmail ::
    "(string \<Rightarrow> string) \<Rightarrow> env \<Rightarrow> ctx \<Rightarrow> string \<Rightarrow> ('z, AuthUser) action" where
  "GetAuthUserByEmail lower e ctx email w =
     (case db_stmt e ctx w of
        (Inl err, w1) \<Rightarrow> (Inl (wrap ''GetAuthUserByEmail: '' err), w1)
      | (Inr _, w1) \<Rightarrow>
          (case row_of (lower \<circ> au_email) (lower email) (t_users (w_db w1)) of
             None \<Rightarrow> (Inl (Sentinel ErrNotFound), w1)
           | Some u \<Rightarrow> (Inr u, w1)))"

definition GetAuthUserByID :: "env \<Rightarrow> ctx \<Rightarrow> string \<Rightarrow> ('z, AuthUser) action" where
  "GetAuthUserByID e ctx i w =
     (case db_stmt e ctx w of
        (Inl err, w1) \<Rightarrow> (Inl (wrap ''GetAuthUserByID: '' err), w1)
      | (Inr _, w1) \<Rightarrow>
          (case row_of au_id i (t_users (w_db w1)) of
             None \<Rightarrow> (Inl (Sentinel ErrNotFound), w1)
           | Some u \<Rightarrow> (Inr u, w1)))"

definition CountAuthUsers :: "env \<Rightarrow> ctx \<Rightarrow> ('z, int) action" where
  "CountAuthUsers e ctx w =
     (case db_stmt e ctx w of
        (Inl err, w1) \<Rightarrow> (Inl (wrap ''CountAuthUsers: '' err), w1)
      | (Inr _, w1) \<Rightarrow> (Inr (int (length (t_users (w_db w1)))), w1))"

definition InsertRefreshToken ::
    "env \<Rightarrow> ctx \<Rightarrow> string \<Rightarrow> string \<Rightarrow> instant \<Rightarrow> ('z, RefreshToken) action" where
  "InsertRefreshToken e ctx userID hash expiresAt w =
     (case db_stmt e ctx w of
        (Inl err, w1) \<Rightarrow> (Inl (wrap ''InsertRefreshToken: '' err), w1)
      | (Inr _, w1) \<Rightarrow>
          let (i, w2) = fresh_uuid e w1;
              t = \<lparr>rt_id = i, rt_user_id = userID, rt_token_hash = hash, rt_expires_at = pg_time expiresAt,
                   rt_revoked_at = None, rt_replaced_by = None, rt_created_at = pg_time (w_now w)\<rparr>;
              rows = t_tokens (w_db w2)
          in if hash \<in> rt_token_hash ` set rows \<or> i \<in> rt_id ` set rows then
               (Inl (wrap ''InsertRefreshToken: '' (PgErr ''23505'' ''duplicate key'')), w2)
             else if userID \<notin> au_id ` set (t_users (w_db w2)) then
               (Inl (wrap ''InsertRefreshToken: '' (PgErr ''23503'' ''foreign key'')), w2)
             else (Inr t, set_tokens (rows @ [t]) w2))"

definition GetRefreshTokenByHash :: "env \<Rightarrow> ctx \<Rightarrow> string \<Rightarrow> ('z, RefreshToken) action" where
  "GetRefreshTokenByHash e ctx hash w =
     (case db_stmt e ctx w of
        (Inl err, w1) \<Rightarrow> (Inl (wrap ''GetRefreshTokenByHash: '' err), w1)
      | (Inr _, w1) \<Rightarrow>
          (case row_of rt_token_hash hash (t_tokens (w_db w1)) of
             None \<Rightarrow> (Inl (Sentinel ErrNotFound), w1)
           | Some t \<Rightarrow> (Inr t, w1)))"

text \<open>\<open>WHERE ... AND revoked_at IS NULL\<close>: a revoked row is not revoked again.\<close>

definition revoke_row :: "instant \<Rightarrow> string option \<Rightarrow> RefreshToken \<Rightarrow> RefreshToken" where
  "revoke_row t replaced r = r\<lparr>rt_revoked_at := Some (pg_time t), rt_replaced_by := replaced\<rparr>"

definition RevokeRefreshToken :: "env \<Rightarrow> ctx \<Rightarrow> string \<Rightarrow> string option \<Rightarrow> ('z, unit) action" where
  "RevokeRefreshToken e ctx i replacedBy w =
     (case db_stmt e ctx w of
        (Inl err, w1) \<Rightarrow> (Inl (wrap ''RevokeRefreshToken: '' err), w1)
      | (Inr _, w1) \<Rightarrow>
          (Inr (), set_tokens
             (map_rows (\<lambda>r. rt_id r = i \<and> rt_revoked_at r = None) (revoke_row (w_now w) replacedBy)
               (t_tokens (w_db w1))) w1))"

definition revoke_only :: "instant \<Rightarrow> RefreshToken \<Rightarrow> RefreshToken" where
  "revoke_only t r = r\<lparr>rt_revoked_at := Some (pg_time t)\<rparr>"

definition RevokeAllRefreshTokensForUser :: "env \<Rightarrow> ctx \<Rightarrow> string \<Rightarrow> ('z, unit) action" where
  "RevokeAllRefreshTokensForUser e ctx userID w =
     (case db_stmt e ctx w of
        (Inl err, w1) \<Rightarrow> (Inl (wrap ''RevokeAllRefreshTokensForUser: '' err), w1)
      | (Inr _, w1) \<Rightarrow>
          (Inr (), set_tokens
             (map_rows (\<lambda>r. rt_user_id r = userID \<and> rt_revoked_at r = None) (revoke_only (w_now w))
               (t_tokens (w_db w1))) w1))"

section \<open>Views and the tables' invariant\<close>

definition token_of :: "'z dbworld_scheme \<Rightarrow> string \<Rightarrow> RefreshToken option" where
  "token_of w hash = row_of rt_token_hash hash (t_tokens (w_db w))"

definition user_of :: "'z dbworld_scheme \<Rightarrow> string \<Rightarrow> AuthUser option" where
  "user_of w i = row_of au_id i (t_users (w_db w))"

definition token_active :: "RefreshToken \<Rightarrow> bool" where
  "token_active t \<longleftrightarrow> rt_revoked_at t = None"

definition active_tokens :: "'z dbworld_scheme \<Rightarrow> string \<Rightarrow> RefreshToken list" where
  "active_tokens w userID = filter (\<lambda>t. rt_user_id t = userID \<and> token_active t) (t_tokens (w_db w))"

text \<open>
  The keys are unique, a token belongs to an account, and a token that was replaced is revoked and
  its replacement belongs to the same account.
\<close>

definition accounts_ok :: "'z dbworld_scheme \<Rightarrow> bool" where
  "accounts_ok w \<longleftrightarrow>
     distinct (map au_id (t_users (w_db w))) \<and>
     distinct (map rt_id (t_tokens (w_db w))) \<and>
     distinct (map rt_token_hash (t_tokens (w_db w))) \<and>
     rt_user_id ` set (t_tokens (w_db w)) \<subseteq> au_id ` set (t_users (w_db w)) \<and>
     (\<forall>t \<in> set (t_tokens (w_db w)). \<forall>i. rt_replaced_by t = Some i \<longrightarrow>
        \<not> token_active t \<and>
        (\<exists>n \<in> set (t_tokens (w_db w)). rt_id n = i \<and> rt_user_id n = rt_user_id t))"

interpretation token_revoke: keyed_update rt_token_hash "revoke_row t x"
  for t x
  by unfold_locales (simp add: revoke_row_def)

interpretation token_revoke_id: keyed_update rt_id "revoke_row t x"
  for t x
  by unfold_locales (simp add: revoke_row_def)

interpretation token_revoke_all: keyed_update rt_token_hash "revoke_only t"
  for t
  by unfold_locales (simp add: revoke_only_def)

interpretation token_revoke_all_id: keyed_update rt_id "revoke_only t"
  for t
  by unfold_locales (simp add: revoke_only_def)

lemma revoke_fields [simp]:
  "rt_id (revoke_row t x r) = rt_id r" "rt_user_id (revoke_row t x r) = rt_user_id r"
  "rt_token_hash (revoke_row t x r) = rt_token_hash r" "rt_replaced_by (revoke_row t x r) = x"
  "rt_id (revoke_only t r) = rt_id r" "rt_user_id (revoke_only t r) = rt_user_id r"
  "rt_token_hash (revoke_only t r) = rt_token_hash r" "rt_replaced_by (revoke_only t r) = rt_replaced_by r"
  "\<not> token_active (revoke_row t x r)" "\<not> token_active (revoke_only t r)"
  by (simp_all add: revoke_row_def revoke_only_def token_active_def)

lemma GetRefreshTokenByHash_eq:
  "GetRefreshTokenByHash e ctx hash w =
     (case db_stmt e ctx w of
        (Inl err, w1) \<Rightarrow> (Inl (wrap ''GetRefreshTokenByHash: '' err), w1)
      | (Inr _, w1) \<Rightarrow>
          (case token_of w hash of
             None \<Rightarrow> (Inl (Sentinel ErrNotFound), w1)
           | Some t \<Rightarrow> (Inr t, w1)))"
  by (auto dest!: db_stmtD(1) simp: GetRefreshTokenByHash_def token_of_def split: prod.split sum.split option.split)

text \<open>A reader leaves the tables as they are and reports what is there.\<close>

lemma GetRefreshTokenByHash_ok:
  assumes "GetRefreshTokenByHash e ctx hash w = (r, w')"
  shows "w_db w' = w_db w" and "w_fresh w' = w_fresh w" and "dbworld.more w' = dbworld.more w"
    and "w_now w \<le> w_now w'" and "r = Inr t \<Longrightarrow> token_of w hash = Some t"
    and "r = Inl err \<Longrightarrow> errors_Is err ErrNotFound \<Longrightarrow> token_of w hash = None"
    and "r = Inl err \<Longrightarrow> err = Sentinel ErrNotFound \<or> \<not> errors_Is err ErrRefreshReused"
  using assms
  by (auto simp: GetRefreshTokenByHash_eq dest!: db_stmt_spec
      split: prod.splits sum.splits option.splits)

lemma InsertRefreshToken_cases:
  assumes "InsertRefreshToken e ctx userID hash expiresAt w = (r, w')"
  obtains (fail) err where "r = Inl err" "w_db w' = w_db w" "dbworld.more w' = dbworld.more w" "w_now w \<le> w_now w'"
  | (applied) t where "r = Inr t" "token_of w hash = None" "rt_id t \<notin> rt_id ` set (t_tokens (w_db w))"
      "userID \<in> au_id ` set (t_users (w_db w))"
      "t = \<lparr>rt_id = env_uuid e (w_fresh w), rt_user_id = userID, rt_token_hash = hash,
            rt_expires_at = pg_time expiresAt, rt_revoked_at = None, rt_replaced_by = None,
            rt_created_at = pg_time (w_now w)\<rparr>"
      "w_db w' = (w_db w)\<lparr>t_tokens := t_tokens (w_db w) @ [t]\<rparr>" "dbworld.more w' = dbworld.more w"
      "w_now w \<le> w_now w'"
  using assms
  by (auto simp: InsertRefreshToken_def Let_def fresh_uuid_def set_tokens_def token_of_def row_of_None_iff
      dest!: db_stmt_frame split: prod.splits sum.splits if_splits)

lemma RevokeRefreshToken_cases:
  assumes "RevokeRefreshToken e ctx i x w = (r, w')"
  obtains (fail) err where "r = Inl err" "w_db w' = w_db w" "dbworld.more w' = dbworld.more w" "w_now w \<le> w_now w'"
  | (applied) "r = Inr ()" "dbworld.more w' = dbworld.more w" "w_now w \<le> w_now w'"
      "w_db w' = (w_db w)\<lparr>t_tokens := map_rows (\<lambda>r. rt_id r = i \<and> rt_revoked_at r = None)
         (revoke_row (w_now w) x) (t_tokens (w_db w))\<rparr>"
  using assms
  by (auto simp: RevokeRefreshToken_def set_tokens_def dest!: db_stmt_frame split: prod.splits sum.splits)

lemma RevokeAll_cases:
  assumes "RevokeAllRefreshTokensForUser e ctx u w = (r, w')"
  obtains (fail) err where "r = Inl err" "w_db w' = w_db w" "dbworld.more w' = dbworld.more w"
  | (applied) "r = Inr ()" "dbworld.more w' = dbworld.more w"
      "w_db w' = (w_db w)\<lparr>t_tokens := map_rows (\<lambda>r. rt_user_id r = u \<and> rt_revoked_at r = None)
         (revoke_only (w_now w)) (t_tokens (w_db w))\<rparr>"
  using assms
  by (auto simp: RevokeAllRefreshTokensForUser_def set_tokens_def dest!: db_stmt_frame
      split: prod.splits sum.splits)

end
