(* ===== verification/Auth.thy ===== *)
theory Auth
  imports Accounts
begin

text \<open>
  \<open>internal/auth\<close>: passwords, access tokens, refresh tokens and the middleware. bcrypt, SHA-256, the
  JWT library, the random source and the UUID parser are not in the repository: they are the fields
  of the record \<open>auth_lib\<close>, and what a lemma needs of them is a named hypothesis. UUIDs are their
  canonical strings. Random values are numbered by the same count as generated ids.
\<close>

section \<open>The libraries the package calls\<close>

datatype bcrypt_result = BcryptMatch | BcryptMismatch | BcryptError string

record Claims =
  jc_role :: string
  jc_issuer :: string
  jc_subject :: string
  jc_issued_at :: instant
  jc_expires_at :: instant
  jc_id :: string

record Keys =
  k_private :: string
  k_public :: string

record auth_lib =
  al_bcrypt_hash :: "nat \<Rightarrow> nat \<Rightarrow> string \<Rightarrow> string + string"
  al_bcrypt_compare :: "string \<Rightarrow> string \<Rightarrow> bcrypt_result"
  al_sha256 :: "string \<Rightarrow> string"
  al_random :: "nat \<Rightarrow> nat \<Rightarrow> string + string"
  al_jwt_sign :: "string \<Rightarrow> Claims \<Rightarrow> string + string"
  al_jwt_parse :: "string \<Rightarrow> string \<Rightarrow> string list \<Rightarrow> instant \<Rightarrow> string \<Rightarrow> string + Claims"
  al_uuid_parse :: "string \<Rightarrow> string option"
  al_lower :: "string \<Rightarrow> string"

definition uuid_Nil :: string where
  "uuid_Nil = ''00000000-0000-0000-0000-000000000000''"

text \<open>Reading a file and the PEM parsers are arguments; a key is opaque.\<close>

definition LoadKeys ::
    "(string \<Rightarrow> string + string) \<Rightarrow> (string \<Rightarrow> string + string) \<Rightarrow> (string \<Rightarrow> string + string) \<Rightarrow>
       string \<Rightarrow> string \<Rightarrow> goerr + Keys" where
  "LoadKeys readFile parsePrivate parsePublic privatePath publicPath =
     (if privatePath = '''' \<or> publicPath = '''' then Inl (Plain ''auth: JWT key paths are required'')
      else case readFile privatePath of
        Inl msg \<Rightarrow> Inl (wrap (''auth: read private key '' @ privatePath @ '': '') (Plain msg))
      | Inr privPEM \<Rightarrow>
          (case parsePrivate privPEM of
             Inl msg \<Rightarrow> Inl (wrap ''auth: parse private key: '' (Plain msg))
           | Inr priv \<Rightarrow>
               (case readFile publicPath of
                  Inl msg \<Rightarrow> Inl (wrap (''auth: read public key '' @ publicPath @ '': '') (Plain msg))
                | Inr pubPEM \<Rightarrow>
                    (case parsePublic pubPEM of
                       Inl msg \<Rightarrow> Inl (wrap ''auth: parse public key: '' (Plain msg))
                     | Inr pub \<Rightarrow> Inr \<lparr>k_private = priv, k_public = pub\<rparr>))))"

section \<open>Encodings\<close>

text \<open>\<open>base64.RawURLEncoding\<close> and \<open>encoding/hex\<close>.\<close>

definition b64_char :: "nat \<Rightarrow> char" where
  "b64_char n =
     (if n < 26 then char_of (65 + n) else if n < 52 then char_of (71 + n)
      else if n < 62 then char_of (n - 4) else if n = 62 then CHR ''-'' else CHR ''_'')"

fun base64_raw_url :: "string \<Rightarrow> string" where
  "base64_raw_url [] = []"
| "base64_raw_url [a] = [b64_char (byte a div 4), b64_char ((byte a mod 4) * 16)]"
| "base64_raw_url [a, b] =
     [b64_char (byte a div 4), b64_char ((byte a mod 4) * 16 + byte b div 16), b64_char ((byte b mod 16) * 4)]"
| "base64_raw_url (a # b # c # r) =
     b64_char (byte a div 4) # b64_char ((byte a mod 4) * 16 + byte b div 16) #
     b64_char ((byte b mod 16) * 4 + byte c div 64) # b64_char (byte c mod 64) # base64_raw_url r"

definition hex_encode :: "string \<Rightarrow> string" where
  "hex_encode s = concat (map (\<lambda>c. [hex_lower (byte c div 16), hex_lower (byte c mod 16)]) s)"

lemma base64_raw_url_nonempty: "s \<noteq> '''' \<Longrightarrow> base64_raw_url s \<noteq> ''''"
  by (cases s rule: base64_raw_url.cases) auto

section \<open>Passwords\<close>

definition BcryptCost :: nat where
  "BcryptCost = 12"

definition HashPassword :: "auth_lib \<Rightarrow> string \<Rightarrow> ('z, string) action" where
  "HashPassword l plain w =
     (if length plain < MinPasswordLength then (Inl (Sentinel ErrPasswordTooShort), w)
      else
        let w1 = w\<lparr>w_fresh := Suc (w_fresh w)\<rparr> in
        case al_bcrypt_hash l (w_fresh w) BcryptCost plain of
          Inl msg \<Rightarrow> (Inl (wrap ''auth: hash password: '' (Plain msg)), w1)
        | Inr h \<Rightarrow> (Inr h, w1))"

definition CheckPassword :: "auth_lib \<Rightarrow> string \<Rightarrow> string \<Rightarrow> goerr option" where
  "CheckPassword l hash plain =
     (case al_bcrypt_compare l hash plain of
        BcryptMismatch \<Rightarrow> Some (Sentinel ErrPasswordMismatch)
      | BcryptError msg \<Rightarrow> Some (wrap ''auth: compare password: '' (Plain msg))
      | BcryptMatch \<Rightarrow> None)"

section \<open>Access tokens\<close>

definition Issuer :: string where
  "Issuer = ''ymca-wellness-dapp''"

text \<open>\<open>jwt.NewNumericDate\<close> keeps whole seconds.\<close>

definition numeric_date :: "instant \<Rightarrow> instant" where
  "numeric_date t = (t div second) * second"

definition IssueAccess ::
    "auth_lib \<Rightarrow> env \<Rightarrow> Keys \<Rightarrow> string \<Rightarrow> string \<Rightarrow> duration \<Rightarrow> ('z, string \<times> instant) action" where
  "IssueAccess l e k userID role ttl w =
     (let now = w_now w; exp = now + ttl; (i, w1) = fresh_uuid e w;
          claims = \<lparr>jc_role = role, jc_issuer = Issuer, jc_subject = userID, jc_issued_at = numeric_date now,
                    jc_expires_at = numeric_date exp, jc_id = i\<rparr>
      in case al_jwt_sign l (k_private k) claims of
           Inl msg \<Rightarrow> (Inl (wrap ''auth: sign access token: '' (Plain msg)), w1)
         | Inr tok \<Rightarrow> (Inr (tok, exp), w1))"

definition ParseAccess :: "auth_lib \<Rightarrow> Keys \<Rightarrow> instant \<Rightarrow> string \<Rightarrow> goerr + Claims" where
  "ParseAccess l k now raw =
     (case al_jwt_parse l (k_public k) Issuer [''RS256''] now raw of
        Inl msg \<Rightarrow> Inl (Plain msg)
      | Inr c \<Rightarrow> Inr c)"

section \<open>Middleware\<close>

definition bearerToken :: "string \<Rightarrow> string" where
  "bearerToken header =
     (if \<not> HasPrefix header ''Bearer '' then '''' else TrimSpace (drop (length ''Bearer '') header))"

text \<open>An aborted request carries its status and message; otherwise the handlers see user and role.\<close>

definition RequireAuth ::
    "auth_lib \<Rightarrow> Keys \<Rightarrow> string list \<Rightarrow> string \<Rightarrow> instant \<Rightarrow> (int \<times> string) + (string \<times> string)" where
  "RequireAuth l k allowedRoles header now =
     (let raw = bearerToken header in
      if raw = '''' then Inl (401, ''missing or malformed Authorization header'')
      else case ParseAccess l k now raw of
        Inl err \<Rightarrow> Inl (401, ''invalid or expired token'')
      | Inr claims \<Rightarrow>
          (case al_uuid_parse l (jc_subject claims) of
             None \<Rightarrow> Inl (401, ''invalid token subject'')
           | Some userID \<Rightarrow>
               if allowedRoles \<noteq> [] \<and> jc_role claims \<notin> set allowedRoles
               then Inl (403, ''insufficient role'')
               else Inr (userID, jc_role claims)))"

section \<open>Refresh tokens\<close>

definition hashToken :: "auth_lib \<Rightarrow> string \<Rightarrow> string" where
  "hashToken l raw = hex_encode (al_sha256 l raw)"

definition RefreshTokenBytes :: nat where
  "RefreshTokenBytes = 32"

definition IssueRefresh ::
    "auth_lib \<Rightarrow> env \<Rightarrow> ctx \<Rightarrow> string \<Rightarrow> duration \<Rightarrow> ('z, string \<times> instant) action" where
  "IssueRefresh l e ctx userID ttl w =
     (let w1 = w\<lparr>w_fresh := Suc (w_fresh w)\<rparr> in
      case al_random l (w_fresh w) RefreshTokenBytes of
        Inl msg \<Rightarrow> (Inl (wrap ''auth: refresh entropy: '' (Plain msg)), w1)
      | Inr buf \<Rightarrow>
          let raw = base64_raw_url buf; expiresAt = w_now w1 + ttl in
          (case InsertRefreshToken e ctx userID (hashToken l raw) expiresAt w1 of
             (Inl err, w2) \<Rightarrow> (Inl err, w2)
           | (Inr _, w2) \<Rightarrow> (Inr (raw, expiresAt), w2)))"

text \<open>The user id is returned beside an error too: the handler needs it on reuse.\<close>

definition RotateRefresh ::
    "auth_lib \<Rightarrow> env \<Rightarrow> ctx \<Rightarrow> string \<Rightarrow> duration \<Rightarrow> 'z dbworld_scheme \<Rightarrow>
       ((goerr + string \<times> instant) \<times> string) \<times> 'z dbworld_scheme" where
  "RotateRefresh l e ctx raw ttl w =
     (if raw = '''' then ((Inl (Sentinel ErrRefreshInvalid), uuid_Nil), w)
      else case GetRefreshTokenByHash e ctx (hashToken l raw) w of
        (Inl err, w1) \<Rightarrow>
          if errors_Is err ErrNotFound then ((Inl (Sentinel ErrRefreshInvalid), uuid_Nil), w1)
          else ((Inl err, uuid_Nil), w1)
      | (Inr row, w1) \<Rightarrow>
          if rt_revoked_at row \<noteq> None then ((Inl (Sentinel ErrRefreshReused), rt_user_id row), w1)
          else if rt_expires_at row < w_now w1 then ((Inl (Sentinel ErrRefreshExpired), rt_user_id row), w1)
          else case IssueRefresh l e ctx (rt_user_id row) ttl w1 of
            (Inl err, w2) \<Rightarrow> ((Inl err, rt_user_id row), w2)
          | (Inr (newRaw, newExpiresAt), w2) \<Rightarrow>
              (case GetRefreshTokenByHash e ctx (hashToken l newRaw) w2 of
                 (Inl err, w3) \<Rightarrow> ((Inl err, rt_user_id row), w3)
               | (Inr newRow, w3) \<Rightarrow>
                   (case RevokeRefreshToken e ctx (rt_id row) (Some (rt_id newRow)) w3 of
                      (Inl err, w4) \<Rightarrow> ((Inl err, rt_user_id row), w4)
                    | (Inr _, w4) \<Rightarrow> ((Inr (newRaw, newExpiresAt), rt_user_id row), w4))))"

definition RevokeRefresh :: "auth_lib \<Rightarrow> env \<Rightarrow> ctx \<Rightarrow> string \<Rightarrow> ('z, unit) action" where
  "RevokeRefresh l e ctx raw w =
     (if raw = '''' then (Inr (), w)
      else case GetRefreshTokenByHash e ctx (hashToken l raw) w of
        (Inl err, w1) \<Rightarrow> if errors_Is err ErrNotFound then (Inr (), w1) else (Inl err, w1)
      | (Inr row, w1) \<Rightarrow>
          if rt_revoked_at row \<noteq> None then (Inr (), w1)
          else RevokeRefreshToken e ctx (rt_id row) None w1)"

section \<open>Lemmas\<close>

lemma IssueRefresh_cases:
  assumes "IssueRefresh l e ctx userID ttl w = (r, w')"
  obtains (fail) err where "r = Inl err" "w_db w' = w_db w"
  | (applied) raw t where "r = Inr (raw, w_now w + ttl)" "token_of w (hashToken l raw) = None"
      "rt_id t \<notin> rt_id ` set (t_tokens (w_db w))" "userID \<in> au_id ` set (t_users (w_db w))"
      "rt_user_id t = userID" "rt_token_hash t = hashToken l raw" "token_active t" "rt_replaced_by t = None"
      "rt_expires_at t = pg_time (w_now w + ttl)"
      "w_db w' = (w_db w)\<lparr>t_tokens := t_tokens (w_db w) @ [t]\<rparr>"
proof -
  show ?thesis
  proof (cases "al_random l (w_fresh w) RefreshTokenBytes")
    case (Inl msg)
    with assms that(1) show ?thesis by (auto simp: IssueRefresh_def)
  next
    case (Inr buf)
    let ?w1 = "w\<lparr>w_fresh := Suc (w_fresh w)\<rparr>" and ?raw = "base64_raw_url buf"
    obtain r2 w2 where ins: "InsertRefreshToken e ctx userID (hashToken l ?raw) (w_now w + ttl) ?w1 = (r2, w2)"
      by fastforce
    have r: "w' = w2" "r = (case r2 of Inl err \<Rightarrow> Inl err | Inr _ \<Rightarrow> Inr (?raw, w_now w + ttl))"
      using assms Inr ins by (auto simp: IssueRefresh_def split: sum.splits)
    from ins show ?thesis
    proof (cases rule: InsertRefreshToken_cases)
      case (fail err)
      with r show ?thesis by (intro that(1)) auto
    next
      case (applied t)
      with r show ?thesis by (intro that(2) [of ?raw t]) (auto simp: token_of_def token_active_def)
    qed
  qed
qed

text \<open>The accounts invariant under the three writes of the token table.\<close>

lemma accounts_ok_insert:
  assumes ok: "accounts_ok w" and w': "w_db w' = (w_db w)\<lparr>t_tokens := t_tokens (w_db w) @ [t]\<rparr>"
    and new: "token_of w (rt_token_hash t) = None" "rt_id t \<notin> rt_id ` set (t_tokens (w_db w))"
    and user: "rt_user_id t \<in> au_id ` set (t_users (w_db w))" and rep: "rt_replaced_by t = None"
  shows "accounts_ok w'"
  using assms unfolding accounts_ok_def token_of_def row_of_None_iff by auto

lemma accounts_ok_revoke:
  assumes ok: "accounts_ok w"
    and w': "w_db w' = (w_db w)\<lparr>t_tokens := map_rows (\<lambda>r. rt_id r = i \<and> rt_revoked_at r = None)
       (revoke_row t x) (t_tokens (w_db w))\<rparr>"
    and rep: "\<And>j r. x = Some j \<Longrightarrow> r \<in> set (t_tokens (w_db w)) \<Longrightarrow> rt_id r = i \<Longrightarrow>
       \<exists>n \<in> set (t_tokens (w_db w)). rt_id n = j \<and> rt_user_id n = rt_user_id r"
  shows "accounts_ok w'"
proof -
  let ?P = "\<lambda>r. rt_id r = i \<and> rt_revoked_at r = None" and ?T = "t_tokens (w_db w)"
  let ?g = "\<lambda>r. if ?P r then revoke_row t x r else r"
  have T': "t_tokens (w_db w') = map_rows ?P (revoke_row t x) ?T" and U': "t_users (w_db w') = t_users (w_db w)"
    using w' by simp_all
  have set': "set (t_tokens (w_db w')) = ?g ` set ?T" by (simp add: T' map_rows_def)
  have keep: "\<exists>n \<in> set (t_tokens (w_db w')). rt_id n = a \<and> rt_user_id n = b"
    if ex: "\<exists>n \<in> set ?T. rt_id n = a \<and> rt_user_id n = b" for a b
  proof -
    obtain n where "n \<in> set ?T" "rt_id n = a" "rt_user_id n = b" using ex by blast
    then show ?thesis by (intro bexI [of _ "?g n"]) (simp_all add: set')
  qed
  have each: "\<not> token_active (?g r) \<and> (\<exists>n \<in> set (t_tokens (w_db w')). rt_id n = j \<and> rt_user_id n = rt_user_id (?g r))"
    if r: "r \<in> set ?T" "rt_replaced_by (?g r) = Some j" for r j
  proof (cases "?P r")
    case True
    with r rep have "\<exists>n \<in> set ?T. rt_id n = j \<and> rt_user_id n = rt_user_id r" by (auto split: if_splits)
    then show ?thesis using True keep [of j "rt_user_id r"] by simp
  next
    case False
    with r ok have "\<not> token_active r" "\<exists>n \<in> set ?T. rt_id n = j \<and> rt_user_id n = rt_user_id r"
      by (auto simp: accounts_ok_def)
    then show ?thesis using False keep [of j "rt_user_id r"] by auto
  qed
  have rep': "\<forall>r \<in> set (t_tokens (w_db w')). \<forall>j. rt_replaced_by r = Some j \<longrightarrow> \<not> token_active r \<and>
      (\<exists>n \<in> set (t_tokens (w_db w')). rt_id n = j \<and> rt_user_id n = rt_user_id r)"
  proof (intro ballI allI impI)
    fix r j assume r: "r \<in> set (t_tokens (w_db w'))" "rt_replaced_by r = Some j"
    obtain r0 where r0: "r0 \<in> set ?T" "r = ?g r0" using r(1) unfolding set' by blast
    show "\<not> token_active r \<and> (\<exists>n \<in> set (t_tokens (w_db w')). rt_id n = j \<and> rt_user_id n = rt_user_id r)"
      unfolding r0(2) by (rule each [OF r0(1)]) (rule r(2) [unfolded r0(2)])
  qed
  have users: "rt_user_id ` set (t_tokens (w_db w')) = rt_user_id ` set ?T"
    unfolding set' image_image by (rule image_cong) simp_all
  show ?thesis
    using ok rep' users unfolding accounts_ok_def U'
    by (simp add: T' token_revoke.keys_map_rows token_revoke_id.keys_map_rows)
qed

lemma accounts_ok_revoke_all:
  assumes ok: "accounts_ok w"
    and w': "w_db w' = (w_db w)\<lparr>t_tokens := map_rows (\<lambda>r. rt_user_id r = u \<and> rt_revoked_at r = None)
       (revoke_only t) (t_tokens (w_db w))\<rparr>"
  shows "accounts_ok w'"
proof -
  let ?P = "\<lambda>r. rt_user_id r = u \<and> rt_revoked_at r = None" and ?T = "t_tokens (w_db w)"
  let ?g = "\<lambda>r. if ?P r then revoke_only t r else r"
  have T': "t_tokens (w_db w') = map_rows ?P (revoke_only t) ?T" and U': "t_users (w_db w') = t_users (w_db w)"
    using w' by simp_all
  have set': "set (t_tokens (w_db w')) = ?g ` set ?T" by (simp add: T' map_rows_def)
  have keep: "\<exists>n \<in> set (t_tokens (w_db w')). rt_id n = a \<and> rt_user_id n = b"
    if ex: "\<exists>n \<in> set ?T. rt_id n = a \<and> rt_user_id n = b" for a b
  proof -
    obtain n where "n \<in> set ?T" "rt_id n = a" "rt_user_id n = b" using ex by blast
    then show ?thesis by (intro bexI [of _ "?g n"]) (simp_all add: set')
  qed
  have each: "\<not> token_active (?g r) \<and> (\<exists>n \<in> set (t_tokens (w_db w')). rt_id n = j \<and> rt_user_id n = rt_user_id (?g r))"
    if r: "r \<in> set ?T" "rt_replaced_by (?g r) = Some j" for r j
  proof -
    have "rt_replaced_by r = Some j" using r(2) by (simp split: if_splits)
    with r ok have "\<not> token_active r" "\<exists>n \<in> set ?T. rt_id n = j \<and> rt_user_id n = rt_user_id r"
      by (auto simp: accounts_ok_def)
    then show ?thesis using keep [of j "rt_user_id r"] by auto
  qed
  have rep': "\<forall>r \<in> set (t_tokens (w_db w')). \<forall>j. rt_replaced_by r = Some j \<longrightarrow> \<not> token_active r \<and>
      (\<exists>n \<in> set (t_tokens (w_db w')). rt_id n = j \<and> rt_user_id n = rt_user_id r)"
  proof (intro ballI allI impI)
    fix r j assume r: "r \<in> set (t_tokens (w_db w'))" "rt_replaced_by r = Some j"
    obtain r0 where r0: "r0 \<in> set ?T" "r = ?g r0" using r(1) unfolding set' by blast
    show "\<not> token_active r \<and> (\<exists>n \<in> set (t_tokens (w_db w')). rt_id n = j \<and> rt_user_id n = rt_user_id r)"
      unfolding r0(2) by (rule each [OF r0(1)]) (rule r(2) [unfolded r0(2)])
  qed
  have users: "rt_user_id ` set (t_tokens (w_db w')) = rt_user_id ` set ?T"
    unfolding set' image_image by (rule image_cong) simp_all
  show ?thesis
    using ok rep' users unfolding accounts_ok_def U'
    by (simp add: T' token_revoke_all.keys_map_rows token_revoke_all_id.keys_map_rows)
qed

text \<open>Revoking everything leaves the user no live token, and others theirs.\<close>

lemma revoke_all_active:
  assumes "w_db w' = (w_db w)\<lparr>t_tokens := map_rows (\<lambda>r. rt_user_id r = u \<and> rt_revoked_at r = None)
       (revoke_only t) (t_tokens (w_db w))\<rparr>"
  shows "active_tokens w' u = []" and "v \<noteq> u \<Longrightarrow> active_tokens w' v = active_tokens w v"
proof -
  have "filter (\<lambda>r. rt_user_id r = u \<and> token_active r)
      (map_rows (\<lambda>r. rt_user_id r = u \<and> rt_revoked_at r = None) (revoke_only t) rows) = []" for rows
    by (induction rows) (auto simp: token_active_def revoke_only_def)
  then show "active_tokens w' u = []" by (simp add: active_tokens_def assms)
  have "v \<noteq> u \<Longrightarrow> filter (\<lambda>r. rt_user_id r = v \<and> token_active r)
      (map_rows (\<lambda>r. rt_user_id r = u \<and> rt_revoked_at r = None) (revoke_only t) rows) =
      filter (\<lambda>r. rt_user_id r = v \<and> token_active r) rows" for rows
    by (induction rows) (auto simp: token_active_def revoke_only_def)
  then show "v \<noteq> u \<Longrightarrow> active_tokens w' v = active_tokens w v" by (simp add: active_tokens_def assms)
qed

section \<open>Rotation in two halves\<close>

text \<open>
  \<open>RotateRefresh\<close> reads the row and decides, and only later issues and revokes, in statements of
  their own: another request can run in between. The two halves are the function.
\<close>

definition rotate_check ::
    "auth_lib \<Rightarrow> env \<Rightarrow> ctx \<Rightarrow> string \<Rightarrow> 'z dbworld_scheme \<Rightarrow> ((goerr + RefreshToken) \<times> string) \<times> 'z dbworld_scheme" where
  "rotate_check l e ctx raw w =
     (if raw = '''' then ((Inl (Sentinel ErrRefreshInvalid), uuid_Nil), w)
      else case GetRefreshTokenByHash e ctx (hashToken l raw) w of
        (Inl err, w1) \<Rightarrow>
          if errors_Is err ErrNotFound then ((Inl (Sentinel ErrRefreshInvalid), uuid_Nil), w1)
          else ((Inl err, uuid_Nil), w1)
      | (Inr row, w1) \<Rightarrow>
          if rt_revoked_at row \<noteq> None then ((Inl (Sentinel ErrRefreshReused), rt_user_id row), w1)
          else if rt_expires_at row < w_now w1 then ((Inl (Sentinel ErrRefreshExpired), rt_user_id row), w1)
          else ((Inr row, rt_user_id row), w1))"

definition rotate_issue ::
    "auth_lib \<Rightarrow> env \<Rightarrow> ctx \<Rightarrow> RefreshToken \<Rightarrow> duration \<Rightarrow> ('z, string \<times> instant) action" where
  "rotate_issue l e ctx row ttl w1 =
     (case IssueRefresh l e ctx (rt_user_id row) ttl w1 of
        (Inl err, w2) \<Rightarrow> (Inl err, w2)
      | (Inr (newRaw, newExpiresAt), w2) \<Rightarrow>
          (case GetRefreshTokenByHash e ctx (hashToken l newRaw) w2 of
             (Inl err, w3) \<Rightarrow> (Inl err, w3)
           | (Inr newRow, w3) \<Rightarrow>
               (case RevokeRefreshToken e ctx (rt_id row) (Some (rt_id newRow)) w3 of
                  (Inl err, w4) \<Rightarrow> (Inl err, w4)
                | (Inr _, w4) \<Rightarrow> (Inr (newRaw, newExpiresAt), w4))))"

lemma RotateRefresh_split:
  "RotateRefresh l e ctx raw ttl w =
     (case rotate_check l e ctx raw w of
        ((Inl err, u), w1) \<Rightarrow> ((Inl err, u), w1)
      | ((Inr row, u), w1) \<Rightarrow> (let (r, w2) = rotate_issue l e ctx row ttl w1 in ((r, u), w2)))"
  by (simp add: RotateRefresh_def rotate_check_def rotate_issue_def split: prod.split sum.split)

lemma rotate_check_ok:
  assumes "rotate_check l e ctx raw w = ((r, u), w')"
  shows "w_db w' = w_db w" and "w_now w \<le> w_now w'"
    and "r = Inr row \<Longrightarrow> token_of w (hashToken l raw) = Some row \<and> token_active row \<and>
      w_now w' \<le> rt_expires_at row \<and> u = rt_user_id row"
    and "r = Inl (Sentinel ErrRefreshReused) \<Longrightarrow>
      \<exists>row. token_of w (hashToken l raw) = Some row \<and> \<not> token_active row \<and> u = rt_user_id row"
proof -
  obtain r1 w1 where g: "GetRefreshTokenByHash e ctx (hashToken l raw) w = (r1, w1)" by fastforce
  note q = GetRefreshTokenByHash_ok [OF g]
  show "w_db w' = w_db w" "w_now w \<le> w_now w'"
    using assms g q(1,4) by (auto simp: rotate_check_def split: if_splits sum.splits)
  show "r = Inr row \<Longrightarrow> token_of w (hashToken l raw) = Some row \<and> token_active row \<and>
      w_now w' \<le> rt_expires_at row \<and> u = rt_user_id row"
    using assms g q(5) by (auto simp: rotate_check_def token_active_def split: if_splits sum.splits)
  show "\<exists>row. token_of w (hashToken l raw) = Some row \<and> \<not> token_active row \<and> u = rt_user_id row"
    if "r = Inl (Sentinel ErrRefreshReused)"
    using assms g q(5,7) that by (auto simp: rotate_check_def token_active_def split: if_splits sum.splits)
qed

lemma rotate_issue_cases:
  assumes run: "rotate_issue l e ctx row ttl w = (r, w')"
  obtains (nothing) err where "r = Inl err" "w_db w' = w_db w"
  | (issued) raw n where "token_of w (hashToken l raw) = None" "rt_id n \<notin> rt_id ` set (t_tokens (w_db w))"
      "rt_user_id row \<in> au_id ` set (t_users (w_db w))" "rt_user_id n = rt_user_id row"
      "rt_token_hash n = hashToken l raw" "token_active n" "rt_replaced_by n = None"
      "w_db w' = (w_db w)\<lparr>t_tokens := t_tokens (w_db w) @ [n]\<rparr>" "\<exists>err. r = Inl err"
  | (rotated) raw n t where "token_of w (hashToken l raw) = None" "rt_id n \<notin> rt_id ` set (t_tokens (w_db w))"
      "rt_user_id row \<in> au_id ` set (t_users (w_db w))" "rt_user_id n = rt_user_id row"
      "rt_token_hash n = hashToken l raw" "token_active n" "rt_replaced_by n = None"
      "w_db w' = (w_db w)\<lparr>t_tokens := map_rows (\<lambda>r. rt_id r = rt_id row \<and> rt_revoked_at r = None)
         (revoke_row t (Some (rt_id n))) (t_tokens (w_db w) @ [n])\<rparr>"
      "r = Inr (raw, w_now w + ttl)"
proof -
  obtain r1 w1 where i: "IssueRefresh l e ctx (rt_user_id row) ttl w = (r1, w1)" by fastforce
  from i show ?thesis
  proof (cases rule: IssueRefresh_cases)
    case (fail err)
    with run i have "r = Inl err" "w_db w' = w_db w" by (auto simp: rotate_issue_def)
    then show ?thesis by (rule nothing)
  next
    case (applied raw n)
    obtain r2 w2 where g: "GetRefreshTokenByHash e ctx (hashToken l raw) w1 = (r2, w2)" by fastforce
    note q = GetRefreshTokenByHash_ok [OF g]
    have tok: "token_of w1 (hashToken l raw) = Some n"
      using applied by (auto simp: token_of_def row_of_append)
    show ?thesis
    proof (cases r2)
      case (Inl err)
      with run i applied g q(1) show ?thesis by (intro issued [of raw n]) (auto simp: rotate_issue_def)
    next
      case (Inr m)
      then have m: "m = n" using q(5) tok by simp
      obtain r3 w3 where v: "RevokeRefreshToken e ctx (rt_id row) (Some (rt_id n)) w2 = (r3, w3)" by fastforce
      from v show ?thesis
      proof (cases rule: RevokeRefreshToken_cases)
        case (fail err)
        with run i applied g q(1) Inr m v show ?thesis
          by (intro issued [of raw n]) (auto simp: rotate_issue_def)
      next
        case app2: applied
        with run i applied g q(1) Inr m v show ?thesis
          by (intro rotated [of raw n "w_now w2"]) (auto simp: rotate_issue_def)
      qed
    qed
  qed
qed

end
