(* ===== verification/AuthApi.thy ===== *)
theory AuthApi
  imports Auth
begin

text \<open>
  The HTTP surface's envelopes (\<open>internal/server/dto.go\<close>), the authentication handlers
  (\<open>internal/server/auth_handler.go\<close>), the middleware as the router applies it, and the seeding of
  the first operator (\<open>cmd/server/main.go\<close>). A handler is a function from the request's parts to
  the response it writes. The framework's decoding of a body is not in the repository: a handler
  receives what it yields, the error's text or the request. \<open>fmt_time\<close> is how a time is written.
\<close>

section \<open>Envelopes\<close>

record response =
  rsp_status :: int
  rsp_body :: json

type_synonym ('z, 'r) handler = "string + 'r \<Rightarrow> 'z networld_scheme \<Rightarrow> response \<times> 'z networld_scheme"

definition okResponse :: "string \<Rightarrow> json option \<Rightarrow> json" where
  "okResponse msg data = JObj ([(''status'', JBool True)] @ omit_if (msg = '''') ''message'' (JStr msg) @
     (case data of None \<Rightarrow> [] | Some d \<Rightarrow> [(''data'', d)]))"

definition errResponse :: "string \<Rightarrow> string \<Rightarrow> json" where
  "errResponse err msg = JObj ([(''status'', JBool False), (''error'', JStr err)] @
     omit_if (msg = '''') ''message'' (JStr msg))"

definition reply :: "int \<Rightarrow> json \<Rightarrow> response" where
  "reply st j = \<lparr>rsp_status = st, rsp_body = j\<rparr>"

definition reply_err :: "int \<Rightarrow> string \<Rightarrow> string \<Rightarrow> response" where
  "reply_err st err msg = reply st (errResponse err msg)"

lemma reply_status [simp]: "rsp_status (reply st j) = st" "rsp_status (reply_err st err msg) = st"
  by (simp_all add: reply_def reply_err_def)

lemma reply_body [simp]: "rsp_body (reply st j) = j"
  by (simp add: reply_def)

text \<open>The middleware around a handler: a refused request never reaches it.\<close>

definition abort_body :: "string \<Rightarrow> json" where
  "abort_body msg = JObj [(''error'', JStr ''unauthorized''), (''message'', JStr msg), (''status'', JBool False)]"

definition with_auth ::
    "auth_lib \<Rightarrow> Keys \<Rightarrow> string list \<Rightarrow> string \<Rightarrow> instant \<Rightarrow> (string \<Rightarrow> 's \<Rightarrow> response \<times> 's) \<Rightarrow>
       's \<Rightarrow> response \<times> 's" where
  "with_auth l k roles header now h s =
     (case RequireAuth l k roles header now of
        Inl (st, msg) \<Rightarrow> (reply st (abort_body msg), s)
      | Inr (userID, role) \<Rightarrow> h userID s)"

section \<open>Requests\<close>

record LoginRequest =
  lq_email :: string
  lq_password :: string

record LogoutRequest =
  oq_refresh_token :: string
  oq_all :: bool

record CreateUserRequest =
  uq_email :: string
  uq_password :: string

text \<open>\<open>int(ttl.Seconds())\<close>, exact for lifetimes below 2 ^ 22 seconds.\<close>

definition whole_seconds :: "duration \<Rightarrow> int" where
  "whole_seconds d = (if 0 \<le> d then d div second else - ((- d) div second))"

definition TokenPairResponse :: "string \<Rightarrow> string \<Rightarrow> duration \<Rightarrow> json" where
  "TokenPairResponse access refresh ttl =
     JObj [(''access_token'', JStr access), (''refresh_token'', JStr refresh),
           (''expires_in'', JInt (whole_seconds ttl)), (''token_type'', JStr ''Bearer'')]"

definition user_json :: "(instant \<Rightarrow> string) \<Rightarrow> AuthUser \<Rightarrow> json" where
  "user_json fmt_time u =
     JObj [(''created_at'', JStr (fmt_time (au_created_at u))), (''email'', JStr (au_email u)),
           (''id'', JStr (au_id u)), (''role'', JStr (au_role u))]"

section \<open>Handlers\<close>

definition handleLogin :: "auth_lib \<Rightarrow> Keys \<Rightarrow> env \<Rightarrow> ctx \<Rightarrow> ('z, LoginRequest) handler" where
  "handleLogin l k e ctx body w =
     (case body of
        Inl msg \<Rightarrow> (reply_err 400 ''Validation failed'' msg, w)
      | Inr req \<Rightarrow>
          let email = TrimSpace (lq_email req) in
          if email = '''' \<or> lq_password req = '''' then
            (reply_err 400 ''email and password are required'' '''', w)
          else case GetAuthUserByEmail (al_lower l) e ctx email w of
            (Inl err, w1) \<Rightarrow>
              if errors_Is err ErrNotFound then (reply_err 401 ''invalid credentials'' '''', w1)
              else (reply_err 500 ''lookup failed'' (err_text err), w1)
          | (Inr user, w1) \<Rightarrow>
              (case CheckPassword l (au_password_hash user) (lq_password req) of
                 Some err \<Rightarrow>
                   if errors_Is err ErrPasswordMismatch then (reply_err 401 ''invalid credentials'' '''', w1)
                   else (reply_err 500 ''password check failed'' (err_text err), w1)
               | None \<Rightarrow>
                   let ttl = cfg_AccessTokenTTL (app_env (w_cfg w1));
                       rttl = cfg_RefreshTokenTTL (app_env (w_cfg w1)) in
                   (case IssueAccess l e k (au_id user) (au_role user) ttl w1 of
                      (Inl err, w2) \<Rightarrow> (reply_err 500 ''token issue failed'' (err_text err), w2)
                    | (Inr (access, _), w2) \<Rightarrow>
                        (case IssueRefresh l e ctx (au_id user) rttl w2 of
                           (Inl err, w3) \<Rightarrow> (reply_err 500 ''refresh issue failed'' (err_text err), w3)
                         | (Inr (refresh, _), w3) \<Rightarrow> (reply 200 (TokenPairResponse access refresh ttl), w3)))))"

definition handleRefresh :: "auth_lib \<Rightarrow> Keys \<Rightarrow> env \<Rightarrow> ctx \<Rightarrow> ('z, string) handler" where
  "handleRefresh l k e ctx body w =
     (case body of
        Inl msg \<Rightarrow> (reply_err 400 ''Validation failed'' msg, w)
      | Inr token \<Rightarrow>
          if token = '''' then (reply_err 400 ''refresh_token is required'' '''', w)
          else
            (case RotateRefresh l e ctx token (cfg_RefreshTokenTTL (app_env (w_cfg w))) w of
               ((Inl err, userID), w1) \<Rightarrow>
                 let w2 = (if errors_Is err ErrRefreshReused \<and> userID \<noteq> uuid_Nil
                           then snd (RevokeAllRefreshTokensForUser e ctx userID w1) else w1)
                 in if errors_Is err ErrRefreshInvalid \<or> errors_Is err ErrRefreshExpired \<or>
                       errors_Is err ErrRefreshReused \<or> errors_Is err ErrRefreshRevoked
                    then (reply_err 401 ''invalid refresh token'' '''', w2)
                    else (reply_err 500 ''refresh failed'' (err_text err), w2)
             | ((Inr (newRefresh, _), userID), w1) \<Rightarrow>
                 (case GetAuthUserByID e ctx userID w1 of
                    (Inl err, w2) \<Rightarrow> (reply_err 500 ''user lookup failed'' (err_text err), w2)
                  | (Inr user, w2) \<Rightarrow>
                      let ttl = cfg_AccessTokenTTL (app_env (w_cfg w2)) in
                      (case IssueAccess l e k (au_id user) (au_role user) ttl w2 of
                         (Inl err, w3) \<Rightarrow> (reply_err 500 ''token issue failed'' (err_text err), w3)
                       | (Inr (access, _), w3) \<Rightarrow> (reply 200 (TokenPairResponse access newRefresh ttl), w3)))))"

text \<open>The user of the request, as the middleware left it.\<close>

definition handleLogout :: "auth_lib \<Rightarrow> env \<Rightarrow> ctx \<Rightarrow> string option \<Rightarrow> ('z, LogoutRequest) handler" where
  "handleLogout l e ctx user body w =
     (case body of
        Inl msg \<Rightarrow> (reply_err 400 ''Validation failed'' msg, w)
      | Inr req \<Rightarrow>
          if oq_all req then
            (case user of
               None \<Rightarrow> (reply_err 401 ''unauthorized'' '''', w)
             | Some userID \<Rightarrow>
                 (case RevokeAllRefreshTokensForUser e ctx userID w of
                    (Inl err, w1) \<Rightarrow> (reply_err 500 ''logout-all failed'' (err_text err), w1)
                  | (Inr _, w1) \<Rightarrow> (reply 200 (okResponse ''all sessions revoked'' None), w1)))
          else if oq_refresh_token req = '''' then
            (reply_err 400 ''refresh_token is required (or set all=true)'' '''', w)
          else
            (case RevokeRefresh l e ctx (oq_refresh_token req) w of
               (Inl err, w1) \<Rightarrow> (reply_err 500 ''logout failed'' (err_text err), w1)
             | (Inr _, w1) \<Rightarrow> (reply 200 (okResponse ''logged out'' None), w1)))"

definition handleMe ::
    "(instant \<Rightarrow> string) \<Rightarrow> env \<Rightarrow> ctx \<Rightarrow> string option \<Rightarrow> 'z networld_scheme \<Rightarrow> response \<times> 'z networld_scheme" where
  "handleMe fmt_time e ctx user w =
     (case user of
        None \<Rightarrow> (reply_err 401 ''unauthorized'' '''', w)
      | Some userID \<Rightarrow>
          (case GetAuthUserByID e ctx userID w of
             (Inl err, w1) \<Rightarrow>
               if errors_Is err ErrNotFound then (reply_err 401 ''user no longer exists'' '''', w1)
               else (reply_err 500 ''lookup failed'' (err_text err), w1)
           | (Inr u, w1) \<Rightarrow> (reply 200 (okResponse '''' (Some (user_json fmt_time u))), w1)))"

definition handleCreateUser ::
    "(instant \<Rightarrow> string) \<Rightarrow> auth_lib \<Rightarrow> env \<Rightarrow> ctx \<Rightarrow> ('z, CreateUserRequest) handler" where
  "handleCreateUser fmt_time l e ctx body w =
     (case body of
        Inl msg \<Rightarrow> (reply_err 400 ''Validation failed'' msg, w)
      | Inr req \<Rightarrow>
          let email = TrimSpace (uq_email req) in
          if email = '''' \<or> \<not> Contains email ''@'' then (reply_err 400 ''a valid email is required'' '''', w)
          else case HashPassword l (uq_password req) w of
            (Inl err, w1) \<Rightarrow>
              if errors_Is err ErrPasswordTooShort then (reply_err 400 (err_text err) '''', w1)
              else (reply_err 500 ''hash password'' (err_text err), w1)
          | (Inr hash, w1) \<Rightarrow>
              (case CreateAuthUser (al_lower l) e ctx email hash RoleOperator w1 of
                 (Inl err, w2) \<Rightarrow>
                   if isUniqueViolation err then (reply_err 409 ''email already registered'' '''', w2)
                   else (reply_err 500 ''create user'' (err_text err), w2)
               | (Inr user, w2) \<Rightarrow> (reply 201 (okResponse '''' (Some (user_json fmt_time user))), w2)))"

definition seedBootstrapOperator :: "auth_lib \<Rightarrow> env \<Rightarrow> ctx \<Rightarrow> ('z, unit) netaction" where
  "seedBootstrapOperator l e ctx w =
     (case CountAuthUsers e ctx w of
        (Inl err, w1) \<Rightarrow> (Inl err, w1)
      | (Inr n, w1) \<Rightarrow>
          let cfg = app_env (w_cfg w1) in
          if 0 < n then (Inr (), w1)
          else if cfg_BootstrapEmail cfg = '''' \<or> cfg_BootstrapPassword cfg = '''' then (Inr (), w1)
          else case HashPassword l (cfg_BootstrapPassword cfg) w1 of
            (Inl err, w2) \<Rightarrow> (Inl err, w2)
          | (Inr hash, w2) \<Rightarrow>
              (case CreateAuthUser (al_lower l) e ctx (cfg_BootstrapEmail cfg) hash RoleOperator w2 of
                 (Inl err, w3) \<Rightarrow> (Inl err, w3)
               | (Inr u, w3) \<Rightarrow> (Inr (), w3)))"

section \<open>Lemmas\<close>

text \<open>
  What rotation leaves of each token: the issuing half, once the old token \<open>old\<close> is found, adds one
  and marks the old one replaced.
\<close>

lemma rotate_issue_views:
  assumes ok: "accounts_ok w" and old: "token_of w h0 = Some old" "token_active old"
    and new: "token_of w (rt_token_hash n) = None" "rt_id n \<notin> rt_id ` set (t_tokens (w_db w))"
    and db: "w_db w' = (w_db w)\<lparr>t_tokens := map_rows (\<lambda>r. rt_id r = rt_id old \<and> rt_revoked_at r = None)
         (revoke_row t (Some (rt_id n))) (t_tokens (w_db w) @ [n])\<rparr>"
  shows "token_of w' h0 = Some (revoke_row t (Some (rt_id n)) old)" and "token_of w' (rt_token_hash n) = Some n"
    and "h \<noteq> h0 \<Longrightarrow> h \<noteq> rt_token_hash n \<Longrightarrow> token_of w' h = token_of w h"
proof -
  let ?P = "\<lambda>r. rt_id r = rt_id old \<and> rt_revoked_at r = None"
  have in_row: "r \<in> set (t_tokens (w_db w)) \<and> rt_token_hash r = k" if "token_of w k = Some r" for k r
    using row_of_SomeD [of rt_token_hash k "t_tokens (w_db w)" r] that by (simp add: token_of_def)
  have ids: "distinct (map rt_id (t_tokens (w_db w)))" using ok by (simp add: accounts_ok_def)
  have tok': "token_of w' k = map_option (\<lambda>r. if ?P r then revoke_row t (Some (rt_id n)) r else r)
      (case token_of w k of None \<Rightarrow> if k = rt_token_hash n then Some n else None | Some r \<Rightarrow> Some r)" for k
    by (simp add: token_of_def db token_revoke.row_of_map_rows row_of_append split: option.split)
  show "token_of w' h0 = Some (revoke_row t (Some (rt_id n)) old)"
    using old by (simp add: tok' token_active_def)
  have "rt_id n \<noteq> rt_id old" using new(2) in_row [OF old(1)] by auto
  then show "token_of w' (rt_token_hash n) = Some n" using new(1) by (simp add: tok')
  show "token_of w' h = token_of w h" if "h \<noteq> h0" "h \<noteq> rt_token_hash n"
  proof (cases "token_of w h")
    case (Some r)
    with in_row [OF Some] in_row [OF old(1)] ids that(1) have "rt_id r \<noteq> rt_id old" by (metis distinct_map inj_onD)
    with Some show ?thesis by (simp add: tok')
  qed (use that in \<open>simp add: tok'\<close>)
qed

lemma rotate_issue_accounts:
  assumes ok: "accounts_ok w" and old: "old \<in> set (t_tokens (w_db w))"
    and new: "token_of w (rt_token_hash n) = None" "rt_id n \<notin> rt_id ` set (t_tokens (w_db w))"
      "rt_user_id old \<in> au_id ` set (t_users (w_db w))" "rt_user_id n = rt_user_id old" "rt_replaced_by n = None"
    and db: "w_db w' = (w_db w)\<lparr>t_tokens := map_rows (\<lambda>r. rt_id r = rt_id old \<and> rt_revoked_at r = None)
         (revoke_row t (Some (rt_id n))) (t_tokens (w_db w) @ [n])\<rparr>"
  shows "accounts_ok w'"
proof -
  let ?w2 = "set_tokens (t_tokens (w_db w) @ [n]) w"
  have "accounts_ok ?w2"
    by (rule accounts_ok_insert [OF ok, of _ n]) (use new in \<open>auto simp: set_tokens_def\<close>)
  then show ?thesis
  proof (rule accounts_ok_revoke)
    show "w_db w' = (w_db ?w2)\<lparr>t_tokens := map_rows (\<lambda>r. rt_id r = rt_id old \<and> rt_revoked_at r = None)
        (revoke_row t (Some (rt_id n))) (t_tokens (w_db ?w2))\<rparr>"
      by (simp add: db set_tokens_def)
    show "\<exists>m \<in> set (t_tokens (w_db ?w2)). rt_id m = j \<and> rt_user_id m = rt_user_id r"
      if "Some (rt_id n) = Some j" "r \<in> set (t_tokens (w_db ?w2))" "rt_id r = rt_id old" for j r
    proof -
      have "rt_id n \<noteq> rt_id old" "distinct (map rt_id (t_tokens (w_db w)))" using new(2) old ok by (auto simp: accounts_ok_def)
      then have "r = old" using that(2,3) old by (auto dest: inj_onD simp: distinct_map)
      then show ?thesis using new(4) that(1) by auto
    qed
  qed
qed

lemma RotateRefresh_ok:
  assumes run: "RotateRefresh l e ctx raw ttl w = ((Inr (newRaw, exp), u), w')" and ok: "accounts_ok w"
  shows "\<exists>old new t. token_of w (hashToken l raw) = Some old \<and> token_active old \<and> w_now w \<le> rt_expires_at old \<and>
    u = rt_user_id old \<and> token_of w (hashToken l newRaw) = None \<and>
    token_of w' (hashToken l raw) = Some (revoke_row t (Some (rt_id new)) old) \<and>
    token_of w' (hashToken l newRaw) = Some new \<and> token_active new \<and> rt_user_id new = u \<and>
    (\<forall>h. h \<noteq> hashToken l raw \<and> h \<noteq> hashToken l newRaw \<longrightarrow> token_of w' h = token_of w h)"
    and "accounts_ok w'"
proof -
  obtain rc u' w1 where c: "rotate_check l e ctx raw w = ((rc, u'), w1)" by (metis prod.collapse)
  then obtain old where rc: "rc = Inr old" and u: "u' = u"
    and i: "rotate_issue l e ctx old ttl w1 = (Inr (newRaw, exp), w')"
    using run by (cases rc) (auto simp: RotateRefresh_split Let_def split: prod.splits)
  note ck = rotate_check_ok(1,2) [OF c] rotate_check_ok(3) [OF c rc]
  have tok1: "token_of w1 h = token_of w h" for h using ck(1) by (simp add: token_of_def)
  have ok1: "accounts_ok w1" using ok ck(1) by (simp add: accounts_ok_def)
  from i obtain n t where
    new: "token_of w1 (rt_token_hash n) = None" "rt_id n \<notin> rt_id ` set (t_tokens (w_db w1))"
      "rt_user_id old \<in> au_id ` set (t_users (w_db w1))" "rt_user_id n = rt_user_id old" "rt_replaced_by n = None"
    and n: "rt_token_hash n = hashToken l newRaw" "token_active n"
    and db: "w_db w' = (w_db w1)\<lparr>t_tokens := map_rows (\<lambda>r. rt_id r = rt_id old \<and> rt_revoked_at r = None)
         (revoke_row t (Some (rt_id n))) (t_tokens (w_db w1) @ [n])\<rparr>"
    by (cases rule: rotate_issue_cases) auto
  have old: "token_of w1 (hashToken l raw) = Some old" "token_active old" using ck tok1 by simp_all
  then have "row_of rt_token_hash (hashToken l raw) (t_tokens (w_db w1)) = Some old" by (simp add: token_of_def)
  from row_of_SomeD [OF this] rotate_issue_accounts [OF ok1 _ new db] show "accounts_ok w'" by blast
  show "\<exists>old new t. token_of w (hashToken l raw) = Some old \<and> token_active old \<and> w_now w \<le> rt_expires_at old \<and>
    u = rt_user_id old \<and> token_of w (hashToken l newRaw) = None \<and>
    token_of w' (hashToken l raw) = Some (revoke_row t (Some (rt_id new)) old) \<and>
    token_of w' (hashToken l newRaw) = Some new \<and> token_active new \<and> rt_user_id new = u \<and>
    (\<forall>h. h \<noteq> hashToken l raw \<and> h \<noteq> hashToken l newRaw \<longrightarrow> token_of w' h = token_of w h)"
    using ck new(1,4) n tok1 u rotate_issue_views [OF ok1 old new(1,2) db]
    by (intro exI [of _ old] exI [of _ n] exI [of _ t]) auto
qed

text \<open>The hypotheses on the libraries: what their documentation promises.\<close>

definition bcrypt_ok :: "auth_lib \<Rightarrow> bool" where
  "bcrypt_ok l \<longleftrightarrow>
     (\<forall>salt cost plain h. al_bcrypt_hash l salt cost plain = Inr h \<longrightarrow> al_bcrypt_compare l h plain = BcryptMatch)"

definition jwt_ok :: "auth_lib \<Rightarrow> Keys \<Rightarrow> bool" where
  "jwt_ok l k \<longleftrightarrow>
     (\<forall>c tok now. al_jwt_sign l (k_private k) c = Inr tok \<and> now < jc_expires_at c \<longrightarrow>
        (\<exists>c'. al_jwt_parse l (k_public k) (jc_issuer c) [''RS256''] now tok = Inr c' \<and>
              jc_subject c' = jc_subject c \<and> jc_role c' = jc_role c))"

lemma CreateAuthUser_ok:
  assumes "CreateAuthUser lower e ctx email hash role w = (Inr u, w')"
  shows "au_email u = email" and "au_password_hash u = hash" and "lower email \<notin> (lower \<circ> au_email) ` set (t_users (w_db w))"
    and "w_db w' = (w_db w)\<lparr>t_users := t_users (w_db w) @ [u]\<rparr>" and "au_role u = (if role = '''' then RoleOperator else role)"
    and "au_id u \<notin> au_id ` set (t_users (w_db w))" and "au_id u \<in> range (env_uuid e)"
  using assms
  by (auto simp: CreateAuthUser_def fresh_uuid_def set_users_def Let_def dest!: db_stmt_spec
      split: prod.splits sum.splits if_splits)

lemma GetAuthUserByEmail_ok:
  assumes "GetAuthUserByEmail lower e ctx email w = (r, w')"
  shows "w_db w' = w_db w" and "r = Inr u \<Longrightarrow> row_of (lower \<circ> au_email) (lower email) (t_users (w_db w)) = Some u"
    and "r = Inl err \<Longrightarrow> errors_Is err ErrNotFound \<Longrightarrow>
      row_of (lower \<circ> au_email) (lower email) (t_users (w_db w)) = None"
  using assms
  by (auto simp: GetAuthUserByEmail_def dest!: db_stmt_spec split: prod.splits sum.splits option.splits)

lemma HashPassword_ok:
  assumes "HashPassword l plain w = (r, w')"
  shows "w_db w' = w_db w" and "r = Inr h \<Longrightarrow> \<exists>salt. al_bcrypt_hash l salt BcryptCost plain = Inr h"
    and "r = Inr h \<Longrightarrow> MinPasswordLength \<le> length plain"
  using assms by (auto simp: HashPassword_def Let_def split: if_splits sum.splits)

lemma handleCreateUser_created:
  assumes "handleCreateUser fmt l e ctx body w = (rsp, w')" and "rsp_status rsp = 201"
  obtains req u h salt where "body = Inr req" "al_bcrypt_hash l salt BcryptCost (uq_password req) = Inr h"
    "au_password_hash u = h" "au_email u = TrimSpace (uq_email req)" "au_role u = RoleOperator"
    "al_lower l (au_email u) \<notin> (al_lower l \<circ> au_email) ` set (t_users (w_db w))"
    "w_db w' = (w_db w)\<lparr>t_users := t_users (w_db w) @ [u]\<rparr>" "MinPasswordLength \<le> length (uq_password req)"
    "TrimSpace (uq_email req) \<noteq> ''''" "au_id u \<in> range (env_uuid e)"
proof -
  obtain req where b: "body = Inr req" using assms by (cases body) (auto simp: handleCreateUser_def)
  obtain rh w1 where h: "HashPassword l (uq_password req) w = (rh, w1)" by fastforce
  then obtain h' where rh: "rh = Inr h'"
    using assms b by (cases rh) (auto simp: handleCreateUser_def Let_def split: if_splits)
  obtain ru w2 where c: "CreateAuthUser (al_lower l) e ctx (TrimSpace (uq_email req)) h' RoleOperator w1 = (ru, w2)"
    by fastforce
  then obtain u where ru: "ru = Inr u"
    using assms b h rh by (cases ru) (auto simp: handleCreateUser_def Let_def split: if_splits)
  have ne: "TrimSpace (uq_email req) \<noteq> ''''" and w': "w' = w2"
    using assms b h c rh ru by (auto simp: handleCreateUser_def Let_def split: if_splits)
  note hp = HashPassword_ok(1) [OF h] HashPassword_ok(2,3) [OF h rh]
  note cu = CreateAuthUser_ok [OF c [unfolded ru]]
  obtain salt where "al_bcrypt_hash l salt BcryptCost (uq_password req) = Inr h'" using hp(2) by blast
  with that [of req salt h' u] b ne cu hp w' show ?thesis by simp
qed

lemma handleLogin_issues:
  fixes w :: "'z networld_scheme"
  assumes "handleLogin l k e ctx (Inr req) w = (rsp, w')" and "rsp_status rsp = 200"
  obtains user access x refresh and w1 w2 :: "'z networld_scheme" where
    "row_of (al_lower l \<circ> au_email) (al_lower l (TrimSpace (lq_email req))) (t_users (w_db w)) = Some user"
    "IssueAccess l e k (au_id user) (au_role user) (cfg_AccessTokenTTL (app_env (w_cfg w))) w1 = (Inr (access, x), w2)"
    "rsp_body rsp = TokenPairResponse access refresh (cfg_AccessTokenTTL (app_env (w_cfg w)))" "w_now w \<le> w_now w1"
proof -
  let ?m = "TrimSpace (lq_email req)"
  obtain rg w1 where g: "GetAuthUserByEmail (al_lower l) e ctx ?m w = (rg, w1)" by fastforce
  then obtain user where rg: "rg = Inr user"
    using assms by (cases rg) (auto simp: handleLogin_def Let_def split: if_splits)
  have w1: "w_cfg w1 = w_cfg w" "w_now w \<le> w_now w1"
    using g by (auto simp: GetAuthUserByEmail_def dest!: db_stmt_spec more_fields split: prod.splits sum.splits option.splits)
  obtain access x w2 where i: "IssueAccess l e k (au_id user) (au_role user) (cfg_AccessTokenTTL (app_env (w_cfg w))) w1 =
      (Inr (access, x), w2)"
    using assms g rg w1 by (auto simp: handleLogin_def Let_def split: if_splits option.splits sum.splits prod.splits)
  with assms g rg w1 obtain refresh where
    "rsp_body rsp = TokenPairResponse access refresh (cfg_AccessTokenTTL (app_env (w_cfg w)))"
    by (auto simp: handleLogin_def Let_def split: if_splits option.splits sum.splits prod.splits)
  from that [OF GetAuthUserByEmail_ok(2) [OF g rg] i this w1(2)] show ?thesis .
qed

lemma TokenPairResponse_inject:
  "TokenPairResponse a r t = TokenPairResponse a' r' t' \<Longrightarrow> a = a' \<and> r = r'"
  by (simp add: TokenPairResponse_def)

lemma numeric_date_mono: "s \<le> t \<Longrightarrow> numeric_date s \<le> numeric_date t"
  by (simp add: numeric_date_def second_def zdiv_mono1)

lemma IssueAccess_expiry:
  "IssueAccess l e k userID role ttl w = (Inr (tok, exp), w') \<Longrightarrow> exp = w_now w + ttl"
  by (auto simp: IssueAccess_def Let_def split: sum.splits prod.splits)

lemma rotate_issue_tokens:
  assumes run: "rotate_issue l e ctx row ttl w = (Inr (raw, x), w')"
    and row: "rt_id row \<in> rt_id ` set (t_tokens (w_db w))"
  shows "\<exists>n. token_of w (hashToken l raw) = None \<and> token_of w' (hashToken l raw) = Some n \<and> token_active n \<and>
    rt_user_id n = rt_user_id row \<and> rt_id n \<noteq> rt_id row"
    and "token_of w h = Some t \<Longrightarrow> rt_id t \<noteq> rt_id row \<Longrightarrow> token_of w' h = Some t"
    and "rt_id ` set (t_tokens (w_db w)) \<subseteq> rt_id ` set (t_tokens (w_db w'))"
proof -
  from run obtain n y where
    new: "token_of w (hashToken l raw) = None" "rt_id n \<notin> rt_id ` set (t_tokens (w_db w))"
      "rt_user_id n = rt_user_id row" "rt_token_hash n = hashToken l raw" "token_active n"
    and db: "w_db w' = (w_db w)\<lparr>t_tokens := map_rows (\<lambda>r. rt_id r = rt_id row \<and> rt_revoked_at r = None)
         (revoke_row y (Some (rt_id n))) (t_tokens (w_db w) @ [n])\<rparr>"
    by (cases rule: rotate_issue_cases) auto
  have tok': "token_of w' h = map_option
      (\<lambda>r. if rt_id r = rt_id row \<and> rt_revoked_at r = None then revoke_row y (Some (rt_id n)) r else r)
      (case token_of w h of None \<Rightarrow> if h = hashToken l raw then Some n else None | Some r \<Rightarrow> Some r)" for h
    using new(4) by (simp add: token_of_def db token_revoke.row_of_map_rows row_of_append split: option.split)
  have nid: "rt_id n \<noteq> rt_id row" using new(2) row by auto
  show "\<exists>n. token_of w (hashToken l raw) = None \<and> token_of w' (hashToken l raw) = Some n \<and> token_active n \<and>
    rt_user_id n = rt_user_id row \<and> rt_id n \<noteq> rt_id row"
    using new nid by (intro exI [of _ n]) (simp add: tok')
  show "token_of w h = Some t \<Longrightarrow> rt_id t \<noteq> rt_id row \<Longrightarrow> token_of w' h = Some t" by (simp add: tok')
  have "map rt_id (t_tokens (w_db w')) = map rt_id (t_tokens (w_db w) @ [n])"
    by (simp add: db token_revoke_id.keys_map_rows)
  then have "rt_id ` set (t_tokens (w_db w')) = rt_id ` set (t_tokens (w_db w) @ [n])" by (metis set_map)
  then show "rt_id ` set (t_tokens (w_db w)) \<subseteq> rt_id ` set (t_tokens (w_db w'))" by auto
qed

lemma db_stmt_faultless:
  "(\<And>n. env_dbfault e n = None) \<Longrightarrow>
     db_stmt e None w = (Inr (), w\<lparr>w_now := w_now w + int (env_dblatency e (w_dbops w)), w_dbops := Suc (w_dbops w)\<rparr>)"
  by (simp add: db_stmt_def ctx_expired_def)

text \<open>A revoked token presented again, and what a rotation that went through leaves, whatever the answer.\<close>

lemma handleRefresh_reused:
  assumes h: "handleRefresh l k e None (Inr raw) w = (rsp, w')" and raw: "raw \<noteq> ''''"
    and old: "token_of w (hashToken l raw) = Some old" "\<not> token_active old" "rt_user_id old \<noteq> uuid_Nil"
    and db: "\<And>n. env_dbfault e n = None"
  shows "rsp_status rsp = 401" and "active_tokens w' (rt_user_id old) = []"
    and "v \<noteq> rt_user_id old \<Longrightarrow> active_tokens w' v = active_tokens w v"
proof -
  note st = db_stmt_faultless [OF db]
  obtain w1 where rot: "RotateRefresh l e None raw (cfg_RefreshTokenTTL (app_env (w_cfg w))) w =
      ((Inl (Sentinel ErrRefreshReused), rt_user_id old), w1)" and w1: "w_db w1 = w_db w"
    using raw old by (simp add: RotateRefresh_def GetRefreshTokenByHash_eq st token_active_def)
  obtain r w2 where rv: "RevokeAllRefreshTokensForUser e None (rt_user_id old) w1 = (r, w2)" by fastforce
  have w': "w' = w2" and rsp: "rsp_status rsp = 401"
    using h raw old(3) rot rv by (auto simp: handleRefresh_def)
  from rsp show "rsp_status rsp = 401" .
  have "active_tokens w1 v = active_tokens w v" for v by (simp add: active_tokens_def w1)
  moreover have "\<exists>t. w_db w2 = (w_db w1)\<lparr>t_tokens := map_rows (\<lambda>r. rt_user_id r = rt_user_id old \<and> rt_revoked_at r = None)
       (revoke_only t) (t_tokens (w_db w1))\<rparr>"
    using rv by (auto simp: RevokeAllRefreshTokensForUser_def st set_tokens_def)
  ultimately show "active_tokens w' (rt_user_id old) = []" and "v \<noteq> rt_user_id old \<Longrightarrow> active_tokens w' v = active_tokens w v"
    using w' revoke_all_active [where w' = w2 and w = w1 and u = "rt_user_id old"] by auto
qed

lemma handleRefresh_after_rotation:
  assumes "RotateRefresh l e ctx raw (cfg_RefreshTokenTTL (app_env (w_cfg w))) w = ((Inr r, u), w0)"
    and "handleRefresh l k e ctx (Inr raw) w = (rsp, w1)"
  shows "raw \<noteq> ''''" and "w_db w1 = w_db w0" and "rsp_status rsp = 200 \<or> rsp_status rsp = 500"
proof -
  show raw: "raw \<noteq> ''''" using assms(1) by (auto simp: RotateRefresh_def)
  obtain newRaw x where r: "r = (newRaw, x)" by fastforce
  obtain q w2 where q: "GetAuthUserByID e ctx u w0 = (q, w2)" by fastforce
  then have db: "w_db w2 = w_db w0"
    by (auto simp: GetAuthUserByID_def dest!: db_stmt_spec split: prod.splits sum.splits option.splits)
  show "w_db w1 = w_db w0" and "rsp_status rsp = 200 \<or> rsp_status rsp = 500"
    using assms raw q db unfolding r
    by (auto simp: handleRefresh_def IssueAccess_def fresh_uuid_def Let_def split: sum.splits prod.splits if_splits)
qed

section \<open>Properties\<close>

text \<open>The libraries the witnesses use: they satisfy the hypotheses and nothing more is claimed.\<close>

definition toy_lib :: auth_lib where
  "toy_lib =
     \<lparr>al_bcrypt_hash = (\<lambda>salt cost p. Inr (CHR ''h'' # p)),
      al_bcrypt_compare = (\<lambda>h p. if h = CHR ''h'' # p then BcryptMatch else BcryptMismatch),
      al_sha256 = (\<lambda>s. s), al_random = (\<lambda>n k. Inr [char_of n]),
      al_jwt_sign = (\<lambda>key c. Inr (replicate (length (jc_role c)) CHR ''x'' @ ''.'' @ jc_role c @ jc_subject c)),
      al_jwt_parse = (\<lambda>key iss ms now raw.
        let n = length (takeWhile (\<lambda>c. c = CHR ''x'') raw); rest = drop (Suc n) raw in
        Inr \<lparr>jc_role = take n rest, jc_issuer = iss, jc_subject = drop n rest, jc_issued_at = 0,
             jc_expires_at = 0, jc_id = ''''\<rparr>),
      al_uuid_parse = (\<lambda>s. Some s), al_lower = (\<lambda>s. s)\<rparr>"

definition toy_keys :: Keys where
  "toy_keys = \<lparr>k_private = '''', k_public = ''''\<rparr>"

lemma toy_ok: "bcrypt_ok toy_lib" "jwt_ok toy_lib toy_keys"
  by (simp_all add: bcrypt_ok_def jwt_ok_def toy_lib_def takeWhile_append)

definition toy_user :: AuthUser where
  "toy_user = \<lparr>au_id = ''U'', au_email = ''a@b'', au_password_hash = ''hsecretpw'', au_role = ''operator'',
     au_created_at = 0, au_updated_at = 0\<rparr>"

definition toy_token :: "instant option \<Rightarrow> RefreshToken" where
  "toy_token r = \<lparr>rt_id = ''T'', rt_user_id = ''U'', rt_token_hash = hashToken toy_lib ''tok'', rt_expires_at = 10 ^ 9,
     rt_revoked_at = r, rt_replaced_by = None, rt_created_at = 0\<rparr>"

definition toy_db :: "RefreshToken list \<Rightarrow> dbworld" where
  "toy_db ts = set_users [toy_user] (set_tokens ts empty_world)"

definition toy_world :: "RefreshToken list \<Rightarrow> networld" where
  "toy_world ts = set_users [toy_user] (set_tokens ts sample_net)"

lemma toy_world_simps [simp]:
  "t_tokens (w_db (toy_world ts)) = ts" "t_users (w_db (toy_world ts)) = [toy_user]"
  "w_now (toy_world ts) = 7000" "w_fresh (toy_world ts) = 0" "w_now (toy_db ts) = 7000" "w_fresh (toy_db ts) = 0"
  "t_tokens (w_db (toy_db ts)) = ts" "t_users (w_db (toy_db ts)) = [toy_user]"
  by (simp_all add: toy_world_def toy_db_def set_users_def set_tokens_def sample_net_def empty_world_def dbworld.defs)

lemma toy_accounts_ok: "accounts_ok (toy_db [toy_token r])"
  by (simp add: accounts_ok_def toy_user_def toy_token_def)

text \<open>On a database that answers, a rotation of a live token goes through.\<close>

lemma rotate_check_live:
  assumes "\<And>n. env_dbfault e n = None" and "raw \<noteq> ''''" and "token_of w (hashToken l raw) = Some row"
    and "token_active row" and "w_now w + int (env_dblatency e (w_dbops w)) \<le> rt_expires_at row"
  shows "\<exists>w'. rotate_check l e None raw w = ((Inr row, rt_user_id row), w') \<and> w_db w' = w_db w \<and>
    w_fresh w' = w_fresh w \<and> w_now w' = w_now w + int (env_dblatency e (w_dbops w))"
  using assms(2-5)
  by (simp add: rotate_check_def GetRefreshTokenByHash_eq db_stmt_faultless [OF assms(1)] token_active_def)

lemma rotate_issue_live:
  assumes f: "\<And>n. env_dbfault e n = None" and rnd: "al_random l (w_fresh w) RefreshTokenBytes = Inr buf"
    and new: "token_of w (hashToken l (base64_raw_url buf)) = None"
    and i: "env_uuid e (Suc (w_fresh w)) \<notin> rt_id ` set (t_tokens (w_db w))"
    and u: "rt_user_id row \<in> au_id ` set (t_users (w_db w))"
  shows "\<exists>w' x. rotate_issue l e None row ttl w = (Inr (base64_raw_url buf, x), w') \<and>
    w_fresh w' = w_fresh w + 2 \<and> t_users (w_db w') = t_users (w_db w) \<and>
    rt_id ` set (t_tokens (w_db w')) = insert (env_uuid e (Suc (w_fresh w))) (rt_id ` set (t_tokens (w_db w))) \<and>
    rt_token_hash ` set (t_tokens (w_db w')) =
      insert (hashToken l (base64_raw_url buf)) (rt_token_hash ` set (t_tokens (w_db w)))"
proof -
  let ?n = "\<lparr>rt_id = env_uuid e (Suc (w_fresh w)), rt_user_id = rt_user_id row,
    rt_token_hash = hashToken l (base64_raw_url buf), rt_expires_at = pg_time (w_now w + ttl), rt_revoked_at = None,
    rt_replaced_by = None, rt_created_at = pg_time (w_now w)\<rparr>"
  have h: "hashToken l (base64_raw_url buf) \<notin> rt_token_hash ` set (t_tokens (w_db w))"
    using new by (simp add: token_of_def row_of_None_iff)
  obtain w1 where ir: "IssueRefresh l e None (rt_user_id row) ttl w = (Inr (base64_raw_url buf, w_now w + ttl), w1)"
    and w1: "w_db w1 = (w_db w)\<lparr>t_tokens := t_tokens (w_db w) @ [?n]\<rparr>" "w_fresh w1 = w_fresh w + 2"
    using rnd h i u
    by (simp add: IssueRefresh_def InsertRefreshToken_def db_stmt_faultless [OF f] fresh_uuid_def Let_def set_tokens_def)
  have tok: "token_of w1 (hashToken l (base64_raw_url buf)) = Some ?n"
    using new by (simp add: token_of_def w1 row_of_append)
  obtain w2 where g: "GetRefreshTokenByHash e None (hashToken l (base64_raw_url buf)) w1 = (Inr ?n, w2)"
    and w2: "w_db w2 = w_db w1" "w_fresh w2 = w_fresh w1"
    by (simp add: GetRefreshTokenByHash_eq db_stmt_faultless [OF f] tok)
  obtain w3 t where v: "RevokeRefreshToken e None (rt_id row) (Some (rt_id ?n)) w2 = (Inr (), w3)"
    and w3: "w_db w3 = (w_db w2)\<lparr>t_tokens := map_rows (\<lambda>r. rt_id r = rt_id row \<and> rt_revoked_at r = None)
      (revoke_row t (Some (rt_id ?n))) (t_tokens (w_db w2))\<rparr>" "w_fresh w3 = w_fresh w2"
    by (simp add: RevokeRefreshToken_def db_stmt_faultless [OF f] set_tokens_def)
  have "map rt_id (t_tokens (w_db w3)) = map rt_id (t_tokens (w_db w) @ [?n])"
    "map rt_token_hash (t_tokens (w_db w3)) = map rt_token_hash (t_tokens (w_db w) @ [?n])"
    by (simp_all add: w3 w2 w1 token_revoke.keys_map_rows token_revoke_id.keys_map_rows)
  then have "rt_id ` set (t_tokens (w_db w3)) = insert (rt_id ?n) (rt_id ` set (t_tokens (w_db w)))"
    "rt_token_hash ` set (t_tokens (w_db w3)) = insert (rt_token_hash ?n) (rt_token_hash ` set (t_tokens (w_db w)))"
    by (metis (no_types, lifting) insert_is_Un list.set(1,2) set_append set_map sup_commute image_Un image_insert image_empty)+
  moreover have "rotate_issue l e None row ttl w = (Inr (base64_raw_url buf, w_now w + ttl), w3)"
    using ir g v by (simp add: rotate_issue_def)
  ultimately show ?thesis using w3 w2 w1 by simp
qed

lemma quiet_env_simps [simp]:
  "env_dbfault quiet_env n = None" "env_dblatency quiet_env n = 1" "env_uuid quiet_env n = replicate n CHR ''u''"
  by (simp_all add: quiet_env_def)

lemma toy_hash_values:
  "hashToken toy_lib ''AA'' = ''4141''" "hashToken toy_lib ''Ag'' = ''4167''" "hashToken toy_lib ''tok'' = ''746f6b''"
  "base64_raw_url [char_of (0 :: nat)] = ''AA''" "base64_raw_url [char_of (2 :: nat)] = ''Ag''"
  by code_simp+

lemma toy_random: "al_random toy_lib n k = Inr [char_of n]"
  by (simp add: toy_lib_def)

text \<open>Two rotations of one token whose checks both come first.\<close>

lemma toy_race:
  "\<exists>w1 w2 w3 w4 x1 x2.
     rotate_check toy_lib quiet_env None ''tok'' (toy_db [toy_token None]) = ((Inr (toy_token None), ''U''), w1) \<and>
     rotate_check toy_lib quiet_env None ''tok'' w1 = ((Inr (toy_token None), ''U''), w2) \<and>
     rotate_issue toy_lib quiet_env None (toy_token None) 5 w2 = (Inr (''AA'', x1), w3) \<and>
     rotate_issue toy_lib quiet_env None (toy_token None) 5 w3 = (Inr (''Ag'', x2), w4)"
proof -
  let ?w = "toy_db [toy_token None]"
  have t: "rt_user_id (toy_token None) = ''U''" "token_active (toy_token None)" "rt_expires_at (toy_token None) = 10 ^ 9"
    "rt_id (toy_token None) = ''T''" "rt_token_hash (toy_token None) = ''746f6b''" "au_id toy_user = ''U''"
    by (simp_all add: toy_token_def token_active_def toy_hash_values toy_user_def)
  have tok: "token_of w (hashToken toy_lib ''tok'') = Some (toy_token None)" if "w_db w = w_db ?w" for w :: dbworld
    using that by (simp add: token_of_def toy_hash_values t)
  obtain w1 where w1: "rotate_check toy_lib quiet_env None ''tok'' ?w = ((Inr (toy_token None), ''U''), w1)"
    "w_db w1 = w_db ?w" "w_fresh w1 = 0" "w_now w1 = 7001"
    using rotate_check_live [of quiet_env "''tok''" ?w toy_lib "toy_token None"] tok [of ?w] by (auto simp: t)
  obtain w2 where w2: "rotate_check toy_lib quiet_env None ''tok'' w1 = ((Inr (toy_token None), ''U''), w2)"
    "w_db w2 = w_db ?w" "w_fresh w2 = 0"
    using rotate_check_live [of quiet_env "''tok''" w1 toy_lib "toy_token None"] tok [of w1] w1 by (auto simp: t)
  obtain w3 x1 where w3: "rotate_issue toy_lib quiet_env None (toy_token None) 5 w2 = (Inr (''AA'', x1), w3)"
    "w_fresh w3 = 2" "t_users (w_db w3) = [toy_user]" "rt_id ` set (t_tokens (w_db w3)) = {''u'', ''T''}"
    "rt_token_hash ` set (t_tokens (w_db w3)) = {''4141'', ''746f6b''}"
    using rotate_issue_live [of quiet_env toy_lib w2 "[char_of (0 :: nat)]" "toy_token None" 5] w2
    by (auto simp: t toy_random toy_hash_values token_of_def simp del: base64_raw_url.simps)
  obtain w4 x2 where "rotate_issue toy_lib quiet_env None (toy_token None) 5 w3 = (Inr (''Ag'', x2), w4)"
    using rotate_issue_live [of quiet_env toy_lib w3 "[char_of (2 :: nat)]" "toy_token None" 5] w3
    by (auto simp: t toy_random toy_hash_values token_of_def row_of_None_iff numeral_3_eq_3 simp del: base64_raw_url.simps)
  with w1(1) w2(1) w3(1) show ?thesis by blast
qed

lemma toy_rotation:
  fixes w :: "'z dbworld_scheme"
  assumes lib: "hashToken l = hashToken toy_lib" "al_random l = al_random toy_lib"
    and w: "t_tokens (w_db w) = [toy_token None]" "t_users (w_db w) = [toy_user]" "w_fresh w = 0" "w_now w = 7000"
  shows "\<exists>x w'. RotateRefresh l quiet_env None ''tok'' ttl w = ((Inr (''AA'', x), ''U''), w')"
proof -
  have t: "rt_user_id (toy_token None) = ''U''" "token_active (toy_token None)" "rt_expires_at (toy_token None) = 10 ^ 9"
    "rt_id (toy_token None) = ''T''" "rt_token_hash (toy_token None) = ''746f6b''" "au_id toy_user = ''U''"
    by (simp_all add: toy_token_def token_active_def toy_hash_values toy_user_def)
  obtain w1 where w1: "rotate_check l quiet_env None ''tok'' w = ((Inr (toy_token None), ''U''), w1)"
    "w_db w1 = w_db w" "w_fresh w1 = 0"
    using rotate_check_live [of quiet_env "''tok''" w l "toy_token None"] by (auto simp: t w lib token_of_def toy_hash_values)
  obtain w3 x1 where "rotate_issue l quiet_env None (toy_token None) ttl w1 = (Inr (''AA'', x1), w3)"
    using rotate_issue_live [of quiet_env l w1 "[char_of (0 :: nat)]" "toy_token None" ttl] w1
    by (auto simp: t w lib toy_random toy_hash_values token_of_def simp del: base64_raw_url.simps)
  with w1 show ?thesis by (simp add: RotateRefresh_split)
qed

text \<open>
  Property C21: a successful rotation needs a live, unexpired token; it revokes exactly that token,
  links it to one new live token of the same user whose hash was not in use, leaves every other
  token as it was, and keeps the accounts' invariant.
\<close>

theorem refresh_rotation:
  assumes "RotateRefresh l e ctx raw ttl w = ((Inr (newRaw, exp), u), w')" and "accounts_ok w"
  shows "(\<exists>old new t. token_of w (hashToken l raw) = Some old \<and> token_active old \<and> w_now w \<le> rt_expires_at old \<and>
    u = rt_user_id old \<and> token_of w (hashToken l newRaw) = None \<and>
    token_of w' (hashToken l raw) = Some (revoke_row t (Some (rt_id new)) old) \<and>
    token_of w' (hashToken l newRaw) = Some new \<and> token_active new \<and> rt_user_id new = u \<and>
    (\<forall>h. h \<noteq> hashToken l raw \<and> h \<noteq> hashToken l newRaw \<longrightarrow> token_of w' h = token_of w h)) \<and> accounts_ok w'"
  using RotateRefresh_ok [OF assms] by blast

theorem refresh_rotation_witness:
  "\<exists>w' :: dbworld. accounts_ok w' \<and> map_option token_active (token_of w' (hashToken toy_lib ''tok'')) = Some False"
proof -
  obtain x w' where w': "RotateRefresh toy_lib quiet_env None ''tok'' 5 (toy_db [toy_token None]) = ((Inr (''AA'', x), ''U''), w')"
    using toy_rotation [of toy_lib "toy_db [toy_token None]" 5] by auto
  note r = refresh_rotation [OF w' toy_accounts_ok]
  have "\<exists>old i t. token_of w' (hashToken toy_lib ''tok'') = Some (revoke_row t (Some i) old)"
    using conjunct1 [OF r] by (elim exE conjE) (rule exI, rule exI, rule exI, assumption)
  then show ?thesis using conjunct2 [OF r] by (auto simp: token_active_def revoke_row_def intro: exI [of _ w'])
qed

text \<open>
  Property C22: presenting a token that was already revoked ends every session of its user: the
  answer is 401 and, on a database that answers, the user has no live token left, while the tokens
  of other users are untouched.
\<close>

theorem refresh_reuse_revokes_family:
  assumes "handleRefresh l k e None (Inr raw) w = (rsp, w')" and "raw \<noteq> ''''"
    and "token_of w (hashToken l raw) = Some old" and "\<not> token_active old" and "rt_user_id old \<noteq> uuid_Nil"
    and "\<And>n. env_dbfault e n = None"
  shows "rsp_status rsp = 401 \<and> active_tokens w' (rt_user_id old) = [] \<and>
    (\<forall>v. v \<noteq> rt_user_id old \<longrightarrow> active_tokens w' v = active_tokens w v)"
  using handleRefresh_reused [OF assms] by blast

theorem refresh_reuse_revokes_family_witness:
  "rsp_status (fst (handleRefresh toy_lib toy_keys quiet_env None (Inr ''tok'') (toy_world [toy_token (Some 1)]))) = 401"
proof -
  obtain rsp w' where h:
    "handleRefresh toy_lib toy_keys quiet_env None (Inr ''tok'') (toy_world [toy_token (Some 1)]) = (rsp, w')"
    by fastforce
  have "rsp_status rsp = 401 \<and> active_tokens w' (rt_user_id (toy_token (Some 1))) = [] \<and>
    (\<forall>v. v \<noteq> rt_user_id (toy_token (Some 1)) \<longrightarrow>
      active_tokens w' v = active_tokens (toy_world [toy_token (Some 1)]) v)"
    by (rule refresh_reuse_revokes_family [OF h])
      (simp_all add: token_of_def toy_token_def token_active_def uuid_Nil_def quiet_env_def)
  then show ?thesis by (simp add: h)
qed

text \<open>
  Property C24: rotation comes before the user is looked up and the access token signed. When either
  of these fails, the answer is 500 and the client has no new token, but the old one is spent:
  presenting it again is taken for theft, and a retry on a working database answers 401 and ends
  every session of the user.
\<close>

theorem failed_refresh_burns_token:
  assumes "RotateRefresh l e ctx raw (cfg_RefreshTokenTTL (app_env (w_cfg w))) w = ((Inr (newRaw, x), u), w0)"
    and "handleRefresh l k e ctx (Inr raw) w = (rsp, w1)" and "rsp_status rsp \<noteq> 200" and "accounts_ok w" and "u \<noteq> uuid_Nil"
    and "handleRefresh l k e' None (Inr raw) w1 = (rsp', w2)" and "\<And>n. env_dbfault e' n = None"
  shows "rsp_status rsp = 500 \<and> rsp_status rsp' = 401 \<and> active_tokens w2 u = []"
proof -
  note after = handleRefresh_after_rotation [OF assms(1,2)]
  from RotateRefresh_ok(1) [OF assms(1,4)] obtain old i t where
    "token_of w0 (hashToken l raw) = Some (revoke_row t (Some i) old)" and u: "u = rt_user_id old"
    by (elim exE conjE) blast
  then have old: "token_of w1 (hashToken l raw) = Some (revoke_row t (Some i) old)" by (simp add: token_of_def after(2))
  have row: "\<not> token_active (revoke_row t (Some i) old)" "rt_user_id (revoke_row t (Some i) old) = u"
    by (simp_all add: u revoke_row_def token_active_def)
  with handleRefresh_reused(1,2) [OF assms(6) after(1) old row(1) _ assms(7)] after(3) assms(3,5) show ?thesis by simp
qed

definition unsigning_lib :: auth_lib where
  "unsigning_lib = toy_lib\<lparr>al_jwt_sign := \<lambda>key c. Inl ''key unavailable''\<rparr>"

lemma unsigning_lib_hash: "hashToken unsigning_lib = hashToken toy_lib" "al_random unsigning_lib = al_random toy_lib"
  by (simp_all add: fun_eq_iff unsigning_lib_def hashToken_def)

lemma toy_accounts_world: "accounts_ok (toy_world [toy_token r])"
  using toy_accounts_ok [of r] by (simp add: accounts_ok_def toy_db_def toy_world_def set_users_def set_tokens_def sample_net_def empty_world_def)

theorem failed_refresh_burns_token_witness:
  "\<exists>rsp w1. handleRefresh unsigning_lib toy_keys quiet_env None (Inr ''tok'') (toy_world [toy_token None]) = (rsp, w1) \<and>
     rsp_status rsp = 500 \<and>
     rsp_status (fst (handleRefresh unsigning_lib toy_keys quiet_env None (Inr ''tok'') w1)) = 401"
proof -
  obtain x w0 where r: "RotateRefresh unsigning_lib quiet_env None ''tok''
      (cfg_RefreshTokenTTL (app_env (w_cfg (toy_world [toy_token None])))) (toy_world [toy_token None]) = ((Inr (''AA'', x), ''U''), w0)"
    using toy_rotation [of unsigning_lib "toy_world [toy_token None]" "cfg_RefreshTokenTTL (app_env (w_cfg (toy_world [toy_token None])))"]
    by (simp add: unsigning_lib_hash) blast
  obtain rsp w1 where h: "handleRefresh unsigning_lib toy_keys quiet_env None (Inr ''tok'') (toy_world [toy_token None]) = (rsp, w1)"
    by fastforce
  obtain rsp' w2 where h': "handleRefresh unsigning_lib toy_keys quiet_env None (Inr ''tok'') w1 = (rsp', w2)" by fastforce
  have "rsp_status rsp \<noteq> 200"
    using h r by (auto simp: handleRefresh_def IssueAccess_def unsigning_lib_def Let_def fresh_uuid_def split: sum.splits prod.splits)
  from failed_refresh_burns_token [OF r h this toy_accounts_world _ h'] h h' show ?thesis by (simp add: uuid_Nil_def)
qed



text \<open>
  An account that was just created can log in: with the same password, and an e-mail
  that is the same up to surrounding space and case, the answer is not a refusal of the credentials.
\<close>

lemma created_user_can_log_in:
  assumes "bcrypt_ok l" and "handleCreateUser fmt l e ctx (Inr req) w = (rsp, w1)" and "rsp_status rsp = 201"
    and "al_lower l (TrimSpace (lq_email login)) = al_lower l (TrimSpace (uq_email req))"
    and "lq_password login = uq_password req" and "TrimSpace (lq_email login) \<noteq> ''''"
  shows "rsp_status (fst (handleLogin l k e' ctx' (Inr login) w1)) \<notin> {400, 401}"
proof -
  obtain u h salt where c: "al_bcrypt_hash l salt BcryptCost (uq_password req) = Inr h" "au_password_hash u = h"
    "au_email u = TrimSpace (uq_email req)"
    "al_lower l (au_email u) \<notin> (al_lower l \<circ> au_email) ` set (t_users (w_db w))"
    "w_db w1 = (w_db w)\<lparr>t_users := t_users (w_db w) @ [u]\<rparr>" "MinPasswordLength \<le> length (uq_password req)"
    using assms(2,3) by (rule handleCreateUser_created) auto
  have "CheckPassword l h (lq_password login) = None"
    using assms(1,5) c(1) by (auto simp: bcrypt_ok_def CheckPassword_def)
  moreover have "row_of (al_lower l \<circ> au_email) (al_lower l (TrimSpace (lq_email login))) (t_users (w_db w1)) = Some u"
  proof -
    have "row_of (al_lower l \<circ> au_email) (al_lower l (au_email u)) (t_users (w_db w)) = None"
      using c(4) by (simp add: row_of_None_iff)
    then show ?thesis using c(3,5) assms(4) by (simp add: row_of_append)
  qed
  moreover obtain rg w2 where g: "GetAuthUserByEmail (al_lower l) e' ctx' (TrimSpace (lq_email login)) w1 = (rg, w2)"
    by fastforce
  moreover note GetAuthUserByEmail_ok(2,3) [OF g]
  moreover have "lq_password login \<noteq> ''''" using assms(5) c(6) by (auto simp: MinPasswordLength_def)
  ultimately show ?thesis
    using assms(6) c(2) by (cases rg) (auto simp: handleLogin_def Let_def split: prod.split sum.split)
qed

definition toy_signup :: CreateUserRequest where
  "toy_signup = \<lparr>uq_email = '' c@d '', uq_password = ''longenough''\<rparr>"

lemma toy_created:
  "rsp_status (fst (handleCreateUser (\<lambda>_. '''') toy_lib quiet_env None (Inr toy_signup) (toy_world []))) = 201"
proof -
  have t: "TrimSpace '' c@d '' = ''c@d''" "Contains ''c@d'' ''@''" by code_simp+
  show ?thesis
    by (simp add: handleCreateUser_def toy_signup_def t HashPassword_def CreateAuthUser_def toy_lib_def Let_def
        db_stmt_def quiet_env_def ctx_expired_def fresh_uuid_def MinPasswordLength_def toy_user_def HasPrefix_def)
qed


text \<open>
  An access token the server issues is accepted by its middleware, as the same user
  and role, at any moment before the second in which it expires, on every route that admits the role.
\<close>

lemma issued_token_is_accepted:
  assumes "jwt_ok l k" and "IssueAccess l e k userID role ttl w = (Inr (tok, exp), w')"
    and "now < numeric_date exp" and "al_uuid_parse l userID = Some userID"
    and "tok \<noteq> ''''" and "TrimSpace tok = tok" and "roles = [] \<or> role \<in> set roles"
  shows "RequireAuth l k roles (''Bearer '' @ tok) now = Inr (userID, role)"
proof -
  have b: "bearerToken (''Bearer '' @ tok) = tok" using assms(6) by (simp add: bearerToken_def HasPrefix_def)
  obtain c where c: "al_jwt_sign l (k_private k) c = Inr tok" "jc_subject c = userID" "jc_role c = role"
    "jc_issuer c = Issuer" "jc_expires_at c = numeric_date exp"
    using assms(2) by (auto simp: IssueAccess_def Let_def fresh_uuid_def split: sum.splits)
  moreover have "now < jc_expires_at c" using c(5) assms(3) by simp
  ultimately obtain c' where "al_jwt_parse l (k_public k) Issuer [''RS256''] now tok = Inr c'"
    "jc_subject c' = userID" "jc_role c' = role"
    using assms(1) unfolding jwt_ok_def by metis
  then show ?thesis using assms(4,5,7) unfolding RequireAuth_def b by (auto simp: ParseAccess_def)
qed


text \<open>
  The middleware: either it found a bearer token that verifies for the configured issuer and key
  under RS256 and names an admitted role, and the handler runs as that user, or the answer is 401 or
  403 and nothing has happened.
\<close>

lemma with_auth_cases:
  "(\<exists>c u. al_jwt_parse l (k_public k) Issuer [''RS256''] now (bearerToken header) = Inr c \<and>
      bearerToken header \<noteq> '''' \<and> al_uuid_parse l (jc_subject c) = Some u \<and>
      jc_role c \<in> (if roles = [] then UNIV else set roles) \<and>
      with_auth l k roles header now h s = h u s) \<or>
   (\<exists>st msg. with_auth l k roles header now h s = (reply st (abort_body msg), s) \<and> (st = 401 \<or> st = 403))"
  by (cases "al_jwt_parse l (k_public k) Issuer [''RS256''] now (bearerToken header)")
    (auto simp: with_auth_def RequireAuth_def Let_def ParseAccess_def split: option.split)

end
