(* ===== verification/GoTime.thy ===== *)
theory GoTime
  imports GoStrings
begin

text \<open>
  What the handlers use of package \<open>time\<close>: an instant's date and clock in UTC,
  \<open>Format(time.RFC3339)\<close>, and \<open>ParseInLocation\<close> in UTC for the layouts of
  \<open>internal/server/debug_handler.go\<close>. A layout is the list of its chunks.
\<close>

section \<open>Dates\<close>

definition is_leap :: "int \<Rightarrow> bool" where
  "is_leap y \<longleftrightarrow> y mod 4 = 0 \<and> (y mod 100 \<noteq> 0 \<or> y mod 400 = 0)"

definition month_lengths :: "bool \<Rightarrow> int list" where
  "month_lengths leap = [31, if leap then 29 else 28, 31, 30, 31, 30, 31, 31, 30, 31, 30, 31]"

definition days_in :: "int \<Rightarrow> int \<Rightarrow> int" where
  "days_in month year = month_lengths (is_leap year) ! nat (month - 1)"

text \<open>Days from 1 January of year 1.\<close>

definition days_before_year :: "int \<Rightarrow> int" where
  "days_before_year y = 365 * (y - 1) + (y - 1) div 4 - (y - 1) div 100 + (y - 1) div 400"

definition day_number :: "int \<Rightarrow> int \<Rightarrow> int \<Rightarrow> int" where
  "day_number y m d =
     days_before_year y + sum_list (take (nat (m - 1)) (month_lengths (is_leap y))) + d - 1"

text \<open>The year of a day and the day of the year, by cycles of 400, 100, 4 and 1 years.\<close>

definition year_yday :: "int \<Rightarrow> int \<times> int" where
  "year_yday d =
     (let n400 = d div 146097; d1 = d mod 146097;
          c = d1 div 36524; n100 = c - c div 4; d2 = d1 - 36524 * n100;
          n4 = d2 div 1461; d3 = d2 mod 1461;
          a = d3 div 365; n1 = a - a div 4
      in (400 * n400 + 100 * n100 + 4 * n4 + n1 + 1, d3 - 365 * n1))"

fun split_months :: "int list \<Rightarrow> int \<Rightarrow> int \<Rightarrow> int \<times> int" where
  "split_months [] m d = (m, d + 1)"
| "split_months [l] m d = (m, d + 1)"
| "split_months (l # k # ls) m d = (if d < l then (m, d + 1) else split_months (k # ls) (m + 1) (d - l))"

definition civil :: "int \<Rightarrow> int \<times> int \<times> int" where
  "civil n = (let (y, yday) = year_yday n; (m, d) = split_months (month_lengths (is_leap y)) 1 yday in (y, m, d))"

definition day :: duration where
  "day = 24 * hour"

text \<open>\<open>Date(year, month, day, hour, min, sec, nsec, UTC)\<close> for fields in range.\<close>

definition Date_UTC :: "int \<Rightarrow> int \<Rightarrow> int \<Rightarrow> int \<Rightarrow> int \<Rightarrow> int \<Rightarrow> int \<Rightarrow> instant" where
  "Date_UTC y m d h mi s ns =
     day_number y m d * day + h * hour + mi * minute + s * second + ns"

section \<open>Format\<close>

definition append_int :: "nat \<Rightarrow> int \<Rightarrow> string" where
  "append_int width n =
     (let ds = nat_digits (nat \<bar>n\<bar>)
      in (if n < 0 then ''-'' else '''') @ replicate (width - length ds) CHR ''0'' @ ds)"

definition FormatRFC3339 :: "instant \<Rightarrow> string" where
  "FormatRFC3339 t =
     (let (y, m, d) = civil (t div day); r = t mod day in
      append_int 4 y @ ''-'' @ append_int 2 m @ ''-'' @ append_int 2 d @ ''T''
      @ append_int 2 (r div hour) @ '':'' @ append_int 2 (r mod hour div minute) @ '':''
      @ append_int 2 (r mod minute div second) @ ''Z'')"

text \<open>
  The text of a UTC time in JSON is \<open>time.RFC3339Nano\<close>: a fraction without trailing zeros, if
  there is one. (\<open>MarshalJSON\<close> refuses years beyond four digits; no stored time has one.)
\<close>

definition nano_digits :: "int \<Rightarrow> string" where
  "nano_digits ns = rev (dropWhile (\<lambda>c. c = CHR ''0'') (rev (append_int 9 ns)))"

definition FormatRFC3339Nano :: "instant \<Rightarrow> string" where
  "FormatRFC3339Nano t =
     butlast (FormatRFC3339 t) @ (if t mod second = 0 then '''' else CHR ''.'' # nano_digits (t mod second)) @ ''Z''"

section \<open>Parse\<close>

datatype chunk = CLit char | CSpace | CYear | CMonth | CDay | CHour | CMinute | CSecond | CFrac | CZone

record time_fields =
  tf_year :: int
  tf_month :: int
  tf_day :: int
  tf_hour :: int
  tf_min :: int
  tf_sec :: int
  tf_nsec :: int
  tf_offset :: int

definition no_fields :: time_fields where
  "no_fields = \<lparr>tf_year = 0, tf_month = 1, tf_day = 1, tf_hour = 0, tf_min = 0, tf_sec = 0, tf_nsec = 0, tf_offset = 0\<rparr>"

definition dig :: "char \<Rightarrow> int" where
  "dig c = int (digit_val c)"

fun getnum :: "bool \<Rightarrow> string \<Rightarrow> (int \<times> string) option" where
  "getnum fixed (a # b # s) =
     (if \<not> is_digit a then None
      else if \<not> is_digit b then (if fixed then None else Some (dig a, b # s))
      else Some (10 * dig a + dig b, s))"
| "getnum fixed [a] = (if is_digit a \<and> \<not> fixed then Some (dig a, []) else None)"
| "getnum fixed [] = None"

text \<open>A fraction: at most nine of its digits count.\<close>

definition nanos :: "string \<Rightarrow> int" where
  "nanos ds = (let k = take 9 ds in foldl (\<lambda>a c. 10 * a + dig c) 0 k * 10 ^ (9 - length k))"

fun get_frac :: "string \<Rightarrow> (int \<times> string) option" where
  "get_frac (c # d # s) =
     (if (c = CHR ''.'' \<or> c = CHR '','') \<and> is_digit d
      then Some (nanos (takeWhile is_digit (d # s)), dropWhile is_digit (d # s)) else None)"
| "get_frac _ = None"

fun get_year :: "string \<Rightarrow> (int \<times> string) option" where
  "get_year (a # b # c # d # s) =
     (if list_all is_digit [a, b, c, d]
      then Some (1000 * dig a + 100 * dig b + 10 * dig c + dig d, s) else None)"
| "get_year _ = None"

text \<open>\<open>Z\<close> or \<open>+hh:mm\<close>; Go lets the parts reach 24 and 60.\<close>

fun get_zone :: "string \<Rightarrow> (int \<times> string) option" where
  "get_zone (s # t) =
     (if s = CHR ''Z'' then Some (0, t)
      else case t of
        a # b # c # d # f # u \<Rightarrow>
          if c \<noteq> CHR '':'' \<or> \<not> list_all is_digit [a, b, d, f] then None
          else
            let h = 10 * dig a + dig b; m = 10 * dig d + dig f; off = (h * 60 + m) * 60 in
            if 24 < h \<or> 60 < m then None
            else if s = CHR ''+'' then Some (off, u) else if s = CHR ''-'' then Some (- off, u) else None
      | _ \<Rightarrow> None)"
| "get_zone [] = None"

definition in_range :: "int \<Rightarrow> int \<Rightarrow> (int \<times> string) option \<Rightarrow> (int \<times> string) option" where
  "in_range lo hi r = Option.bind r (\<lambda>(n, s). if lo \<le> n \<and> n < hi then Some (n, s) else None)"

fun parse_chunks :: "chunk list \<Rightarrow> string \<Rightarrow> time_fields \<Rightarrow> time_fields option" where
  "parse_chunks [] s f = (if s = '''' then Some f else None)"
| "parse_chunks (CLit c # l) s f = (case s of [] \<Rightarrow> None | x # t \<Rightarrow> if x = c then parse_chunks l t f else None)"
| "parse_chunks (CSpace # l) s f =
     (if s \<noteq> '''' \<and> hd s \<noteq> CHR '' '' then None else parse_chunks l (dropWhile (\<lambda>c. c = CHR '' '') s) f)"
| "parse_chunks (CYear # l) s f = Option.bind (get_year s) (\<lambda>(n, t). parse_chunks l t (f\<lparr>tf_year := n\<rparr>))"
| "parse_chunks (CMonth # l) s f =
     Option.bind (in_range 1 13 (getnum True s)) (\<lambda>(n, t). parse_chunks l t (f\<lparr>tf_month := n\<rparr>))"
| "parse_chunks (CDay # l) s f = Option.bind (getnum True s) (\<lambda>(n, t). parse_chunks l t (f\<lparr>tf_day := n\<rparr>))"
| "parse_chunks (CHour # l) s f =
     Option.bind (in_range 0 24 (getnum False s)) (\<lambda>(n, t). parse_chunks l t (f\<lparr>tf_hour := n\<rparr>))"
| "parse_chunks (CMinute # l) s f =
     Option.bind (in_range 0 60 (getnum True s)) (\<lambda>(n, t). parse_chunks l t (f\<lparr>tf_min := n\<rparr>))"
| "parse_chunks (CSecond # l) s f =
     Option.bind (in_range 0 60 (getnum True s)) (\<lambda>(n, t).
       let f1 = f\<lparr>tf_sec := n\<rparr> in
       if l \<noteq> [] \<and> hd l = CFrac then parse_chunks l t f1
       else case get_frac t of
              None \<Rightarrow> parse_chunks l t f1
            | Some (ns, u) \<Rightarrow> parse_chunks l u (f1\<lparr>tf_nsec := ns\<rparr>))"
| "parse_chunks (CFrac # l) s f =
     (case get_frac s of None \<Rightarrow> parse_chunks l s f | Some (ns, t) \<Rightarrow> parse_chunks l t (f\<lparr>tf_nsec := ns\<rparr>))"
| "parse_chunks (CZone # l) s f = Option.bind (get_zone s) (\<lambda>(o', t). parse_chunks l t (f\<lparr>tf_offset := o'\<rparr>))"

definition ParseInLocation_UTC :: "chunk list \<Rightarrow> string \<Rightarrow> instant option" where
  "ParseInLocation_UTC layout s =
     Option.bind (parse_chunks layout s no_fields) (\<lambda>f.
       if tf_day f < 1 \<or> days_in (tf_month f) (tf_year f) < tf_day f then None
       else Some (Date_UTC (tf_year f) (tf_month f) (tf_day f) (tf_hour f) (tf_min f) (tf_sec f) (tf_nsec f)
                    - tf_offset f * second))"

definition layout_date :: "chunk list" where
  "layout_date = [CYear, CLit (CHR ''-''), CMonth, CLit (CHR ''-''), CDay]"

definition layout_RFC3339 :: "chunk list" where
  "layout_RFC3339 = layout_date @ [CLit (CHR ''T''), CHour, CLit (CHR '':''), CMinute, CLit (CHR '':''), CSecond, CZone]"

definition layout_RFC3339Nano :: "chunk list" where
  "layout_RFC3339Nano =
     layout_date @ [CLit (CHR ''T''), CHour, CLit (CHR '':''), CMinute, CLit (CHR '':''), CSecond, CFrac, CZone]"

section \<open>Dates are right\<close>

text \<open>
  Century, olympiad and year inside a 400-year cycle, as \<open>year_yday\<close> peels them off: the digits \<open>c\<close>,
  \<open>p\<close> and \<open>a\<close>, and the day \<open>u - 365 * a\<close> of the year.
\<close>

lemma cycle_digits:
  fixes n :: int
  defines "r \<equiv> n mod 146097"
  defines "c \<equiv> (if r div 36524 = 4 then 3 else r div 36524)"
  defines "p \<equiv> (r - 36524 * c) div 1461" and "u \<equiv> (r - 36524 * c) mod 1461"
  defines "a \<equiv> (if u div 365 = 4 then 3 else u div 365)"
  shows "n = 146097 * (n div 146097) + 36524 * c + 1461 * p + u"
    and "0 \<le> c" "c \<le> 3" "0 \<le> p" "p \<le> 24" "0 \<le> u" "u < 1461" "p = 24 \<and> c \<noteq> 3 \<longrightarrow> u < 1460"
    and "0 \<le> a" "a \<le> 3" "0 \<le> u - 365 * a" "u - 365 * a < 365 \<or> a = 3 \<and> u = 1460"
    and "r div 36524 - r div 36524 div 4 = c" "u div 365 - u div 365 div 4 = a"
proof -
  have r: "0 \<le> r" "r < 146097" by (simp_all add: r_def)
  have c: "0 \<le> c" "c \<le> 3" "0 \<le> r - 36524 * c" "r - 36524 * c < 36524 \<or> c = 3 \<and> r - 36524 * c \<le> 36524"
    using r by (auto simp: c_def)
  have s: "r - 36524 * c = 1461 * p + u" "0 \<le> u" "u < 1461" by (simp_all add: p_def u_def)
  show "n = 146097 * (n div 146097) + 36524 * c + 1461 * p + u" using s(1) mult_div_mod_eq [of 146097 n] unfolding r_def by linarith
  show "0 \<le> c" "c \<le> 3" "0 \<le> u" "u < 1461" using c s by simp_all
  show p: "0 \<le> p" "p \<le> 24" using c by (auto simp: p_def)
  show "p = 24 \<and> c \<noteq> 3 \<longrightarrow> u < 1460" using c s by linarith
  show "0 \<le> a" "a \<le> 3" "0 \<le> u - 365 * a" "u - 365 * a < 365 \<or> a = 3 \<and> u = 1460"
    using s by (auto simp: a_def)
  have "r div 36524 \<le> 4" "u div 365 \<le> 4" using r s by linarith+
  then show "r div 36524 - r div 36524 div 4 = c" "u div 365 - u div 365 div 4 = a"
    using r s by (auto simp: c_def a_def)
qed

text \<open>The one year of a cycle with a day 365: the last of an olympiad, but not of a century that is not divisible by 400.\<close>

lemma long_year_leap:
  fixes p c q :: int
  assumes "y = 400 * q + 100 * c + 4 * p + 4" and "0 \<le> p" "p \<le> 24" and "p = 24 \<longrightarrow> c = 3"
  shows "is_leap y"
proof -
  have "y = 4 * (100 * q + 25 * c + p + 1)" using assms(1) by simp
  then have "y mod 4 = 0" by (metis mod_mult_self1_is_0)
  moreover have "y mod 400 = 0" if "y mod 100 = 0"
  proof -
    have "y = (4 * p + 4) + 100 * (4 * q + c)" using assms(1) by simp
    with that have "(4 * p + 4) mod 100 = 0" by (metis mod_mult_self2)
    moreover have "p < 24 \<Longrightarrow> (4 * p + 4) mod 100 = 4 * p + 4" using assms(2) by (intro mod_pos_pos_trivial) auto
    ultimately have "p = 24" using assms(2,3) by linarith
    with assms(1,4) show ?thesis by simp
  qed
  ultimately show ?thesis by (auto simp: is_leap_def)
qed

lemma year_yday:
  assumes "year_yday n = (y, k)"
  shows "days_before_year y + k = n" and "0 \<le> k" and "k < (if is_leap y then 366 else 365)"
proof -
  define q where "q = n div 146097"
  define r where "r = n mod 146097"
  define c where "c = (if r div 36524 = 4 then 3 else r div 36524)"
  define p where "p = (r - 36524 * c) div 1461"
  define u where "u = (r - 36524 * c) mod 1461"
  define a where "a = (if u div 365 = 4 then 3 else u div 365)"
  note f = cycle_digits [of n, folded q_def r_def, folded c_def, folded p_def u_def, folded a_def]
  have y: "y = 400 * q + 100 * c + 4 * p + a + 1" "k = u - 365 * a"
    using assms f(13,14) unfolding year_yday_def Let_def q_def [symmetric] r_def [symmetric]
    by (auto simp: p_def [symmetric] u_def [symmetric])
  have d: "(y - 1) div 4 = 100 * q + 25 * c + p" "(y - 1) div 100 = 4 * q + c" "(y - 1) div 400 = q"
    using f unfolding y by linarith+
  show "days_before_year y + k = n" unfolding days_before_year_def d y(2) using y(1) f(1) by simp
  show "0 \<le> k" using f y by simp
  show "k < (if is_leap y then 366 else 365)"
  proof (cases "a = 3 \<and> u = 1460")
    case True
    with f(8) have "p = 24 \<longrightarrow> c = 3" by auto
    then have "is_leap y" using True f(4,5) y(1) by (intro long_year_leap [of y q c p]) auto
    with True y show ?thesis by simp
  next
    case False
    with f(12) y show ?thesis by auto
  qed
qed

lemma split_months:
  assumes "split_months ls m0 k = (m, d)" and "0 \<le> k" and "k < sum_list ls" and "ls \<noteq> []"
  shows "m0 \<le> m" and "m < m0 + int (length ls)" and "sum_list (take (nat (m - m0)) ls) + d - 1 = k"
    and "1 \<le> d" and "d \<le> ls ! nat (m - m0)"
proof -
  have "m0 \<le> m \<and> m < m0 + int (length ls) \<and> sum_list (take (nat (m - m0)) ls) + d - 1 = k \<and> 1 \<le> d \<and>
    d \<le> ls ! nat (m - m0)"
    using assms
  proof (induction ls m0 k rule: split_months.induct)
    case (3 l i ls m0 k)
    show ?case
    proof (cases "k < l")
      case True
      with 3(2,3) show ?thesis by auto
    next
      case False
      with 3 have "split_months (i # ls) (m0 + 1) (k - l) = (m, d)" "0 \<le> k - l" "k - l < sum_list (i # ls)" by auto
      note IH = 3(1) [OF False this]
      then have "nat (m - m0) = Suc (nat (m - (m0 + 1)))" by auto
      with IH show ?thesis by auto
    qed
  qed auto
  then show "m0 \<le> m" "m < m0 + int (length ls)" "sum_list (take (nat (m - m0)) ls) + d - 1 = k"
    "1 \<le> d" "d \<le> ls ! nat (m - m0)" by auto
qed

lemma civil_date:
  assumes "civil n = (y, m, d)"
  shows "day_number y m d = n" and "1 \<le> m" and "m \<le> 12" and "1 \<le> d" and "d \<le> days_in m y"
proof -
  obtain k where k: "year_yday n = (y, k)" and s: "split_months (month_lengths (is_leap y)) 1 k = (m, d)"
    using assms by (auto simp: civil_def Let_def split: prod.splits)
  have len: "length (month_lengths (is_leap y)) = 12" "month_lengths (is_leap y) \<noteq> []"
    "sum_list (month_lengths (is_leap y)) = (if is_leap y then 366 else 365)"
    by (simp_all add: month_lengths_def)
  note p = split_months [OF s year_yday(2) [OF k] year_yday(3) [OF k, folded len(3)] len(2)]
  show "day_number y m d = n" using year_yday(1) [OF k] p(3) by (simp add: day_number_def)
  show "1 \<le> m" "m \<le> 12" "1 \<le> d" "d \<le> days_in m y" using p len(1) by (auto simp: days_in_def)
qed

lemma div_step: "0 < k \<Longrightarrow> y div k - (y - 1) div k = (if y mod k = 0 then 1 else 0)" for k y :: int
proof -
  assume k: "0 < k"
  have e: "y - 1 = k * (y div k) + (y mod k - 1)" by simp
  show ?thesis
  proof (cases "y mod k = 0")
    case True
    have "(y - 1) div k = y div k - 1" using k True e by (intro int_div_pos_eq [where r = "k - 1"]) (auto simp: algebra_simps)
    with True show ?thesis by simp
  next
    case False
    have "0 \<le> y mod k" "y mod k < k" using k by simp_all
    with False e have "(y - 1) div k = y div k" by (intro int_div_pos_eq [where r = "y mod k - 1"]) auto
    with False show ?thesis by simp
  qed
qed

lemma year_length: "days_before_year (y + 1) - days_before_year y = (if is_leap y then 366 else 365)"
proof -
  have m: "y mod 100 = 0 \<longrightarrow> y mod 4 = 0" "y mod 400 = 0 \<longrightarrow> y mod 100 = 0"
    using dvd_trans [of 4 100 y] dvd_trans [of 100 400 y] by (simp_all add: mod_eq_0_iff_dvd)
  have e4: "y div 4 - (y - 1) div 4 = (if y mod 4 = 0 then 1 else 0)"
    and e100: "y div 100 - (y - 1) div 100 = (if y mod 100 = 0 then 1 else 0)"
    and e400: "y div 400 - (y - 1) div 400 = (if y mod 400 = 0 then 1 else 0)"
    by (rule div_step, rule zero_less_numeral)+
  have alg: "365 * y + a - b + c - (365 * (y - 1) + a' - b' + c') = 365 + (a - a') - (b - b') + (c - c')"
    for a b c a' b' c' :: int
    by simp
  have leap: "365 + (if A then 1 else 0) - (if B then 1 else 0) + (if C then 1 else 0) =
      (if A \<and> (\<not> B \<or> C) then 366 else (365 :: int))" if "B \<longrightarrow> A" "C \<longrightarrow> B" for A B C
    using that by (cases A; cases B; cases C) simp_all
  have "days_before_year (y + 1) - days_before_year y =
      365 + (y div 4 - (y - 1) div 4) - (y div 100 - (y - 1) div 100) + (y div 400 - (y - 1) div 400)"
    unfolding days_before_year_def add_diff_cancel_right' by (rule alg)
  also have "\<dots> = 365 + (if y mod 4 = 0 then 1 else 0) - (if y mod 100 = 0 then 1 else 0) + (if y mod 400 = 0 then 1 else 0)"
    unfolding e4 e100 e400 by (rule refl)
  also have "\<dots> = (if is_leap y then 366 else 365)"
    unfolding is_leap_def by (rule leap [OF m])
  finally show ?thesis .
qed

lemma days_before_year_mono: "x \<le> y \<Longrightarrow> days_before_year x \<le> days_before_year y"
proof -
  have "days_before_year x \<le> days_before_year (x + int n)" for n
  proof (induction n)
    case (Suc n)
    have "days_before_year (x + int n) \<le> days_before_year (x + int n + 1)"
      using year_length [of "x + int n"] by (cases "is_leap (x + int n)") simp_all
    with Suc have "days_before_year x \<le> days_before_year (x + int n + 1)" by linarith
    then show ?case by (simp add: ac_simps)
  qed simp
  from this [of "nat (y - x)"] show "x \<le> y \<Longrightarrow> ?thesis" by simp
qed

lemma civil_year:
  assumes "civil n = (y, m, d)" and "0 \<le> n" and "n < days_before_year 10000"
  shows "1 \<le> y" and "y \<le> 9999"
proof -
  obtain k where k: "year_yday n = (y, k)" using assms(1) by (auto simp: civil_def Let_def split: prod.splits)
  note p = year_yday [OF k]
  have "n < days_before_year (y + 1)" using p year_length [of y] by (auto split: if_splits)
  then have "\<not> y + 1 \<le> 1" using days_before_year_mono [of "y + 1" 1] assms(2) by (auto simp: days_before_year_def)
  then show "1 \<le> y" by simp
  have "\<not> 10000 \<le> y" using days_before_year_mono [of 10000 y] p assms(3) by linarith
  then show "y \<le> 9999" by simp
qed

section \<open>What is written is read back\<close>

lemma dig_digit_char [simp]: "n < 10 \<Longrightarrow> dig (digit_char n) = int n" "n < 10 \<Longrightarrow> is_digit (digit_char n)"
  by (simp_all add: dig_def)

lemma digit_char_0: "digit_char 0 = CHR ''0''"
  by code_simp

lemma nat_digits_step: "\<not> n < 10 \<Longrightarrow> nat_digits n = nat_digits (n div 10) @ [digit_char (n mod 10)]"
  by (simp add: nat_digits.simps [of n])

lemma nat_digits_one: "n < 10 \<Longrightarrow> nat_digits n = [digit_char n]"
  by (simp add: nat_digits.simps [of n])

lemma append_int_2:
  assumes "0 \<le> v" and "v < 100"
  shows "append_int 2 v = [digit_char (nat v div 10), digit_char (nat v mod 10)]"
proof (cases "v < 10")
  case True
  with assms have "nat v div 10 = 0" "nat v mod 10 = nat v" "nat v < 10" by auto
  with assms show ?thesis by (simp add: append_int_def digit_char_0 nat_digits_one)
next
  case False
  with assms have "\<not> nat v < 10" "nat v div 10 < 10" by auto
  with assms show ?thesis by (simp add: append_int_def nat_digits_step nat_digits_one)
qed

lemma getnum_append_int: "0 \<le> v \<Longrightarrow> v < 100 \<Longrightarrow> getnum f (append_int 2 v @ s) = Some (v, s)"
proof -
  assume v: "0 \<le> v" "v < 100"
  define n where "n = nat v"
  have n: "v = int n" "n div 10 < 10" using v by (auto simp: n_def)
  have "10 * int (n div 10) + int (n mod 10) = int (10 * (n div 10) + n mod 10)" by (simp only: of_nat_add of_nat_mult of_nat_numeral)
  then have "10 * int (n div 10) + int (n mod 10) = v" by (simp add: n(1))
  with n v show ?thesis by (simp add: append_int_2)
qed

lemma append_int_4:
  assumes "1 \<le> v" and "v \<le> 9999"
  shows "append_int 4 v = map (\<lambda>k. digit_char (nat v div 10 ^ k mod 10)) [3, 2, 1, 0]"
proof -
  define n where "n = nat v"
  have n: "v = int n" "n < 10000" using assms by (auto simp: n_def)
  have d2: "n div 10 div 10 = n div 100" "n div 100 div 10 = n div 1000" by (simp_all add: div_mult2_eq [symmetric])
  consider "n < 10" | "10 \<le> n" "n < 100" | "100 \<le> n" "n < 1000" | "1000 \<le> n" by linarith
  then have "replicate (4 - length (nat_digits n)) CHR ''0'' @ nat_digits n =
      [digit_char (n div 1000 mod 10), digit_char (n div 100 mod 10), digit_char (n div 10 mod 10), digit_char (n mod 10)]"
  proof cases
    case 1
    then show ?thesis by (simp add: nat_digits_one digit_char_0 numeral_3_eq_3)
  next
    case 2
    then have "\<not> n < 10" "n div 10 < 10" by auto
    with 2 show ?thesis by (simp add: nat_digits_step nat_digits_one digit_char_0 numeral_2_eq_2)
  next
    case 3
    then have "\<not> n < 10" "\<not> n div 10 < 10" "n div 10 div 10 < 10" by auto
    with 3 show ?thesis by (simp add: nat_digits_step nat_digits_one digit_char_0 d2)
  next
    case 4
    then have "\<not> n < 10" "\<not> n div 10 < 10" "\<not> n div 10 div 10 < 10" "n div 10 div 10 div 10 < 10"
      using n(2) by auto
    with 4 show ?thesis by (simp add: nat_digits_step nat_digits_one d2)
  qed
  then show ?thesis using n by (simp add: append_int_def numeral_3_eq_3)
qed

lemma int_digits:
  "n = 1000 * a + 100 * b + 10 * c + d \<Longrightarrow> int n = 1000 * int a + 100 * int b + 10 * int c + int d"
  by simp

lemma get_year_append_int:
  assumes "1 \<le> v" and "v \<le> 9999"
  shows "get_year (append_int 4 v @ s) = Some (v, s)"
proof -
  define n where "n = nat v"
  have n: "v = int n" "n < 10000" using assms by (auto simp: n_def)
  have d: "n div 10 div 10 = n div 100" "n div 100 div 10 = n div 1000" by (simp_all add: div_mult2_eq [symmetric])
  have "n div 1000 mod 10 = n div 1000" using n(2) by simp
  then have top: "n div 1000 mod 10 = n div 1000" .
  define a b c k2 k1 k0 where defs: "a = n div 10" "b = n div 100" "c = n div 1000"
    "k2 = n div 100 mod 10" "k1 = n div 10 mod 10" "k0 = n mod 10"
  have "n = 10 * a + k0" unfolding defs by (rule mult_div_mod_eq [symmetric])
  moreover have "a = 10 * b + k1" unfolding defs d(1) [symmetric] by (rule mult_div_mod_eq [symmetric])
  moreover have "b = 10 * c + k2" unfolding defs d(2) [symmetric] by (rule mult_div_mod_eq [symmetric])
  ultimately have "n = 1000 * c + 100 * k2 + 10 * k1 + k0" by linarith
  then have "n = 1000 * (n div 1000 mod 10) + 100 * (n div 100 mod 10) + 10 * (n div 10 mod 10) + n mod 10"
    unfolding top defs .
  then have v: "v = 1000 * int (n div 1000 mod 10) + 100 * int (n div 100 mod 10) + 10 * int (n div 10 mod 10) + int (n mod 10)"
    unfolding n(1) by (rule int_digits)
  have "get_year (map (\<lambda>k. digit_char (n div 10 ^ k mod 10)) [3, 2, 1, 0] @ s) =
      Some (1000 * int (n div 1000 mod 10) + 100 * int (n div 100 mod 10) + 10 * int (n div 10 mod 10) + int (n mod 10), s)"
    by simp
  then show ?thesis unfolding append_int_4 [OF assms] n_def [symmetric] v [symmetric] .
qed

text \<open>The instants of the years 1 to 9999, whose year is four digits.\<close>

definition four_digit_time :: "instant \<Rightarrow> bool" where
  "four_digit_time t \<longleftrightarrow> 0 \<le> t \<and> t < days_before_year 10000 * day"

lemma mod_mult_div: "0 < a \<Longrightarrow> 0 < b \<Longrightarrow> r mod (a * b) div a = r div a mod b" for a b r :: int
  by (simp add: zmod_zmult2_eq)

lemma clock_split:
  assumes "0 \<le> r" and "r < day"
  shows "0 \<le> r div hour" and "r div hour < 24" and "0 \<le> r mod hour div minute" and "r mod hour div minute < 60"
    and "0 \<le> r mod minute div second" and "r mod minute div second < 60"
    and "r div hour * hour + r mod hour div minute * minute + r mod minute div second * second = r div second * second"
proof -
  have s: "second = 1000000000" by (simp add: second_def)
  have m: "minute = 60 * second" and h: "hour = 60 * minute" by (simp_all add: duration_defs)
  define q where "q = r div second"
  have qm: "r div minute = q div 60" "r div hour = q div 60 div 60"
    by (simp_all add: q_def m h zdiv_zmult2_eq [symmetric] s)
  have "r mod hour div minute = r div minute mod 60"
    using mod_mult_div [of minute 60 r] by (simp add: h mult.commute duration_defs)
  moreover have "r mod minute div second = r div second mod 60"
    using mod_mult_div [of second 60 r] by (simp add: m mult.commute duration_defs)
  ultimately have e: "r mod hour div minute = q div 60 mod 60" "r mod minute div second = q mod 60"
    by (simp_all add: qm q_def)
  have q: "0 \<le> q" "q < 86400" using assms by (auto simp: q_def day_def duration_defs)
  show "0 \<le> r div hour" "r div hour < 24" "0 \<le> r mod hour div minute" "r mod hour div minute < 60"
    "0 \<le> r mod minute div second" "r mod minute div second < 60"
    unfolding e qm using q by auto
  have "q div 60 div 60 * 3600 + q div 60 mod 60 * 60 + q mod 60 = q" by presburger
  then have "(q div 60 div 60 * 3600 + q div 60 mod 60 * 60 + q mod 60) * second = q * second" by simp
  then show "r div hour * hour + r mod hour div minute * minute + r mod minute div second * second = r div second * second"
    unfolding e qm q_def [symmetric] by (simp add: m h algebra_simps)
qed

lemma day_div_second: "(n * day + r) div second * second = n * day + r div second * second"
proof -
  have "n * day = second * (n * 86400)" by (simp add: day_def duration_defs)
  then have "(n * day + r) div second = n * 86400 + r div second" by (simp only:) (simp add: second_def)
  then show ?thesis by (simp add: day_def duration_defs algebra_simps)
qed

lemma div_less: "0 < b \<Longrightarrow> a < c * b \<Longrightarrow> a div b < c" for a b c :: int
proof -
  assume "0 < b" "a < c * b"
  moreover have "a div b * b \<le> a" using \<open>0 < b\<close> pos_mod_sign [of b a] by (simp add: minus_mod_eq_div_mult [symmetric])
  ultimately have "a div b * b < c * b" by linarith
  with \<open>0 < b\<close> show ?thesis by simp
qed

text \<open>
  A time of the years 1 to 9999, written as RFC 3339 the way the handlers write it, is
  read back by the layouts \<open>since\<close> tries first, to the second.
\<close>

lemma rfc3339_roundtrip:
  assumes "four_digit_time t"
  shows "ParseInLocation_UTC layout_RFC3339Nano (FormatRFC3339 t) = Some (t div second * second) \<and>
    ParseInLocation_UTC layout_RFC3339 (FormatRFC3339 t) = Some (t div second * second)"
proof -
  define r where "r = t mod day"
  have dayp: "0 < day" by (simp add: day_def duration_defs)
  then have r: "0 \<le> r" "r < day" by (simp_all add: r_def)
  obtain y m d where c: "civil (t div day) = (y, m, d)" by (cases "civil (t div day)")
  have n: "0 \<le> t div day" "t div day < days_before_year 10000"
    using assms dayp by (simp_all add: four_digit_time_def pos_imp_zdiv_nonneg_iff div_less)
  note y = civil_year [OF c n] and date = civil_date [OF c] and clk = clock_split [OF r]
  have dd: "d < 100" using date(5) date(2,3) by (auto simp: days_in_def month_lengths_def nth_Cons' split: if_splits)
  have "t div second * second = t div day * day + r div second * second"
    using day_div_second [of "t div day" r] by (simp add: r_def)
  then have total: "Date_UTC y m d (r div hour) (r mod hour div minute) (r mod minute div second) 0 = t div second * second"
    unfolding Date_UTC_def date(1) using clk(7) by linarith
  have fmt: "FormatRFC3339 t = append_int 4 y @ ''-'' @ append_int 2 m @ ''-'' @ append_int 2 d @ ''T''
      @ append_int 2 (r div hour) @ '':'' @ append_int 2 (r mod hour div minute) @ '':''
      @ append_int 2 (r mod minute div second) @ ''Z''"
    by (simp add: FormatRFC3339_def c r_def Let_def)
  note read = get_year_append_int [OF y] getnum_append_int in_range_def
  have "ParseInLocation_UTC l (FormatRFC3339 t) = Some (t div second * second)"
    if "l = layout_RFC3339Nano \<or> l = layout_RFC3339" for l
    using that date(2-5) clk(1-6) dd total
    by (auto simp: ParseInLocation_UTC_def layout_RFC3339Nano_def layout_RFC3339_def layout_date_def fmt read no_fields_def)
  then show ?thesis by simp
qed

end
