(* ===== verification/Handlers.thy ===== *)
theory Handlers
  imports Queue AuthApi GoTime
begin

text \<open>
  \<open>internal/server/handlers.go\<close>: the handlers over payouts, the user-to-admin mapping, the
  synchronous flows and the contract chains. A handler is a function from the request's parts to
  its response and the world after it; the payout handlers also take the queue manager. The body
  is what the framework's decoding yields (its error's text or the request), a path parameter is
  its value, the context is the request's own.
\<close>

definition defaultHandlerTimeout :: duration where
  "defaultHandlerTimeout = 3 * minute"

text \<open>\<open>gin.H\<close>, a map: \<open>json.Marshal\<close> writes its keys in order.\<close>

definition gin_H :: "(string \<times> json) list \<Rightarrow> json" where
  "gin_H kvs = JObj (sort_key fst kvs)"

definition json_strings :: "string list option \<Rightarrow> json" where
  "json_strings xs = (case xs of None \<Rightarrow> JNull | Some ys \<Rightarrow> JArr (map JStr ys))"

section \<open>Reward transfer\<close>

record TransferRewardRequest =
  trq_user_did :: string
  trq_admin_did :: string
  trq_activity_id :: "string list"

definition reward_input :: "TransferRewardRequest \<Rightarrow> TransferRewardInput" where
  "reward_input req =
     \<lparr>ti_admin_did = trq_admin_did req, ti_user_did = trq_user_did req, ti_activity_ids = trq_activity_id req\<rparr>"

definition queued_status :: "string \<Rightarrow> TransferRewardRequest \<Rightarrow> TransferStatus" where
  "queued_status rid req =
     \<lparr>ts_request_id = rid, ts_transaction_id = '''', ts_kind = KindReward, ts_admin_did = trq_admin_did req,
      ts_user_did = trq_user_did req, ts_activity_ids = Some (trq_activity_id req), ts_reward_points = 0,
      ts_contract_hash = '''', ts_status = StatusQueued, ts_message = ''queued for processing'',
      ts_error_details = '''', ts_created_at = 0, ts_updated_at = 0\<rparr>"

text \<open>The handler up to the persisted row: a response that ends it, or the new request id.\<close>

definition persist_queued ::
    "env \<Rightarrow> ctx \<Rightarrow> string + TransferRewardRequest \<Rightarrow> 'z networld_scheme \<Rightarrow>
       (response + string \<times> TransferRewardInput) \<times> 'z networld_scheme" where
  "persist_queued e ctx body w =
     (case body of
        Inl msg \<Rightarrow> (Inl (reply_err 400 ''Validation failed'' msg), w)
      | Inr req \<Rightarrow>
          (case ValidateTransferReward (w_cfg w) (reward_input req) of
             Some err \<Rightarrow> (Inl (reply_err 400 ''Validation failed'' (err_text err)), w)
           | None \<Rightarrow>
               let (requestID, w1) = fresh_uuid e w in
               (case CreateTransferStatus e ctx (queued_status requestID req) w1 of
                  (Inl err, w2) \<Rightarrow> (Inl (reply_err 500 ''Persistence error'' (err_text err)), w2)
                | (Inr _, w2) \<Rightarrow> (Inr (requestID, reward_input req), w2))))"

definition not_enqueued_updates :: "goerr \<Rightarrow> (string \<times> upd_val) list" where
  "not_enqueued_updates err =
     [(''status'', VStr StatusFailed), (''message'', VStr ''queue full, not enqueued''),
      (''error_details'', VStr (err_text err))]"

text \<open>The rest of it: the job goes to the queue, or the row is marked failed.\<close>

definition enqueue_or_fail ::
    "(string \<Rightarrow> json) \<Rightarrow> env \<Rightarrow> ctx \<Rightarrow> string \<Rightarrow> TransferRewardInput \<Rightarrow> Manager \<times> 'z networld_scheme \<Rightarrow>
       response \<times> Manager \<times> 'z networld_scheme" where
  "enqueue_or_fail accepted_body e ctx requestID i s =
     (case s of (m, w) \<Rightarrow>
       (case Enqueue (Some \<lparr>tj_request_id = requestID, tj_input = i, tj_enqueued_at = w_now w\<rparr>) m of
          (Inl err, m1) \<Rightarrow>
            let w1 = snd (UpdateTransferStatus e ctx requestID (not_enqueued_updates err) w) in
            (if errors_Is err ErrQueueFull
             then reply_err 503 (err_text err) ''System at capacity, please retry in a few minutes''
             else reply_err 500 ''Enqueue error'' (err_text err), m1, w1)
        | (Inr _, m1) \<Rightarrow> (reply 202 (accepted_body requestID), m1, w)))"

definition request_transfer ::
    "(string \<Rightarrow> json) \<Rightarrow> env \<Rightarrow> ctx \<Rightarrow> string + TransferRewardRequest \<Rightarrow> Manager \<times> 'z networld_scheme \<Rightarrow>
       response \<times> Manager \<times> 'z networld_scheme" where
  "request_transfer accepted_body e ctx body s =
     (case s of (m, w) \<Rightarrow>
       (case persist_queued e ctx body w of
          (Inl rsp, w1) \<Rightarrow> (rsp, m, w1)
        | (Inr (requestID, i), w1) \<Rightarrow> enqueue_or_fail accepted_body e ctx requestID i (m, w1)))"

definition TransferRewardResponse :: "string \<Rightarrow> json" where
  "TransferRewardResponse requestID =
     JObj [(''status'', JBool True), (''message'', JStr ''Transfer request queued for processing''),
           (''data'', JObj [(''request_id'', JStr requestID)])]"

definition handleTransferReward ::
    "env \<Rightarrow> ctx \<Rightarrow> string + TransferRewardRequest \<Rightarrow> Manager \<times> 'z networld_scheme \<Rightarrow>
       response \<times> Manager \<times> 'z networld_scheme" where
  "handleTransferReward = request_transfer TransferRewardResponse"

definition transferStatusView :: "TransferStatus \<Rightarrow> json" where
  "transferStatusView t =
     gin_H
       [(''request_id'', JStr (ts_request_id t)), (''transaction_id'', JStr (ts_transaction_id t)),
        (''kind'', JStr (ts_kind t)), (''admin_did'', JStr (ts_admin_did t)), (''user_did'', JStr (ts_user_did t)),
        (''activity_ids'', json_strings (ts_activity_ids t)), (''reward_points'', JInt (ts_reward_points t)),
        (''contract_hash'', JStr (ts_contract_hash t)), (''status'', JStr (ts_status t)),
        (''message'', JStr (ts_message t)), (''error_details'', JStr (ts_error_details t)),
        (''created_at'', JStr (FormatRFC3339 (ts_created_at t))),
        (''updated_at'', JStr (FormatRFC3339 (ts_updated_at t)))]"

definition handleTransferStatus ::
    "env \<Rightarrow> ctx \<Rightarrow> string \<Rightarrow> 'z networld_scheme \<Rightarrow> response \<times> 'z networld_scheme" where
  "handleTransferStatus e ctx requestID w =
     (if requestID = '''' then (reply_err 400 ''missing request_id'' '''', w)
      else case GetTransferStatusByRequestID e ctx requestID w of
        (Inl err, w1) \<Rightarrow>
          if errors_Is err ErrNotFound then (reply_err 404 ''Transfer not found'' '''', w1)
          else (reply_err 500 ''lookup failed'' (err_text err), w1)
      | (Inr ts, w1) \<Rightarrow> (reply 200 (okResponse '''' (Some (transferStatusView ts))), w1))"

text \<open>\<open>Snapshot\<close> returns a map: the order of the rows is Go's choice, here the table's.\<close>

definition handleQueueMetrics :: "Manager \<Rightarrow> response" where
  "handleQueueMetrics m =
     (let (total, perAdmin) = Snapshot m in
      reply 200 (okResponse '''' (Some (gin_H
        [(''total_admins'', JInt (int (length perAdmin))), (''total_queued'', JInt total),
         (''admin_queues'', JArr (map (\<lambda>(did, depth).
            gin_H [(''admin_did'', JStr did), (''queue_size'', JInt depth)]) perAdmin))]))))"

section \<open>Reward history and the user-to-admin mapping\<close>

definition rewardHistoryEntry :: "TransferStatus \<Rightarrow> json" where
  "rewardHistoryEntry t =
     gin_H
       [(''date'', JStr (FormatRFC3339 (ts_created_at t))), (''activity_ids'', json_strings (ts_activity_ids t)),
        (''reward_points'', JInt (ts_reward_points t)), (''transaction_id'', JStr (ts_transaction_id t)),
        (''user_did'', JStr (ts_user_did t)), (''admin_did'', JStr (ts_admin_did t))]"

definition handleRewardsByUser ::
    "env \<Rightarrow> ctx \<Rightarrow> string \<Rightarrow> 'z networld_scheme \<Rightarrow> response \<times> 'z networld_scheme" where
  "handleRewardsByUser e ctx userDID w =
     (if userDID = '''' then (reply_err 400 ''user_did is required'' '''', w)
      else case ListSuccessfulRewardsByUserDID e ctx userDID w of
        (Inl err, w1) \<Rightarrow> (reply_err 500 ''lookup failed'' (err_text err), w1)
      | (Inr rows, w1) \<Rightarrow>
          (reply 200 (okResponse '''' (Some (gin_H
             [(''user_did'', JStr userDID), (''count'', JInt (int (length rows))),
              (''rewards'', JArr (map rewardHistoryEntry rows))]))), w1))"

definition handleAdminUserCount ::
    "env \<Rightarrow> ctx \<Rightarrow> string \<Rightarrow> 'z networld_scheme \<Rightarrow> response \<times> 'z networld_scheme" where
  "handleAdminUserCount e ctx adminDID w =
     (if adminDID = '''' then (reply_err 400 ''admin_did is required'' '''', w)
      else case GetAdminByDID e ctx adminDID w of
        (Inl err, w1) \<Rightarrow>
          if errors_Is err ErrNotFound then (reply_err 404 ''admin not found'' '''', w1)
          else (reply_err 500 ''lookup failed'' (err_text err), w1)
      | (Inr _, w1) \<Rightarrow>
          (case CountUsersForAdmin e ctx adminDID w1 of
             (Inl err, w2) \<Rightarrow> (reply_err 500 ''count failed'' (err_text err), w2)
           | (Inr n, w2) \<Rightarrow>
               (reply 200 (okResponse '''' (Some (gin_H
                  [(''admin_did'', JStr adminDID), (''user_count'', JInt n)]))), w2)))"

definition handleUserAdmin ::
    "env \<Rightarrow> ctx \<Rightarrow> string \<Rightarrow> 'z networld_scheme \<Rightarrow> response \<times> 'z networld_scheme" where
  "handleUserAdmin e ctx userDID w =
     (if userDID = '''' then (reply_err 400 ''user_did is required'' '''', w)
      else case GetAdminForUser e ctx userDID w of
        (Inl err, w1) \<Rightarrow>
          if errors_Is err ErrNotFound then (reply_err 404 ''no admin mapping for user'' '''', w1)
          else (reply_err 500 ''lookup failed'' (err_text err), w1)
      | (Inr adminDID, w1) \<Rightarrow>
          (reply 200 (okResponse '''' (Some (gin_H
             [(''user_did'', JStr userDID), (''admin_did'', JStr adminDID)]))), w1))"

definition handleRewardsByAdmin ::
    "env \<Rightarrow> ctx \<Rightarrow> string \<Rightarrow> 'z networld_scheme \<Rightarrow> response \<times> 'z networld_scheme" where
  "handleRewardsByAdmin e ctx adminDID w =
     (if adminDID = '''' then (reply_err 400 ''admin_did is required'' '''', w)
      else case ListSuccessfulRewardsByAdminDID e ctx adminDID w of
        (Inl err, w1) \<Rightarrow> (reply_err 500 ''lookup failed'' (err_text err), w1)
      | (Inr rows, w1) \<Rightarrow>
          (reply 200 (okResponse '''' (Some (gin_H
             [(''admin_did'', JStr adminDID), (''count'', JInt (int (length rows))),
              (''rewards'', JArr (map rewardHistoryEntry rows))]))), w1))"

section \<open>Activities, admins, contracts\<close>

definition rubixErrorStatus :: "goerr \<Rightarrow> int" where
  "rubixErrorStatus err = (if IsAPIError err then 502 else 500)"

record AddActivityRequest =
  aaq_activity_id :: string
  aaq_reward_points :: int
  aaq_admin_did :: string
  aaq_description :: string

record AddAdminRequest =
  adq_new_admin_did :: string
  adq_existing_admin_did :: string

record CreateDIDWithPubKeyRequest =
  cdq_admin_did :: string
  cdq_public_key :: string

record DeployContractRequest =
  dcq_deployer_did :: string
  dcq_kind :: string
  dcq_wasm_path :: string
  dcq_lib_path :: string

record ExecuteContractRequest =
  ecq_contract_hash :: string
  ecq_executor_did :: string
  ecq_contract_input :: string

definition handleAddActivity :: "env \<Rightarrow> ctx \<Rightarrow> ('z, AddActivityRequest) handler" where
  "handleAddActivity e ctx0 body w =
     (case body of
        Inl msg \<Rightarrow> (reply_err 400 ''Validation failed'' msg, w)
      | Inr req \<Rightarrow>
          if aaq_activity_id req = '''' \<or> aaq_admin_did req = '''' then
            (reply_err 400 ''activity_id and admin_did are required'' '''', w)
          else
            let ctx = with_timeout ctx0 (w_now w) defaultHandlerTimeout in
            (case AddActivity e ctx (aaq_admin_did req) (aaq_activity_id req) (aaq_reward_points req)
                (aaq_description req) w of
               (Inl err, w1) \<Rightarrow> (reply_err (rubixErrorStatus err) ''add activity failed'' (err_text err), w1)
             | (Inr (sr, hash), w1) \<Rightarrow>
                 (reply 200 (gin_H
                    [(''message'', JStr ''Activity added to smart contract tokenchain''),
                     (''data'', gin_H
                        [(''transaction_id'', JStr (sr_transaction_id sr)), (''contract_hash'', JStr hash),
                         (''message'', JStr (sr_message sr))])]), w1)))"

definition handleAddAdmin :: "env \<Rightarrow> ctx \<Rightarrow> ('z, AddAdminRequest) handler" where
  "handleAddAdmin e ctx0 body w =
     (case body of
        Inl msg \<Rightarrow> (reply_err 400 ''Validation failed'' msg, w)
      | Inr req \<Rightarrow>
          if adq_new_admin_did req = '''' \<or> adq_existing_admin_did req = '''' then
            (reply_err 400 ''new_admin_did and existing_admin_did are required'' '''', w)
          else
            let ctx = with_timeout ctx0 (w_now w) defaultHandlerTimeout in
            (case AddAdmin e ctx (adq_existing_admin_did req) (adq_new_admin_did req) w of
               (Inl err, w1) \<Rightarrow> (reply_err (rubixErrorStatus err) ''add admin failed'' (err_text err), w1)
             | (Inr (sr, hash), w1) \<Rightarrow>
                 (reply 200 (gin_H
                    [(''message'', JStr ''Admin added to smart contract tokenchain''),
                     (''data'', gin_H
                        [(''transaction_id'', JStr (sr_transaction_id sr)), (''contract_hash'', JStr hash),
                         (''message'', JStr (sr_message sr))])]), w1)))"

definition handleCreateDIDWithPubKey :: "env \<Rightarrow> ctx \<Rightarrow> ('z, CreateDIDWithPubKeyRequest) handler" where
  "handleCreateDIDWithPubKey e ctx0 body w =
     (case body of
        Inl msg \<Rightarrow> (reply_err 400 ''Validation failed'' msg, w)
      | Inr req \<Rightarrow>
          if cdq_admin_did req = '''' \<or> cdq_public_key req = '''' then
            (reply_err 400 ''admin_did and public_key are required'' '''', w)
          else
            let ctx = with_timeout ctx0 (w_now w) defaultHandlerTimeout in
            (case CreateDIDWithPubKey e ctx (cdq_admin_did req) (cdq_public_key req) w of
               (Inl err, w1) \<Rightarrow> (reply_err (rubixErrorStatus err) ''create did failed'' (err_text err), w1)
             | (Inr did, w1) \<Rightarrow> (reply 200 (okResponse '''' (Some (gin_H [(''did'', JStr did)]))), w1)))"

definition handleDeployContract :: "env \<Rightarrow> ctx \<Rightarrow> ('z, DeployContractRequest) handler" where
  "handleDeployContract e ctx0 body w =
     (case body of
        Inl msg \<Rightarrow> (reply_err 400 ''Validation failed'' msg, w)
      | Inr req \<Rightarrow>
          if dcq_deployer_did req = '''' \<or> dcq_wasm_path req = '''' \<or> dcq_lib_path req = '''' then
            (reply_err 400 ''deployer_did, wasm_path and lib_path are required'' '''', w)
          else
            let kind = (if dcq_kind req = '''' then KindReward else dcq_kind req);
                ctx = with_timeout ctx0 (w_now w) defaultHandlerTimeout in
            (case DeployContract e ctx (dcq_deployer_did req) kind (dcq_wasm_path req) (dcq_lib_path req) w of
               (Inl err, w1) \<Rightarrow> (reply_err (rubixErrorStatus err) ''deploy failed'' (err_text err), w1)
             | (Inr token, w1) \<Rightarrow>
                 (reply 200 (gin_H
                    [(''message'', JStr ''Contract Deployed Successfully''),
                     (''data'', gin_H
                        [(''ContractHash'', JStr token), (''Kind'', JStr kind), (''Success'', JBool True),
                         (''Message'', JStr ''Contract deployed successfully'')])]), w1)))"

definition handleExecuteContract :: "env \<Rightarrow> ctx \<Rightarrow> ('z, ExecuteContractRequest) handler" where
  "handleExecuteContract e ctx0 body w =
     (case body of
        Inl msg \<Rightarrow> (reply_err 400 ''Validation failed'' msg, w)
      | Inr req \<Rightarrow>
          if ecq_contract_hash req = '''' \<or> ecq_executor_did req = '''' then
            (reply_err 400 ''contract_hash and executor_did are required'' '''', w)
          else
            let ctx = with_timeout ctx0 (w_now w) defaultHandlerTimeout in
            (case ExecuteContract e ctx (ecq_executor_did req) (ecq_contract_hash req) (ecq_contract_input req) w of
               (Inl err, w1) \<Rightarrow> (reply_err (rubixErrorStatus err) ''execute failed'' (err_text err), w1)
             | (Inr sr, w1) \<Rightarrow>
                 (reply 200 (gin_H
                    [(''message'', JStr ''DApp executed successfully''),
                     (''data'', gin_H
                        [(''transaction_id'', JStr (sr_transaction_id sr)), (''message'', JStr (sr_message sr)),
                         (''Success'', JBool True)])]), w1)))"

definition chain_entry_json :: "ChainEntry \<Rightarrow> json" where
  "chain_entry_json c =
     JObj [(''transactionId'', JStr (ce_transaction_id c)), (''initiator'', JStr (ce_initiator c)),
           (''epoch'', JInt (ce_epoch c)), (''data'', JStr (ce_data c))]"

definition chain_json :: "chain \<Rightarrow> json" where
  "chain_json c = (case c of None \<Rightarrow> JNull | Some es \<Rightarrow> JArr (map chain_entry_json es))"

definition chain_length :: "chain \<Rightarrow> int" where
  "chain_length c = (case c of None \<Rightarrow> 0 | Some es \<Rightarrow> int (length es))"

definition handleContractChainByKind ::
    "env \<Rightarrow> ctx \<Rightarrow> string \<Rightarrow> string \<Rightarrow> 'z networld_scheme \<Rightarrow> response \<times> 'z networld_scheme" where
  "handleContractChainByKind e ctx0 adminDID kind w =
     (if adminDID = '''' \<or> kind = '''' then (reply_err 400 ''admin_did and kind are required'' '''', w)
      else
        let ctx = with_timeout ctx0 (w_now w) defaultHandlerTimeout in
        (case GetContractChain e ctx adminDID kind w of
           (Inl err, w1) \<Rightarrow>
             if errors_Is err ErrNotFound then (reply_err 404 ''contract not found for admin/kind'' '''', w1)
             else (reply_err (rubixErrorStatus err) ''chain lookup failed'' (err_text err), w1)
         | (Inr (hash, chain), w1) \<Rightarrow>
             (reply 200 (okResponse '''' (Some (gin_H
                [(''admin_did'', JStr adminDID), (''kind'', JStr kind), (''contract_hash'', JStr hash),
                 (''chain'', chain_json chain), (''count'', JInt (chain_length chain))]))), w1)))"

definition handleContractChainByHash ::
    "env \<Rightarrow> ctx \<Rightarrow> string \<Rightarrow> 'z networld_scheme \<Rightarrow> response \<times> 'z networld_scheme" where
  "handleContractChainByHash e ctx0 hash w =
     (if hash = '''' then (reply_err 400 ''contract_hash is required'' '''', w)
      else
        let ctx = with_timeout ctx0 (w_now w) defaultHandlerTimeout in
        (case GetContractChainByHash e ctx hash w of
           (Inl err, w1) \<Rightarrow>
             if errors_Is err ErrNotFound then (reply_err 404 ''contract not registered'' '''', w1)
             else (reply_err (rubixErrorStatus err) ''chain lookup failed'' (err_text err), w1)
         | (Inr (adminDID, chain), w1) \<Rightarrow>
             (reply 200 (okResponse '''' (Some (gin_H
                [(''admin_did'', JStr adminDID), (''contract_hash'', JStr hash), (''chain'', chain_json chain),
                 (''count'', JInt (chain_length chain))]))), w1)))"

section \<open>What a payout request leaves behind\<close>

lemma persist_queued_cases:
  assumes run: "persist_queued e ctx body w = (r, w')"
  obtains (refused) rsp where "r = Inl rsp" "rsp_status rsp = 400" "w' = w"
  | (unstored) rsp where "r = Inl rsp" "rsp_status rsp = 500" "w_db w' = w_db w"
  | (stored) rid req where "body = Inr req" "ValidateTransferReward (w_cfg w) (reward_input req) = None"
      "r = Inr (rid, reward_input req)" "transfer_of w rid = None"
      "w_db w' = (w_db w)\<lparr>t_transfers := t_transfers (w_db w) @ [transfer_insert_row (queued_status rid req) (w_now w)]\<rparr>"
      "w_now w \<le> w_now w'" "dbworld.more w' = dbworld.more w"
proof -
  consider (bad) rsp where "r = Inl rsp" "rsp_status rsp = 400" "w' = w"
    | (ok) req where "body = Inr req" "ValidateTransferReward (w_cfg w) (reward_input req) = None"
    using run by (auto simp: persist_queued_def split: sum.splits option.splits)
  then show ?thesis
  proof cases
    case bad
    then show ?thesis by (rule refused)
  next
    case ok
    let ?rid = "env_uuid e (w_fresh w)" and ?w1 = "w\<lparr>w_fresh := Suc (w_fresh w)\<rparr>"
    obtain q w2 where c: "CreateTransferStatus e ctx (queued_status ?rid req) ?w1 = (q, w2)" by fastforce
    have r: "r = (case q of Inl err \<Rightarrow> Inl (reply_err 500 ''Persistence error'' (err_text err))
        | Inr _ \<Rightarrow> Inr (?rid, reward_input req))" "w' = w2"
      using run ok c by (auto simp: persist_queued_def fresh_uuid_def split: sum.splits)
    from c show ?thesis
    proof (cases rule: CreateTransferStatus_cases)
      case (fail err)
      with r show ?thesis by (intro unstored) auto
    next
      case applied
      with r ok show ?thesis by (intro stored [of req ?rid]) (auto simp: transfer_of_def queued_status_def)
    qed
  qed
qed

lemma stored_row:
  assumes "transfer_of w rid = None"
    and "w_db w' = (w_db w)\<lparr>t_transfers := t_transfers (w_db w) @ [transfer_insert_row (queued_status rid req) t]\<rparr>"
  shows "transfer_of w' q = (if q = rid then Some (transfer_insert_row (queued_status rid req) t) else transfer_of w q)"
  using assms by (auto simp: transfer_of_def row_of_append queued_status_def split: option.split)

lemma enqueue_or_fail_cases:
  assumes run: "enqueue_or_fail accepted_body e ctx rid i (m, w) = (rsp, m', w')" and ok: "mgr_ok m"
    and admin: "ti_admin_did i \<noteq> ''''"
  obtains (accepted) job where "rsp = reply 202 (accepted_body rid)" "w' = w" "tj_request_id job = rid" "tj_input job = i"
      "queue_of m' = (queue_of m)(ti_admin_did i := queue_of m (ti_admin_did i) @ [job])" "mgr_ok m'"
  | (full) err where "rsp_status rsp = 503" "errors_Is err ErrQueueFull" "mgr_ok m'" "queue_of m' = queue_of m"
      "w' = snd (UpdateTransferStatus e ctx rid (not_enqueued_updates err) w)"
      "nat (mgr_bufferSize m) \<le> length (queue_of m (ti_admin_did i))"
proof -
  let ?job = "\<lparr>tj_request_id = rid, tj_input = i, tj_enqueued_at = w_now w\<rparr>"
  obtain q m1 where e: "Enqueue (Some ?job) m = (q, m1)" by fastforce
  from e ok show ?thesis
  proof (cases rule: Enqueue_cases)
    case (missing msg)
    with admin show ?thesis by simp
  next
    case (full err)
    show ?thesis by (rule that(2) [of err]) (use full run e in \<open>auto simp: enqueue_or_fail_def Let_def\<close>)
  next
    case (accepted qu)
    show ?thesis by (rule that(1) [of ?job]) (use accepted run e in \<open>auto simp: enqueue_or_fail_def\<close>)
  qed
qed

lemma validated_admin: "ValidateTransferReward cfg i = None \<Longrightarrow> ti_admin_did i \<noteq> '''' \<and> ti_user_did i \<noteq> ''''"
  by (auto simp: ValidateTransferReward_def isPlausibleDID_def split: if_splits)

text \<open>The two ways a request can end after its validation.\<close>

lemma request_transfer_cases:
  assumes run: "request_transfer accepted_body e ctx body (m, w) = (rsp, m', w')" and ok: "mgr_ok m"
  obtains (refused) "rsp_status rsp = 400" "m' = m" "w' = w"
  | (unstored) "rsp_status rsp = 500" "m' = m" "w_db w' = w_db w"
  | (accepted) rid req job where "body = Inr req" "ValidateTransferReward (w_cfg w) (reward_input req) = None"
      "rsp = reply 202 (accepted_body rid)" "transfer_of w rid = None"
      "\<And>q. transfer_of w' q = (if q = rid then Some (transfer_insert_row (queued_status rid req) (w_now w)) else transfer_of w q)"
      "tj_request_id job = rid" "tj_input job = reward_input req"
      "queue_of m' = (queue_of m)(trq_admin_did req := queue_of m (trq_admin_did req) @ [job])" "mgr_ok m'"
  | (full) rid req err w1 where "body = Inr req" "rsp_status rsp = 503" "queue_of m' = queue_of m" "mgr_ok m'"
      "transfer_of w rid = None"
      "\<And>q. transfer_of w1 q = (if q = rid then Some (transfer_insert_row (queued_status rid req) (w_now w)) else transfer_of w q)"
      "w' = snd (UpdateTransferStatus e ctx rid (not_enqueued_updates err) w1)"
proof -
  obtain p w1 where p: "persist_queued e ctx body w = (p, w1)" by fastforce
  from p show ?thesis
  proof (cases rule: persist_queued_cases)
    case (refused r)
    with run p that(1) show ?thesis by (simp add: request_transfer_def)
  next
    case (unstored r)
    with run p that(2) show ?thesis by (simp add: request_transfer_def)
  next
    case (stored rid req)
    note row = stored_row [OF stored(4,5)]
    have ad: "ti_admin_did (reward_input req) \<noteq> ''''" "trq_admin_did req = ti_admin_did (reward_input req)"
      using validated_admin [OF stored(2)] by (simp_all add: reward_input_def)
    have "enqueue_or_fail accepted_body e ctx rid (reward_input req) (m, w1) = (rsp, m', w')"
      using run p stored(3) by (simp add: request_transfer_def)
    from this ok ad(1) show ?thesis
    proof (cases rule: enqueue_or_fail_cases)
      case (accepted job)
      show ?thesis by (rule that(3) [of req rid job]) (use accepted stored row ad in auto)
    next
      case (full err)
      show ?thesis by (rule that(4) [of req rid w1 err]) (use full stored row in auto)
    qed
  qed
qed

section \<open>Properties\<close>

text \<open>
  Property C10: a payout request answered 202 is tracked from then on: the id it returns is new, the
  ledger holds its row as queued with the request's admin, user and activities, its one job is the
  last in the admin's queue, and nothing else in the ledger or the queues has changed.
\<close>

theorem accepted_payout_is_tracked:
  assumes "handleTransferReward e ctx body (m, w) = (rsp, m', w')" and "rsp_status rsp = 202" and "mgr_ok m"
  shows "\<exists>rid req job row. body = Inr req \<and> rsp = reply 202 (TransferRewardResponse rid) \<and> transfer_of w rid = None \<and>
    transfer_of w' rid = Some row \<and> tr_status row = StatusQueued \<and> tr_admin_did row = Some (trq_admin_did req) \<and>
    tr_user_did row = Some (trq_user_did req) \<and> tr_activity_ids row = Some (trq_activity_id req) \<and>
    tj_request_id job = rid \<and> tj_input job = reward_input req \<and>
    queue_of m' = (queue_of m)(trq_admin_did req := queue_of m (trq_admin_did req) @ [job]) \<and>
    (\<forall>q. q \<noteq> rid \<longrightarrow> transfer_of w' q = transfer_of w q)"
  using assms(1) [unfolded handleTransferReward_def] assms(3)
proof (cases rule: request_transfer_cases)
  case (accepted rid req job)
  have "trq_admin_did req \<noteq> ''''" "trq_user_did req \<noteq> ''''"
    using validated_admin [OF accepted(2)] by (simp_all add: reward_input_def)
  with accepted show ?thesis
    by (intro exI [of _ rid] exI [of _ req] exI [of _ job] exI [of _ "transfer_insert_row (queued_status rid req) (w_now w)"])
      (simp add: transfer_insert_row_def queued_status_def NULLIF_empty_def)
qed (use assms(2) in simp_all)

definition some_did :: "char \<Rightarrow> string" where
  "some_did c = ''bafyb'' @ replicate 15 c"

definition payout_request :: TransferRewardRequest where
  "payout_request = \<lparr>trq_user_did = some_did CHR ''u'', trq_admin_did = some_did CHR ''a'', trq_activity_id = [''x'']\<rparr>"

definition one_admin_net :: networld where
  "one_admin_net = sample_net\<lparr>w_cfg := (w_cfg sample_net)\<lparr>app_adminByDID :=
     [(some_did CHR ''a'', \<lparr>ac_did = some_did CHR ''a'', ac_password = '''', ac_node_port = ''1''\<rparr>)]\<rparr>\<rparr>"

lemma payout_request_valid: "ValidateTransferReward (w_cfg one_admin_net) (reward_input payout_request) = None"
proof -
  have "isPlausibleDID (some_did CHR ''a'')" "isPlausibleDID (some_did CHR ''u'')" "TrimSpace ''x'' \<noteq> ''''" by code_simp+
  then show ?thesis
    by (simp add: ValidateTransferReward_def reward_input_def payout_request_def one_admin_net_def AdminByDID_def)
qed

lemma one_admin_net_fields [simp]:
  "w_db one_admin_net = w_db empty_world" "w_fresh one_admin_net = 0" "w_now one_admin_net = 7000" "w_dbops one_admin_net = 0"
  by (simp_all add: one_admin_net_def sample_net_def dbworld.defs empty_world_def)

lemma payout_request_stored:
  "\<exists>w'. persist_queued quiet_env None (Inr payout_request) one_admin_net = (Inr ('''', reward_input payout_request), w')"
  using payout_request_valid
  by (simp add: persist_queued_def fresh_uuid_def CreateTransferStatus_def db_stmt_faultless Let_def queued_status_def
      in_int32_def) (simp add: empty_world_def)

theorem accepted_payout_is_tracked_witness:
  "\<exists>m' w' row. handleTransferReward quiet_env None (Inr payout_request) (NewManager 1 0, one_admin_net) =
     (reply 202 (TransferRewardResponse ''''), m', w') \<and> transfer_of w' '''' = Some row \<and> tr_status row = StatusQueued"
proof -
  obtain w1 where p: "persist_queued quiet_env None (Inr payout_request) one_admin_net = (Inr ('''', reward_input payout_request), w1)"
    using payout_request_stored by blast
  have "some_did CHR ''a'' \<noteq> ''''" by (simp add: some_did_def)
  then obtain m' where h: "handleTransferReward quiet_env None (Inr payout_request) (NewManager 1 0, one_admin_net) =
      (reply 202 (TransferRewardResponse ''''), m', w1)"
    unfolding handleTransferReward_def request_transfer_def split_conv p sum.case
    by (simp add: enqueue_or_fail_def Enqueue_def reward_input_def payout_request_def getOrCreate_def NewManager_def
        chan_send_def Let_def)
  from accepted_payout_is_tracked [OF h _ mgr_ok_NewManager] obtain rid row where
    "reply 202 (TransferRewardResponse '''') = reply 202 (TransferRewardResponse rid)"
    "transfer_of w1 rid = Some row" "tr_status row = StatusQueued"
    by auto
  with h show ?thesis by (auto simp: reply_def TransferRewardResponse_def)
qed

text \<open>
  Property C11: a payout request that is not accepted leaves no orphan. On a database that answers
  and without a deadline of the request, no queue has changed, every row that was there is as it
  was, and a row the request added is marked failed.
\<close>

theorem refused_payout_leaves_no_orphan:
  assumes "handleTransferReward e None body (m, w) = (rsp, m', w')" and "rsp_status rsp \<noteq> 202" and "mgr_ok m"
    and "\<And>n. env_dbfault e n = None"
  shows "queue_of m' = queue_of m \<and> (\<forall>q. transfer_of w' q = transfer_of w q \<or>
    transfer_of w q = None \<and> map_option tr_status (transfer_of w' q) = Some StatusFailed)"
  using assms(1) [unfolded handleTransferReward_def] assms(3)
proof (cases rule: request_transfer_cases)
  case (full rid req err w1)
  obtain r where u: "UpdateTransferStatus e None rid (not_enqueued_updates err) w1 = (r, w')"
    using full(7) by (metis prod.collapse)
  have "fst (UpdateTransferStatus e None rid (not_enqueued_updates err) w1) = Inr ()"
    by (rule UpdateTransferStatus_written)
      (use assms(4) full(6) in \<open>simp_all add: ctx_expired_def not_enqueued_updates_def allowed_fields_def\<close>)
  with u have r: "UpdateTransferStatus e None rid (not_enqueued_updates err) w1 = (Inr (), w')" by simp
  have st: "tr_status (apply_updates (not_enqueued_updates err) t x) = StatusFailed" for t x
    by (simp add: apply_updates_def not_enqueued_updates_def)
  have "not_enqueued_updates err \<noteq> []"
    by (simp add: not_enqueued_updates_def)
  with UpdateTransferStatus_row [OF r] full(3,5,6) show ?thesis
    by (auto simp: st)
qed (use assms(2) in \<open>auto simp: transfer_of_def\<close>)

definition full_manager :: Manager where
  "full_manager = snd (Enqueue (Some \<lparr>tj_request_id = ''earlier'', tj_input = reward_input payout_request,
     tj_enqueued_at = 0\<rparr>) (NewManager 1 0))"

lemma full_manager_ok: "mgr_ok full_manager"
proof -
  obtain r m' where run: "Enqueue (Some \<lparr>tj_request_id = ''earlier'', tj_input = reward_input payout_request,
      tj_enqueued_at = 0\<rparr>) (NewManager 1 0) = (r, m')" by fastforce
  from run mgr_ok_NewManager have "mgr_ok m'"
    by (cases rule: Enqueue_cases) (simp_all add: mgr_ok_NewManager)
  with run show ?thesis
    by (simp add: full_manager_def)
qed

theorem refused_payout_leaves_no_orphan_witness:
  "\<exists>rsp m' w'. handleTransferReward quiet_env None (Inr payout_request) (full_manager, one_admin_net) = (rsp, m', w') \<and>
     rsp_status rsp = 503 \<and> queue_of m' = queue_of full_manager \<and>
     map_option tr_status (transfer_of w' '''') \<in> {None, Some StatusFailed}"
proof -
  obtain w1 where p: "persist_queued quiet_env None (Inr payout_request) one_admin_net = (Inr ('''', reward_input payout_request), w1)"
    using payout_request_stored by blast
  have "some_did CHR ''a'' \<noteq> ''''" by (simp add: some_did_def)
  then have "rsp_status (fst (handleTransferReward quiet_env None (Inr payout_request) (full_manager, one_admin_net))) = 503"
    unfolding handleTransferReward_def request_transfer_def split_conv p sum.case
    by (simp add: enqueue_or_fail_def full_manager_def Enqueue_def reward_input_def payout_request_def getOrCreate_def
        NewManager_def chan_send_def set_queue_def Let_def reply_err_def reply_def)
  then obtain rsp m' w' where
    run: "handleTransferReward quiet_env None (Inr payout_request) (full_manager, one_admin_net) = (rsp, m', w')"
    and st: "rsp_status rsp = 503"
    by (metis fst_conv prod_cases3)
  have "transfer_of one_admin_net '''' = None"
    by (simp add: transfer_of_def empty_world_def)
  then have "map_option tr_status (transfer_of w' '''') \<in> {None, Some StatusFailed}" "queue_of m' = queue_of full_manager"
    using refused_payout_leaves_no_orphan [OF run _ full_manager_ok] st by (auto dest: spec [of _ "''''"])
  with run st show ?thesis
    by blast
qed

end
