(* ===== verification/V1Aliases.thy ===== *)
theory V1Aliases
  imports Handlers
begin

text \<open>
  \<open>internal/server/v1_aliases.go\<close>: the handlers of the original client API. They repeat the v2
  handlers' steps and shape the answer differently; the properties at the end say that the answer is
  all that differs.
\<close>

section \<open>Handlers\<close>

definition handleV1CreateDID :: "env \<Rightarrow> ctx \<Rightarrow> ('z, CreateDIDWithPubKeyRequest) handler" where
  "handleV1CreateDID e ctx0 body w =
     (case body of
        Inl msg \<Rightarrow> (reply_err 400 ''Validation failed'' msg, w)
      | Inr req \<Rightarrow>
          if cdq_admin_did req = '''' \<or> cdq_public_key req = '''' then
            (reply_err 400 ''admin_did and public_key are required'' '''', w)
          else
            let ctx = with_timeout ctx0 (w_now w) defaultHandlerTimeout in
            (case CreateDIDWithPubKey e ctx (cdq_admin_did req) (cdq_public_key req) w of
               (Inl err, w1) \<Rightarrow> (reply_err (rubixErrorStatus err) ''create did failed'' (err_text err), w1)
             | (Inr did, w1) \<Rightarrow> (reply 200 (gin_H [(''did'', JStr did)]), w1)))"

text \<open>The contract data the answer repeats, spliced into a template.\<close>

definition v1_activity_data :: "string \<Rightarrow> int \<Rightarrow> string" where
  "v1_activity_data activityID rewardPoints =
     CHR ''{'' # CHR 0x22 # ''activity_id'' @ CHR 0x22 # CHR '':'' # CHR 0x22 # activityID @
     CHR 0x22 # CHR '','' # CHR 0x22 # ''reward_points'' @ CHR 0x22 # CHR '':'' # Itoa rewardPoints @ ''}''"

definition handleV1AddActivity :: "env \<Rightarrow> ctx \<Rightarrow> ('z, AddActivityRequest) handler" where
  "handleV1AddActivity e ctx0 body w =
     (case body of
        Inl msg \<Rightarrow> (reply_err 400 ''Validation failed'' msg, w)
      | Inr req \<Rightarrow>
          if aaq_activity_id req = '''' \<or> aaq_admin_did req = '''' then
            (reply_err 400 ''activity_id and admin_did are required'' '''', w)
          else
            let ctx = with_timeout ctx0 (w_now w) defaultHandlerTimeout in
            (case AddActivity e ctx (aaq_admin_did req) (aaq_activity_id req) (aaq_reward_points req)
                (aaq_description req) w of
               (Inl err, w1) \<Rightarrow> (reply_err (rubixErrorStatus err) ''add activity failed'' (err_text err), w1)
             | (Inr (sr, _), w1) \<Rightarrow>
                 (reply 200 (gin_H
                    [(''status'', JBool True), (''message'', JStr ''Activity added successfully''),
                     (''result'', JArr [gin_H
                        [(''BlockNo'', JNull), (''BlockId'', JStr (sr_transaction_id sr)),
                         (''SmartContractData'',
                            JStr (v1_activity_data (aaq_activity_id req) (aaq_reward_points req))),
                         (''Epoch'', JNull)]])]), w1)))"

definition handleV1Payouts ::
    "env \<Rightarrow> ctx \<Rightarrow> string + TransferRewardRequest \<Rightarrow> Manager \<times> 'z networld_scheme \<Rightarrow>
       response \<times> Manager \<times> 'z networld_scheme" where
  "handleV1Payouts e ctx body s =
     (case s of (m, w) \<Rightarrow>
       (case body of
          Inl msg \<Rightarrow> (reply_err 400 ''Validation failed'' msg, m, w)
        | Inr req \<Rightarrow>
            let i = reward_input req in
            (case ValidateTransferReward (w_cfg w) i of
               Some err \<Rightarrow> (reply_err 400 ''Validation failed'' (err_text err), m, w)
             | None \<Rightarrow>
                 let (requestID, w1) = fresh_uuid e w in
                 (case CreateTransferStatus e ctx (queued_status requestID req) w1 of
                    (Inl err, w2) \<Rightarrow> (reply_err 500 ''Persistence error'' (err_text err), m, w2)
                  | (Inr _, w2) \<Rightarrow>
                      (case Enqueue (Some \<lparr>tj_request_id = requestID, tj_input = i, tj_enqueued_at = w_now w2\<rparr>) m of
                         (Inl err, m1) \<Rightarrow>
                           let w3 = snd (UpdateTransferStatus e ctx requestID (not_enqueued_updates err) w2) in
                           if errors_Is err ErrQueueFull then
                             (reply_err 503 (err_text err) ''System at capacity, please retry in a few minutes'', m1, w3)
                           else (reply_err 500 ''Enqueue error'' (err_text err), m1, w3)
                       | (Inr _, m1) \<Rightarrow>
                           (reply 202 (gin_H
                              [(''status'', JBool True),
                               (''message'', JStr ''Transfer request queued for processing''),
                               (''result'', gin_H [(''request_id'', JStr requestID)])]), m1, w2))))))"

definition v1_payout_view :: "TransferStatus \<Rightarrow> json" where
  "v1_payout_view t =
     (let created = JStr (FormatRFC3339 (ts_created_at t)); updated = JStr (FormatRFC3339 (ts_updated_at t));
          tx = JStr (ts_transaction_id t)
      in gin_H
        [(''request_id'', JStr (ts_request_id t)), (''activity_ids'', json_strings (ts_activity_ids t)),
         (''admin_did'', JStr (ts_admin_did t)), (''user_did'', JStr (ts_user_did t)),
         (''reward_points'', JInt (ts_reward_points t)), (''contract_hash'', JStr (ts_contract_hash t)),
         (''status'', JStr (ts_status t)), (''message'', JStr (ts_message t)),
         (''error_details'', JStr (ts_error_details t)), (''block_id'', tx), (''blockchain_tx_id'', tx),
         (''ft_transfer_txid'', tx), (''queued_at'', JStr ''''), (''started_at'', created),
         (''completed_at'', updated), (''created_at'', created), (''updated_at'', updated)])"

definition handleV1PayoutStatus ::
    "env \<Rightarrow> ctx \<Rightarrow> string \<Rightarrow> 'z networld_scheme \<Rightarrow> response \<times> 'z networld_scheme" where
  "handleV1PayoutStatus e ctx requestID w =
     (if requestID = '''' then (reply_err 400 ''missing request_id'' '''', w)
      else case GetTransferStatusByRequestID e ctx requestID w of
        (Inl err, w1) \<Rightarrow>
          if errors_Is err ErrNotFound then (reply_err 404 ''Transfer not found'' '''', w1)
          else (reply_err 500 ''lookup failed'' (err_text err), w1)
      | (Inr t, w1) \<Rightarrow>
          (reply 200 (gin_H
             [(''status'', JBool True), (''message'', JStr (ts_message t)), (''result'', v1_payout_view t)]), w1))"

text \<open>The filter of the list is a query parameter; a missing one is empty.\<close>

definition handleV1ActivityList ::
    "env \<Rightarrow> ctx \<Rightarrow> string \<Rightarrow> 'z networld_scheme \<Rightarrow> response \<times> 'z networld_scheme" where
  "handleV1ActivityList e ctx adminDID w =
     (case ListActivities e ctx adminDID w of
        (Inl err, w1) \<Rightarrow> (reply_err 500 ''lookup failed'' (err_text err), w1)
      | (Inr rows, w1) \<Rightarrow>
          (reply 200 (JArr (map (\<lambda>a. gin_H
             [(''activity_id'', JStr (av_activity_id a)), (''block_hash'', JStr (av_transaction_id a)),
              (''reward_points'', JInt (av_reward_points a))]) rows)), w1))"

definition v1_admin_data :: "string \<Rightarrow> string" where
  "v1_admin_data newAdminDID =
     CHR ''{'' # CHR 0x22 # ''add_admin'' @ CHR 0x22 # '': {'' @ CHR 0x22 # ''admin_did'' @ CHR 0x22 #
     CHR '':'' # CHR 0x22 # newAdminDID @ CHR 0x22 # ''}}''"

definition handleV1UserAdd :: "env \<Rightarrow> ctx \<Rightarrow> ('z, AddAdminRequest) handler" where
  "handleV1UserAdd e ctx0 body w =
     (case body of
        Inl msg \<Rightarrow> (reply_err 400 ''Validation failed'' msg, w)
      | Inr req \<Rightarrow>
          if adq_new_admin_did req = '''' \<or> adq_existing_admin_did req = '''' then
            (reply_err 400 ''new_admin_did and existing_admin_did are required'' '''', w)
          else
            let ctx = with_timeout ctx0 (w_now w) defaultHandlerTimeout in
            (case AddAdmin e ctx (adq_existing_admin_did req) (adq_new_admin_did req) w of
               (Inl err, w1) \<Rightarrow> (reply_err (rubixErrorStatus err) ''add admin failed'' (err_text err), w1)
             | (Inr (sr, _), w1) \<Rightarrow>
                 (reply 200 (gin_H
                    [(''status'', JBool True), (''message'', JStr ''Fetched latest block smart contract data''),
                     (''result'', JArr [gin_H
                        [(''BlockNo'', JNull), (''BlockId'', JStr (sr_transaction_id sr)),
                         (''SmartContractData'', JStr (v1_admin_data (adq_new_admin_did req))), (''Epoch'', JNull),
                         (''InitiatorSignature'', JNull), (''ExecutorDID'', JStr (adq_existing_admin_did req)),
                         (''InitiatorSignData'', JNull)]])]), w1)))"

definition handleV1UserPayouts ::
    "env \<Rightarrow> ctx \<Rightarrow> string \<Rightarrow> 'z networld_scheme \<Rightarrow> response \<times> 'z networld_scheme" where
  "handleV1UserPayouts e ctx userDID w =
     (if userDID = '''' then (reply_err 400 ''user_did is required'' '''', w)
      else case FTInfoForUser e ctx userDID w of
        (Inl err, w1) \<Rightarrow> (reply_err 500 ''lookup failed'' (err_text err), w1)
      | (Inr entries, w1) \<Rightarrow>
          (reply 200 (gin_H
             [(''status'', JBool True), (''message'', JStr ''Got FT info successfully''), (''result'', JNull),
              (''ft_info'', JArr (map (\<lambda>x. gin_H
                 [(''ft_name'', JStr (cfg_FTName (app_env (w_cfg w1)))), (''ft_count'', JInt (fi_total_count x)),
                  (''creator_did'', JStr (fi_creator_did x))]) entries))]), w1))"

section \<open>Properties\<close>

text \<open>Two calls that leave the same state, and answer alike unless both succeed.\<close>

definition same_work :: "response \<times> 's \<Rightarrow> response \<times> 's \<Rightarrow> bool" where
  "same_work a b \<longleftrightarrow> snd a = snd b \<and> rsp_status (fst a) = rsp_status (fst b) \<and>
     (fst a = fst b \<or> rsp_status (fst a) < 300)"

lemma same_work_refl [simp]: "same_work a a"
  by (simp add: same_work_def)

lemma same_work_replies [simp]: "st < 300 \<Longrightarrow> same_work (reply st a, s) (reply st b, s)"
  by (auto simp: same_work_def reply_def)

text \<open>The alias of the payout request, step by step, is the same flow with another answer.\<close>

definition v1_accepted :: "string \<Rightarrow> json" where
  "v1_accepted requestID = gin_H
     [(''status'', JBool True), (''message'', JStr ''Transfer request queued for processing''),
      (''result'', gin_H [(''request_id'', JStr requestID)])]"

lemma handleV1Payouts_request: "handleV1Payouts e ctx body s = request_transfer v1_accepted e ctx body s"
proof (cases s)
  case (Pair m w)
  show ?thesis
  proof (cases body)
    case (Inl msg)
    with Pair show ?thesis
      by (simp add: handleV1Payouts_def request_transfer_def persist_queued_def)
  next
    case (Inr req)
    show ?thesis
    proof (cases "ValidateTransferReward (w_cfg w) (reward_input req)")
      case None
      obtain rid w1 where f: "fresh_uuid e w = (rid, w1)" by fastforce
      obtain c w2 where c: "CreateTransferStatus e ctx (queued_status rid req) w1 = (c, w2)" by fastforce
      obtain q m1 where q: "Enqueue (Some \<lparr>tj_request_id = rid, tj_input = reward_input req, tj_enqueued_at = w_now w2\<rparr>) m = (q, m1)"
        by fastforce
      show ?thesis
        by (cases c; cases q) (simp_all add: Pair Inr None f c q Let_def handleV1Payouts_def v1_accepted_def
            request_transfer_def persist_queued_def enqueue_or_fail_def)
    qed (simp add: Pair Inr handleV1Payouts_def request_transfer_def persist_queued_def)
  qed
qed

lemma request_transfer_same_work: "same_work (request_transfer f e ctx body s) (request_transfer g e ctx body s)"
proof (cases s)
  case (Pair m w)
  obtain p w1 where p: "persist_queued e ctx body w = (p, w1)" by fastforce
  show ?thesis
  proof (cases p)
    case (Inr x)
    obtain rid i where x: "x = (rid, i)" by (cases x)
    obtain q m1 where q: "Enqueue (Some \<lparr>tj_request_id = rid, tj_input = i, tj_enqueued_at = w_now w1\<rparr>) m = (q, m1)"
      by fastforce
    show ?thesis
      by (cases q) (simp_all add: Pair p Inr x q request_transfer_def enqueue_or_fail_def Let_def)
  qed (simp add: Pair p request_transfer_def)
qed

lemma v1_payouts_same_work: "same_work (handleV1Payouts e ctx body s) (handleTransferReward e ctx body s)"
  unfolding handleV1Payouts_request handleTransferReward_def by (rule request_transfer_same_work)

lemma v1_create_did_same_work: "same_work (handleV1CreateDID e ctx body w) (handleCreateDIDWithPubKey e ctx body w)"
proof (cases body)
  case (Inr req)
  obtain r w1 where "CreateDIDWithPubKey e (with_timeout ctx (w_now w) defaultHandlerTimeout) (cdq_admin_did req)
      (cdq_public_key req) w = (r, w1)" by fastforce
  with Inr show ?thesis
    by (cases r) (simp_all add: handleV1CreateDID_def handleCreateDIDWithPubKey_def)
qed (simp add: handleV1CreateDID_def handleCreateDIDWithPubKey_def)

lemma v1_add_activity_same_work: "same_work (handleV1AddActivity e ctx body w) (handleAddActivity e ctx body w)"
proof (cases body)
  case (Inr req)
  obtain r w1 where "AddActivity e (with_timeout ctx (w_now w) defaultHandlerTimeout) (aaq_admin_did req)
      (aaq_activity_id req) (aaq_reward_points req) (aaq_description req) w = (r, w1)" by fastforce
  with Inr show ?thesis
    by (cases r) (simp_all add: handleV1AddActivity_def handleAddActivity_def case_prod_beta)
qed (simp add: handleV1AddActivity_def handleAddActivity_def)

lemma v1_user_add_same_work: "same_work (handleV1UserAdd e ctx body w) (handleAddAdmin e ctx body w)"
proof (cases body)
  case (Inr req)
  obtain r w1 where "AddAdmin e (with_timeout ctx (w_now w) defaultHandlerTimeout) (adq_existing_admin_did req)
      (adq_new_admin_did req) w = (r, w1)" by fastforce
  with Inr show ?thesis
    by (cases r) (simp_all add: handleV1UserAdd_def handleAddAdmin_def case_prod_beta)
qed (simp add: handleV1UserAdd_def handleAddAdmin_def)

text \<open>
  Property C20: the original API does the same work. A payout, a DID, an activity or an admin asked
  through \<open>/admin/payouts\<close>, \<open>/createdid\<close>, \<open>/admin/activity/add\<close> or \<open>/admin/user/add\<close> leaves the same queues
  and the same world as through its v2 route, is answered with the same status, and with the same
  body unless it succeeds.
\<close>

theorem v1_aliases_same_work:
  "same_work (handleV1Payouts e ctx p s) (handleTransferReward e ctx p s) \<and>
   same_work (handleV1CreateDID e ctx d w) (handleCreateDIDWithPubKey e ctx d w) \<and>
   same_work (handleV1AddActivity e ctx a w) (handleAddActivity e ctx a w) \<and>
   same_work (handleV1UserAdd e ctx u w) (handleAddAdmin e ctx u w)"
  using v1_payouts_same_work v1_create_did_same_work v1_add_activity_same_work v1_user_add_same_work by blast

lemma activity_key_plain: "json_escape ''activity_id'' = ''activity_id''" "json_escape ''reward_points'' = ''reward_points''"
  by (rule json_escape_plain, force simp: json_plain_def byte_def)+

text \<open>
  The contract data in the alias' answer is the JSON text of the activity exactly when
  JSON would write the activity's id as it is: an id with a quotation mark, which nothing refuses,
  makes the text a different value or no value.
\<close>

lemma v1_activity_data_json_iff:
  "v1_activity_data aid pts = json_text (JObj [(''activity_id'', JStr aid), (''reward_points'', JInt pts)]) \<longleftrightarrow>
   json_escape aid = aid"
  by (auto simp: v1_activity_data_def json_string_def activity_key_plain JInt_def)

end
