(* ===== verification/AdminsApi.thy ===== *)
theory AdminsApi
  imports Handlers
begin

text \<open>
  \<open>internal/server/admins_handler.go\<close>: provisioning admins on their nodes. The operating system's
  answers to \<open>MkdirAll\<close> and \<open>WriteFile\<close> are the record \<open>os_env\<close> (an error's text, if any); the
  files written are the world's \<open>w_files\<close>, by their cleaned path.
\<close>

section \<open>Data\<close>

definition didsDir :: string where
  "didsDir = ''./dids''"

definition defaultAdminPassword :: string where
  "defaultAdminPassword = ''mypassword''"

record SetupAdminEntry =
  se_node_port :: string
  se_password :: string

record SetupAdminResult =
  sa_node_port :: string
  sa_did :: string
  sa_success :: bool
  sa_error :: string

definition setup_result_json :: "SetupAdminResult \<Rightarrow> json" where
  "setup_result_json r =
     JObj ([(''node_port'', JStr (sa_node_port r))] @ omit_if (sa_did r = '''') ''did'' (JStr (sa_did r)) @
       [(''success'', JBool (sa_success r))] @ omit_if (sa_error r = '''') ''error'' (JStr (sa_error r)))"

definition SetupAdminsResponse :: "SetupAdminResult list \<Rightarrow> int \<Rightarrow> int \<Rightarrow> int \<Rightarrow> json" where
  "SetupAdminsResponse results requested created failed =
     JObj [(''status'', JBool True),
           (''data'', JObj [(''admins'', JArr (map setup_result_json results)),
             (''summary'', JObj [(''requested'', JInt requested), (''created'', JInt created), (''failed'', JInt failed)])])]"

record os_env =
  os_mkdir :: "string \<Rightarrow> string option"
  os_write :: "string \<Rightarrow> string option"

section \<open>Files\<close>

text \<open>\<open>filepath.Join\<close> of relative parts.\<close>

fun clean_elems :: "string list \<Rightarrow> string list \<Rightarrow> string list" where
  "clean_elems acc [] = rev acc"
| "clean_elems acc (x # xs) =
     (if x = '''' \<or> x = ''.'' then clean_elems acc xs
      else if x = ''..'' \<and> acc \<noteq> [] \<and> hd acc \<noteq> ''..'' then clean_elems (tl acc) xs
      else clean_elems (x # acc) xs)"

definition Join_relative :: "string list \<Rightarrow> string" where
  "Join_relative parts =
     (let es = clean_elems [] (concat (map (Split (CHR ''/'')) parts))
      in if es = [] then ''.'' else Join (CHR ''/'') es)"

text \<open>\<open>json.MarshalIndent(v, "", "  ")\<close> of a struct of strings.\<close>

fun indent_fields :: "(string \<times> string) list \<Rightarrow> string" where
  "indent_fields [] = ''''"
| "indent_fields [(k, v)] = ''  '' @ json_string k @ '': '' @ json_string v @ [CHR 0x0A]"
| "indent_fields ((k, v) # kvs) = ''  '' @ json_string k @ '': '' @ json_string v @ [CHR '','', CHR 0x0A] @ indent_fields kvs"

definition MarshalIndent :: "(string \<times> string) list \<Rightarrow> string" where
  "MarshalIndent kvs = [CHR ''{'', CHR 0x0A] @ indent_fields kvs @ ''}''"

definition didFile :: "string \<Rightarrow> string \<Rightarrow> string \<Rightarrow> instant \<Rightarrow> (string \<times> string) list" where
  "didFile did nodePort password now =
     [(''did'', did), (''node_host'', NodeHost), (''node_port'', nodePort), (''password'', password),
      (''created_at'', FormatRFC3339 now)]"

definition writeDIDFile ::
    "os_env \<Rightarrow> string \<Rightarrow> string \<Rightarrow> string \<Rightarrow> ('z, unit) netaction" where
  "writeDIDFile os did nodePort password w =
     (let path = Join_relative [didsDir, did @ ''.json''] in
      case os_write os path of
        Some msg \<Rightarrow> (Inl (Plain msg), w)
      | None \<Rightarrow>
          (Inr (), w\<lparr>w_files := AList.update path (MarshalIndent (didFile did nodePort password (w_now w))) (w_files w)\<rparr>))"

section \<open>Provisioning\<close>

text \<open>Announcing the DID is best effort: its errors are logged only.\<close>

definition announce_did ::
    "env \<Rightarrow> ctx \<Rightarrow> Client \<Rightarrow> string \<Rightarrow> string \<Rightarrow> 'z networld_scheme \<Rightarrow> 'z networld_scheme" where
  "announce_did e ctx c did password w =
     (case RegisterDID e ctx c did w of
        (Inl _, w1) \<Rightarrow> w1
      | (Inr reqID, w1) \<Rightarrow> snd (Sign e ctx c reqID password w1))"

definition provisionOne ::
    "env \<Rightarrow> os_env \<Rightarrow> ctx \<Rightarrow> string \<Rightarrow> string \<Rightarrow> ('z, string) netaction" where
  "provisionOne e os ctx nodePort password w =
     (let baseURL = NodeHost @ '':'' @ nodePort in
      case ForBaseURL baseURL w of
        (Inl err, w1) \<Rightarrow> (Inl (wrap ''rubix client: '' err), w1)
      | (Inr c, w1) \<Rightarrow>
          (case CreateDID e ctx c
              \<lparr>cd_password = password, cd_public_key = '''', cd_private_key = '''', cd_mnemonic = '''',
               cd_child_path = 0\<rparr> w1 of
             (Inl err, w2) \<Rightarrow> (Inl (wrap (''create DID on '' @ baseURL @ '': '') err), w2)
           | (Inr res, w2) \<Rightarrow>
               if cr_did res = '''' then (Inl (Plain ''rubix returned empty DID''), w2)
               else
                 let w3 = announce_did e ctx c (cr_did res) password w2 in
                 (case CreateAdmin e ctx
                     \<lparr>ad_did = cr_did res, ad_node_port = nodePort, ad_password = password, ad_created_at = 0\<rparr> w3 of
                    (Inl err, w4) \<Rightarrow> (Inl (wrap ''persist admin: '' err), w4)
                  | (Inr _, w4) \<Rightarrow>
                      (case writeDIDFile os (cr_did res) nodePort password w4 of
                         (Inl err, w5) \<Rightarrow> (Inl (wrap ''did persisted but file write failed: '' err), w5)
                       | (Inr _, w5) \<Rightarrow> (Inr (cr_did res), w5)))))"

definition setup_one ::
    "env \<Rightarrow> os_env \<Rightarrow> ctx \<Rightarrow> SetupAdminEntry \<Rightarrow> 'z networld_scheme \<Rightarrow> SetupAdminResult \<times> 'z networld_scheme" where
  "setup_one e os ctx entry w =
     (let r = \<lparr>sa_node_port = se_node_port entry, sa_did = '''', sa_success = False, sa_error = ''''\<rparr> in
      if se_node_port entry = '''' then (r\<lparr>sa_error := ''node_port is required''\<rparr>, w)
      else
        let password = (if se_password entry = '''' then defaultAdminPassword else se_password entry) in
        (case provisionOne e os ctx (se_node_port entry) password w of
           (Inl err, w1) \<Rightarrow> (r\<lparr>sa_error := err_text err\<rparr>, w1)
         | (Inr did, w1) \<Rightarrow> (r\<lparr>sa_did := did, sa_success := True\<rparr>, w1)))"

fun setup_all ::
    "env \<Rightarrow> os_env \<Rightarrow> ctx \<Rightarrow> SetupAdminEntry list \<Rightarrow> 'z networld_scheme \<Rightarrow> SetupAdminResult list \<times> 'z networld_scheme" where
  "setup_all e os ctx [] w = ([], w)"
| "setup_all e os ctx (x # xs) w =
     (let (r, w1) = setup_one e os ctx x w; (rs, w2) = setup_all e os ctx xs w1 in (r # rs, w2))"

definition handleSetupAdmins :: "env \<Rightarrow> os_env \<Rightarrow> ctx \<Rightarrow> ('z, SetupAdminEntry list) handler" where
  "handleSetupAdmins e os ctx0 body w =
     (case body of
        Inl msg \<Rightarrow> (reply_err 400 ''Validation failed'' msg, w)
      | Inr admins \<Rightarrow>
          if admins = [] then (reply_err 400 ''admins list is required and must be non-empty'' '''', w)
          else
            let ctx = with_timeout ctx0 (w_now w) (5 * minute) in
            (case os_mkdir os didsDir of
               Some msg \<Rightarrow> (reply_err 500 ''dids directory'' msg, w)
             | None \<Rightarrow>
                 let (results, w1) = setup_all e os ctx admins w;
                     created = int (length (filter sa_success results));
                     failed = int (length (filter (\<lambda>r. \<not> sa_success r) results)) in
                 (case ReloadAdmins e ctx w1 of
                    (Inl err, w2) \<Rightarrow> (reply_err 500 ''reload admins'' (err_text err), w2)
                  | (Inr _, w2) \<Rightarrow>
                      (reply 200 (SetupAdminsResponse results (int (length admins)) created failed), w2))))"

section \<open>What provisioning leaves behind\<close>

lemma CreateDID_pool: "CreateDID e ctx c req w = (r, w') \<Longrightarrow> w_pool w' = w_pool w"
  by (auto simp: CreateDID_def postJSON_def Let_def dest: do_request_pool
      split: prod.splits sum.splits option.splits list.splits if_splits)

lemma RegisterDID_pool: "RegisterDID e ctx c did w = (r, w') \<Longrightarrow> w_pool w' = w_pool w"
  by (auto simp: RegisterDID_def postJSON_def dest: do_request_pool
      split: prod.splits sum.splits option.splits if_splits)

lemma announce_did_quiet:
  assumes "0 < cl_timeout c"
  shows "quiet w (announce_did e ctx c did p w) \<and> w_pool (announce_did e ctx c did p w) = w_pool w"
proof -
  obtain r w1 where r: "RegisterDID e ctx c did w = (r, w1)" by fastforce
  show ?thesis
  proof (cases r)
    case (Inl err)
    with r RegisterDID_quiet [OF r assms] RegisterDID_pool [OF r] show ?thesis by (simp add: announce_did_def)
  next
    case (Inr rid)
    obtain s w2 where s: "Sign e ctx c rid p w1 = (s, w2)" by fastforce
    with r Inr quiet_trans [OF RegisterDID_quiet [OF r assms] Sign_quiet [OF s assms]] RegisterDID_pool [OF r] Sign_pool [OF s]
    show ?thesis by (simp add: announce_did_def)
  qed
qed

text \<open>Provisioning only adds: admins are appended, files are written, nothing is removed.\<close>

definition grown :: "'z networld_scheme \<Rightarrow> 'z networld_scheme \<Rightarrow> bool" where
  "grown w w' \<longleftrightarrow>
     prefix (t_admins (w_db w)) (t_admins (w_db w')) \<and> dom (map_of (w_files w)) \<subseteq> dom (map_of (w_files w')) \<and>
     (registry_ok w \<longrightarrow> registry_ok w') \<and> (pool_ok w \<longrightarrow> pool_ok w')"

lemma grown_refl [simp]: "grown w w"
  by (simp add: grown_def)

lemma grown_trans [trans]: "grown u v \<Longrightarrow> grown v w \<Longrightarrow> grown u w"
  unfolding grown_def by (meson prefix_order.trans subset_trans)

lemma quiet_grown: "quiet w w' \<Longrightarrow> w_pool w' = w_pool w \<Longrightarrow> grown w w'"
  by (auto simp: grown_def pool_ok_def dest: quietD quiet_views(5))

lemma CreateAdmin_grown:
  assumes "CreateAdmin e ctx a w = (r, w')"
  shows "grown w (w' :: 'z networld_scheme)" and "r = Inr () \<Longrightarrow> \<exists>row \<in> set (t_admins (w_db w')).
     ad_did row = ad_did a \<and> ad_node_port row = ad_node_port a \<and> ad_password row = ad_password a"
    and "w_files w' = w_files w"
proof -
  obtain q w1 where q: "db_stmt e ctx w = (q, w1)" by fastforce
  note fr = db_stmtD [OF q] and more_fields [OF db_stmtD(3) [OF q]]
  with assms q show "grown w w'"
    by (auto simp: CreateAdmin_def grown_def Let_def registry_ok_def pool_ok_def set_admins_def
        split: sum.splits if_splits)
  from fr more_fields [OF db_stmtD(3) [OF q]] assms q
  show "r = Inr () \<Longrightarrow> \<exists>row \<in> set (t_admins (w_db w')).
     ad_did row = ad_did a \<and> ad_node_port row = ad_node_port a \<and> ad_password row = ad_password a"
    and "w_files w' = w_files w"
    by (auto simp: CreateAdmin_def Let_def set_admins_def split: sum.splits if_splits)
qed

lemma writeDIDFile_grown:
  assumes "writeDIDFile os did port p w = (r, w')"
  shows "grown w w'" and "w_db w' = w_db w"
    and "r = Inr () \<Longrightarrow> map_of (w_files w') (Join_relative [didsDir, did @ ''.json'']) \<noteq> None"
  using assms by (auto simp: writeDIDFile_def grown_def registry_ok_def pool_ok_def Let_def update_conv' split: option.splits)

definition provisioned :: "'z networld_scheme \<Rightarrow> string \<Rightarrow> string \<Rightarrow> string \<Rightarrow> bool" where
  "provisioned w did port password \<longleftrightarrow>
     (\<exists>row \<in> set (t_admins (w_db w)). ad_did row = did \<and> ad_node_port row = port \<and> ad_password row = password) \<and>
     map_of (w_files w) (Join_relative [didsDir, did @ ''.json'']) \<noteq> None"

lemma provisioned_grown: "provisioned w did port p \<Longrightarrow> grown w w' \<Longrightarrow> provisioned w' did port p"
  by (auto simp: provisioned_def grown_def prefix_def)

lemma provisionOne_grown:
  assumes run: "provisionOne e os ctx port p w = (r, w')" and ok: "pool_ok w"
  shows "grown w w' \<and> (\<forall>did. r = Inr did \<longrightarrow> provisioned w' did port p)"
proof -
  let ?base = "NodeHost @ '':'' @ port"
  obtain q0 w1 where f: "ForBaseURL ?base w = (q0, w1)" by fastforce
  note fb = ForBaseURL_ok [OF f ok]
  let ?c = "NewClient ?base (w_pool_timeout w)"
  have q0: "q0 = Inr ?c" using fb(5) by (auto simp: NodeHost_def)
  have g1: "grown w w1" using fb(1) quietD [OF fb(2)] quiet_views(5) [OF fb(2)] by (simp add: grown_def)
  have t: "0 < cl_timeout ?c" by simp
  obtain q1 w2 where c: "CreateDID e ctx ?c \<lparr>cd_password = p, cd_public_key = '''', cd_private_key = '''',
      cd_mnemonic = '''', cd_child_path = 0\<rparr> w1 = (q1, w2)" by fastforce
  have g2: "grown w w2" using g1 quiet_grown [OF CreateDID_quiet [OF c t] CreateDID_pool [OF c]] by (rule grown_trans)
  show ?thesis
  proof (cases q1)
    case (Inl err)
    with run f q0 c g2 show ?thesis by (auto simp: provisionOne_def Let_def)
  next
    case (Inr res)
    let ?did = "cr_did res"
    let ?w3 = "announce_did e ctx ?c ?did p w2"
    have g3: "grown w ?w3"
      using announce_did_quiet [OF t, of w2 e ctx ?did p] quiet_grown g2 grown_trans by blast
    obtain q4 w4 where a: "CreateAdmin e ctx \<lparr>ad_did = ?did, ad_node_port = port, ad_password = p, ad_created_at = 0\<rparr> ?w3 = (q4, w4)"
      by fastforce
    note ca = CreateAdmin_grown [OF a]
    obtain q5 w5 where d: "writeDIDFile os ?did port p w4 = (q5, w5)" by fastforce
    note wd = writeDIDFile_grown [OF d]
    have ne: "?did \<noteq> ''''" using CreateDID_ok [OF c [unfolded Inr]] .
    have g4: "grown w w4" and g5: "grown w w5"
      using g3 ca(1) wd(1) grown_trans by blast+
    show ?thesis
    proof (cases q4)
      case (Inl err)
      with run f q0 c Inr ne a g4 show ?thesis by (auto simp: provisionOne_def Let_def)
    next
      case (Inr u)
      with run f q0 c \<open>q1 = Inr res\<close> ne a d have "r = (case q5 of Inl err \<Rightarrow>
          Inl (wrap ''did persisted but file write failed: '' err) | Inr _ \<Rightarrow> Inr ?did) \<and> w' = w5"
        by (auto simp: provisionOne_def Let_def split: sum.splits)
      with g5 ca(2) wd(2,3) Inr show ?thesis
        by (auto simp: provisioned_def split: sum.splits)
    qed
  qed
qed

lemma setup_all_grown:
  assumes "setup_all e os ctx xs w = (rs, w')" and "pool_ok w"
  shows "grown w w' \<and> length rs = length xs \<and>
    (\<forall>r \<in> set rs. sa_success r \<longrightarrow> (\<exists>p. p \<noteq> '''' \<and> provisioned w' (sa_did r) (sa_node_port r) p))"
  using assms
proof (induction xs arbitrary: rs w)
  case (Cons x xs)
  let ?p = "if se_password x = '''' then defaultAdminPassword else se_password x"
  obtain r w1 where one: "setup_one e os ctx x w = (r, w1)" by fastforce
  obtain rs' where rs: "setup_all e os ctx xs w1 = (rs', w')" "rs = r # rs'"
    using Cons.prems(1) one by (auto split: prod.splits)
  have "?p \<noteq> ''''" by (simp add: defaultAdminPassword_def)
  have g: "grown w w1 \<and> (sa_success r \<longrightarrow> provisioned w1 (sa_did r) (sa_node_port r) ?p)"
  proof (cases "se_node_port x = ''''")
    case True
    with one show ?thesis by (auto simp: setup_one_def Let_def)
  next
    case False
    obtain q w2 where pr: "provisionOne e os ctx (se_node_port x) ?p w = (q, w2)" by fastforce
    from provisionOne_grown [OF pr Cons.prems(2)] one False pr show ?thesis
      by (auto simp: setup_one_def Let_def split: sum.splits)
  qed
  with Cons.prems(2) have "pool_ok w1" by (simp add: grown_def)
  note ih = Cons.IH [OF rs(1) this]
  with g rs(2) \<open>?p \<noteq> ''''\<close> show ?case
    by (auto intro: grown_trans provisioned_grown)
qed auto

lemma ReloadAdmins_frame:
  assumes "ReloadAdmins e ctx w = (r, w')"
  shows "w_files w' = w_files (w :: 'z networld_scheme) \<and> w_sent w' = w_sent w \<and> w_pool w' = w_pool w"
proof -
  obtain q w1 where q: "ListAdmins e ctx w = (q, w1)" by fastforce
  obtain s w2 where s: "db_stmt e ctx w = (s, w2)" by fastforce
  have "w1 = w2"
    using q s by (auto simp: ListAdmins_def split: sum.splits)
  then have "w_files w1 = w_files w \<and> w_sent w1 = w_sent w \<and> w_pool w1 = w_pool w"
    using more_fields [OF db_stmtD(3) [OF s]] by simp
  with assms q show ?thesis
    by (auto simp: ReloadAdmins_def split: sum.splits)
qed

section \<open>Property\<close>

text \<open>
  Property C25: an admin that \<open>/api/admins/setup\<close> reports as created can be used at once: when it
  answers 200 there is one result per entry, the summary counts them, and every successful result's
  DID is in the reloaded configuration with the entry's port and a password, and has its file.
\<close>

theorem provisioned_admins_are_usable:
  assumes "handleSetupAdmins e os ctx (Inr admins) w = (rsp, w')" and "rsp_status rsp = 200"
    and "registry_ok w" and "pool_ok w"
  shows "let rs = fst (setup_all e os (with_timeout ctx (w_now w) (5 * minute)) admins w);
             n = int (length admins); c = int (length (filter sa_success rs))
    in rsp = reply 200 (SetupAdminsResponse rs n c (n - c)) \<and> length rs = length admins \<and>
      (\<forall>r \<in> set (filter sa_success rs). \<exists>a. AdminByDID (w_cfg w') (sa_did r) = Some a \<and> ac_did a = sa_did r \<and>
         ac_node_port a = sa_node_port r \<and> ac_password a \<noteq> '''' \<and>
         map_of (w_files w') (Join_relative [didsDir, sa_did r @ ''.json'']) \<noteq> None)"
proof -
  obtain rs w1 where s: "setup_all e os (with_timeout ctx (w_now w) (5 * minute)) admins w = (rs, w1)" by fastforce
  note g = setup_all_grown [OF s assms(4)]
  obtain q w2 where q: "ReloadAdmins e (with_timeout ctx (w_now w) (5 * minute)) w1 = (q, w2)" by fastforce
  from assms(1,2) s q have rsp: "rsp = reply 200 (SetupAdminsResponse rs (int (length admins))
      (int (length (filter sa_success rs))) (int (length (filter (\<lambda>r. \<not> sa_success r) rs))))"
    and q': "q = Inr ()" "w' = w2"
    by (auto simp: handleSetupAdmins_def Let_def split: if_splits option.splits sum.splits)
  have reg: "registry_ok w1" using g assms(3) by (simp add: grown_def)
  note view = ReloadAdmins_view [OF q [unfolded q'] reg]
  have files: "w_files w2 = w_files w1"
    using ReloadAdmins_frame [OF q] by blast
  have "\<exists>a. AdminByDID (w_cfg w') (sa_did r) = Some a \<and> ac_did a = sa_did r \<and> ac_node_port a = sa_node_port r \<and>
      ac_password a \<noteq> '''' \<and> map_of (w_files w') (Join_relative [didsDir, sa_did r @ ''.json'']) \<noteq> None"
    if "r \<in> set (filter sa_success rs)" for r
  proof -
    from that g obtain p where p: "p \<noteq> ''''" "provisioned w1 (sa_did r) (sa_node_port r) p" by auto
    then obtain row where row: "row \<in> set (t_admins (w_db w1))" "ad_did row = sa_did r" "ad_node_port row = sa_node_port r"
        "ad_password row = p" by (auto simp: provisioned_def)
    have "row_of ad_did (ad_did row) (t_admins (w_db w1)) = Some row"
      using reg row(1) by (intro row_of_unique) (simp_all add: registry_ok_def)
    with view(1) [of "sa_did r"] row p q'(2) files show ?thesis by (simp add: provisioned_def)
  qed
  moreover have "int (length (filter (\<lambda>r. \<not> sa_success r) rs)) = int (length admins) - int (length (filter sa_success rs))"
    using g sum_length_filter_compl [of sa_success rs] by simp
  ultimately show ?thesis
    using rsp g s by (simp add: Let_def)
qed

text \<open>A node that makes the DID and then no longer answers: the announcement fails, which is only logged.\<close>

definition did_node_env :: env where
  "did_node_env = quiet_env\<lparr>env_http := \<lambda>h. (0, if length h = 1
     then Response 200 (node_answer (JObj [(''did'', JStr ''bafy'')]))
     else TransportFailure ''gone'')\<rparr>"

definition willing_os :: os_env where
  "willing_os = \<lparr>os_mkdir = \<lambda>_. None, os_write = \<lambda>_. None\<rparr>"

lemma sample_net_tables [simp]:
  "w_db sample_net = w_db empty_world" "w_pool sample_net = []" "w_files sample_net = []" "w_pool_timeout sample_net = 9"
  "w_dbops sample_net = 0"
  by (simp_all add: sample_net_def dbworld.defs empty_world_def)

lemma did_node_call:
  "\<not> ctx_expired ctx (w_now w) \<Longrightarrow> w_sent w = [] \<Longrightarrow> 0 < cl_timeout c \<Longrightarrow>
     do_request did_node_env ctx c req p w =
       (Inr \<lparr>br_status = True, br_message = '''', br_result = Some (JObj [(''did'', JStr ''bafy'')])\<rparr>, w\<lparr>w_sent := [req]\<rparr>)"
  by (auto simp: do_request_def did_node_env_def node_answer_read call_limit_def ctx_expired_def Let_def split: option.splits)

lemma did_node_CreateDID:
  "\<not> ctx_expired ctx (w_now w) \<Longrightarrow> w_sent w = [] \<Longrightarrow> 0 < cl_timeout c \<Longrightarrow>
     \<exists>req. CreateDID did_node_env ctx c r w = (Inr \<lparr>cr_did = ''bafy'', cr_peer_id = ''''\<rparr>, w\<lparr>w_sent := [req]\<rparr>)"
  by (auto simp: CreateDID_def postJSON_def did_node_call unmarshal_strings_def read_strings_def fold_key_def
      fold_byte_def byte_def)

lemma did_node_announce:
  "\<not> ctx_expired ctx (w_now w) \<Longrightarrow> w_sent w = [q] \<Longrightarrow> 0 < cl_timeout c \<Longrightarrow>
     \<exists>qs. announce_did did_node_env ctx c ''bafy'' p w = w\<lparr>w_sent := qs\<rparr>"
  by (auto simp: announce_did_def RegisterDID_def postJSON_def do_request_def did_node_env_def call_limit_def
      ctx_expired_def Let_def split: option.splits)

lemma did_node_provision:
  assumes "\<not> ctx_expired ctx 7000"
  shows "\<exists>w'. provisionOne did_node_env willing_os ctx ''1'' p sample_net = (Inr ''bafy'', w') \<and> w_now w' = 7001 \<and> w_dbops w' = 1"
proof -
  let ?w = "sample_net\<lparr>w_pool := [(NodeHost @ '':1'', NewClient (NodeHost @ '':1'') 9)]\<rparr>"
  have f: "ForBaseURL (NodeHost @ '':1'') sample_net = (Inr (NewClient (NodeHost @ '':1'') 9), ?w)"
    by (simp add: ForBaseURL_def NodeHost_def Let_def)
  obtain req where c: "CreateDID did_node_env ctx (NewClient (NodeHost @ '':1'') 9) \<lparr>cd_password = p, cd_public_key = '''',
      cd_private_key = '''', cd_mnemonic = '''', cd_child_path = 0\<rparr> ?w = (Inr \<lparr>cr_did = ''bafy'', cr_peer_id = ''''\<rparr>, ?w\<lparr>w_sent := [req]\<rparr>)"
    using did_node_CreateDID [of ctx ?w "NewClient (NodeHost @ '':1'') 9"] assms by auto
  obtain qs where a: "announce_did did_node_env ctx (NewClient (NodeHost @ '':1'') 9) ''bafy'' p (?w\<lparr>w_sent := [req]\<rparr>)
      = ?w\<lparr>w_sent := qs\<rparr>"
    using did_node_announce [of ctx "?w\<lparr>w_sent := [req]\<rparr>" req "NewClient (NodeHost @ '':1'') 9"] assms by auto
  have d: "env_dbfault did_node_env n = None" "env_dblatency did_node_env n = 1" for n
    by (simp_all add: did_node_env_def)
  show ?thesis
    using assms
    by (simp add: provisionOne_def f c a CreateAdmin_def db_stmt_def d Let_def writeDIDFile_def willing_os_def
        set_admins_def empty_world_def)
qed

lemma willing_os_mkdir: "os_mkdir willing_os d = None"
  by (simp add: willing_os_def)

theorem provisioned_admins_are_usable_witness:
  "\<exists>w' r. handleSetupAdmins did_node_env willing_os None (Inr [\<lparr>se_node_port = ''1'', se_password = ''''\<rparr>]) sample_net =
     (reply 200 (SetupAdminsResponse [r] 1 1 0), w') \<and> sa_did r = ''bafy'' \<and> AdminByDID (w_cfg w') ''bafy'' \<noteq> None"
proof -
  let ?ctx = "with_timeout None 7000 (5 * minute)" and ?r = "\<lparr>sa_node_port = ''1'', sa_did = ''bafy'', sa_success = True, sa_error = ''''\<rparr>"
  have live: "\<not> ctx_expired ?ctx t" if "t \<le> 7100" for t
    using that by (simp add: with_timeout_def ctx_expired_def minute_def second_def)
  obtain w1 where p: "provisionOne did_node_env willing_os ?ctx ''1'' defaultAdminPassword sample_net = (Inr ''bafy'', w1)"
    and now: "w_now w1 = 7001" "w_dbops w1 = 1"
    using did_node_provision [OF live] by force
  have d: "env_dbfault did_node_env n = None" "env_dblatency did_node_env n = 1" for n
    by (simp_all add: did_node_env_def)
  obtain w2 where w2: "ReloadAdmins did_node_env ?ctx w1 = (Inr (), w2)"
    by (simp add: ReloadAdmins_def ListAdmins_def db_stmt_def d now live Let_def)
  have one: "setup_one did_node_env willing_os ?ctx \<lparr>se_node_port = ''1'', se_password = ''''\<rparr> sample_net = (?r, w1)"
    by (simp add: setup_one_def p)
  have h: "handleSetupAdmins did_node_env willing_os None (Inr [\<lparr>se_node_port = ''1'', se_password = ''''\<rparr>]) sample_net =
     (reply 200 (SetupAdminsResponse [?r] 1 1 0), w2)"
    by (simp add: handleSetupAdmins_def one w2 Let_def willing_os_mkdir)
  have "registry_ok sample_net" "pool_ok sample_net"
    by (simp_all add: registry_ok_def pool_ok_def empty_world_def)
  from provisioned_admins_are_usable [OF h _ this] have "AdminByDID (w_cfg w2) ''bafy'' \<noteq> None"
    by (auto simp: one Let_def)
  with h show ?thesis
    by (intro exI [of _ w2] exI [of _ ?r]) simp
qed

end
