(* ===== verification/Diagnostics.thy ===== *)
theory Diagnostics
  imports Registry Transfers "HOL-Library.Product_Lexorder"
begin

text \<open>
  The read-only queries of \<open>internal/database/queries.go\<close> behind \<open>/api/debug\<close>. Text is ordered
  byte by byte (the C collation). A timestamp parameter is sent with the precision of the column.
  A row of a result that has NULL where the Go struct has a string is a scan error.
\<close>

definition mismatchNeedle :: string where
  "mismatchNeedle = ''chain mismatch''"

text \<open>\<open>error_details LIKE '%chain mismatch%'\<close>; not true of NULL.\<close>

definition is_mismatch :: "transfer_row \<Rightarrow> bool" where
  "is_mismatch r \<longleftrightarrow>
     tr_status r = StatusFailed \<and>
     (case tr_error_details r of None \<Rightarrow> False | Some d \<Rightarrow> Contains d mismatchNeedle)"

definition opt_eq :: "string option \<Rightarrow> string \<Rightarrow> bool" where
  "opt_eq x s \<longleftrightarrow> x = Some s"

definition min_of :: "instant list \<Rightarrow> instant option" where
  "min_of xs = (case xs of [] \<Rightarrow> None | x # r \<Rightarrow> Some (fold min r x))"

definition max_of :: "instant list \<Rightarrow> instant option" where
  "max_of xs = (case xs of [] \<Rightarrow> None | x # r \<Rightarrow> Some (fold max r x))"

definition scan_null :: "string \<Rightarrow> goerr" where
  "scan_null query = wrap (query @ '' scan: '') (Plain ''cannot scan NULL into *string'')"

text \<open>\<open>LEFT JOIN admins\<close> and \<open>ORDER BY node_port NULLS LAST\<close>.\<close>

definition port_of :: "Admin list \<Rightarrow> string option \<Rightarrow> string option" where
  "port_of admins did = Option.bind did (\<lambda>d. map_option ad_node_port (row_of ad_did d admins))"

definition nulls_last :: "string option \<Rightarrow> nat \<times> string" where
  "nulls_last x = (case x of Some s \<Rightarrow> (0, s) | None \<Rightarrow> (1, ''''))"

section \<open>Summary\<close>

record PayoutSummaryRow =
  ps_admin_did :: string
  ps_node_port :: string
  ps_total :: int
  ps_success :: int
  ps_failed :: int
  ps_mismatch :: int
  ps_in_flight :: int
  ps_first_mismatch :: "instant option"
  ps_last_mismatch :: "instant option"
  ps_last_success :: "instant option"
  ps_last_success_tx :: string

definition in_window :: "instant \<Rightarrow> string \<Rightarrow> transfer_row \<Rightarrow> bool" where
  "in_window since adminDID r \<longleftrightarrow>
     tr_kind r = KindReward \<and> pg_time since \<le> tr_created_at r \<and> (adminDID = '''' \<or> opt_eq (tr_admin_did r) adminDID)"

definition count_rows :: "(transfer_row \<Rightarrow> bool) \<Rightarrow> transfer_row list \<Rightarrow> int" where
  "count_rows P rows = int (length (filter P rows))"

definition last_success_tx :: "transfer_row list \<Rightarrow> string \<Rightarrow> string" where
  "last_success_tx rows did =
     (case newest_first (filter (\<lambda>r. opt_eq (tr_admin_did r) did \<and> tr_kind r = KindReward \<and> tr_status r = StatusSuccess) rows) of
        [] \<Rightarrow> '''' | r # _ \<Rightarrow> COALESCE (tr_transaction_id r) '''')"

text \<open>One group: the window's rows \<open>g\<close> of the admin, \<open>all\<close> the whole table.\<close>

definition summary_row :: "Admin list \<Rightarrow> transfer_row list \<Rightarrow> transfer_row list \<Rightarrow> string \<Rightarrow> PayoutSummaryRow" where
  "summary_row admins all g did =
     \<lparr>ps_admin_did = did, ps_node_port = COALESCE (port_of admins (Some did)) '''',
      ps_total = int (length g),
      ps_success = count_rows (\<lambda>r. tr_status r = StatusSuccess) g,
      ps_failed = count_rows (\<lambda>r. tr_status r = StatusFailed) g,
      ps_mismatch = count_rows is_mismatch g,
      ps_in_flight = count_rows (\<lambda>r. tr_status r \<in> {StatusQueued, StatusProcessing}) g,
      ps_first_mismatch = min_of (map tr_created_at (filter is_mismatch g)),
      ps_last_mismatch = max_of (map tr_created_at (filter is_mismatch g)),
      ps_last_success = max_of (map tr_created_at (filter (\<lambda>r. tr_status r = StatusSuccess) g)),
      ps_last_success_tx = last_success_tx all did\<rparr>"

definition summary_admins :: "Admin list \<Rightarrow> transfer_row list \<Rightarrow> string option list" where
  "summary_admins admins rows =
     sort_key (\<lambda>d. (nulls_last (port_of admins d), nulls_last d)) (remdups (map tr_admin_did rows))"

definition PayoutSummary :: "env \<Rightarrow> ctx \<Rightarrow> instant \<Rightarrow> string \<Rightarrow> ('z, PayoutSummaryRow list) action" where
  "PayoutSummary e ctx since adminDID w =
     (case db_stmt e ctx w of
        (Inl err, w1) \<Rightarrow> (Inl (wrap ''PayoutSummary: '' err), w1)
      | (Inr _, w1) \<Rightarrow>
          let all = t_transfers (w_db w1); admins = t_admins (w_db w1);
              rows = filter (in_window since adminDID) all
          in (case those (summary_admins admins rows) of
                None \<Rightarrow> (Inl (scan_null ''PayoutSummary''), w1)
              | Some dids \<Rightarrow>
                  (Inr (map (\<lambda>d. summary_row admins all (filter (\<lambda>r. tr_admin_did r = Some d) rows) d) dids), w1)))"

section \<open>Failures\<close>

record FailureGroup =
  fg_count :: int
  fg_reason :: string
  fg_first_at :: instant
  fg_latest_at :: instant

definition is_lower_alnum :: "char \<Rightarrow> bool" where
  "is_lower_alnum c \<longleftrightarrow> is_digit c \<or> (97 \<le> byte c \<and> byte c \<le> 122)"

text \<open>How far \<open>[0-9a-f]{64}|bafybmi[a-z0-9]+|127\.0\.0\.1:[0-9]+\<close> matches at the start; 0 if it does not.\<close>

definition scrub_len :: "string \<Rightarrow> nat" where
  "scrub_len s =
     (if 64 \<le> length s \<and> list_all is_hex_lower (take 64 s) then 64
      else if HasPrefix s ''bafybmi'' \<and> takeWhile is_lower_alnum (drop 7 s) \<noteq> ''''
        then 7 + length (takeWhile is_lower_alnum (drop 7 s))
      else if HasPrefix s ''127.0.0.1:'' \<and> takeWhile is_digit (drop 10 s) \<noteq> ''''
        then 10 + length (takeWhile is_digit (drop 10 s))
      else 0)"

function scrub :: "string \<Rightarrow> string" where
  "scrub [] = []"
| "scrub (c # s) =
     (if scrub_len (c # s) = 0 then c # scrub s else CHR ''#'' # scrub (drop (scrub_len (c # s)) (c # s)))"
  by pat_completeness auto
termination
  by (relation "measure length") auto

text \<open>\<open>left(s, n)\<close> counts characters: a UTF-8 continuation byte belongs to the one before.\<close>

fun utf8_left :: "nat \<Rightarrow> string \<Rightarrow> string" where
  "utf8_left n [] = []"
| "utf8_left n (c # s) =
     (if 128 \<le> byte c \<and> byte c < 192 then c # utf8_left n s
      else case n of 0 \<Rightarrow> [] | Suc m \<Rightarrow> c # utf8_left m s)"

definition failure_reason :: "transfer_row \<Rightarrow> string option" where
  "failure_reason r = map_option (\<lambda>d. utf8_left 200 (scrub d)) (tr_error_details r)"

definition failure_group :: "transfer_row list \<Rightarrow> string option \<Rightarrow> string option \<times> int \<times> instant \<times> instant" where
  "failure_group rows reason =
     (let g = map tr_created_at (filter (\<lambda>r. failure_reason r = reason) rows)
      in (reason, int (length g), COALESCE (min_of g) 0, COALESCE (max_of g) 0))"

fun scan_failure :: "string option \<times> int \<times> instant \<times> instant \<Rightarrow> FailureGroup option" where
  "scan_failure (None, n, a, b) = None"
| "scan_failure (Some s, n, a, b) = Some \<lparr>fg_count = n, fg_reason = s, fg_first_at = a, fg_latest_at = b\<rparr>"

definition failed_rewards :: "instant \<Rightarrow> string \<Rightarrow> transfer_row list \<Rightarrow> transfer_row list" where
  "failed_rewards since adminDID rows =
     filter (\<lambda>r. in_window since adminDID r \<and> tr_status r = StatusFailed) rows"

definition PayoutFailures :: "env \<Rightarrow> ctx \<Rightarrow> instant \<Rightarrow> string \<Rightarrow> int \<Rightarrow> ('z, FailureGroup list) action" where
  "PayoutFailures e ctx since adminDID limit w =
     (case db_stmt e ctx w of
        (Inl err, w1) \<Rightarrow> (Inl (wrap ''PayoutFailures: '' err), w1)
      | (Inr _, w1) \<Rightarrow>
          let rows = failed_rewards since adminDID (t_transfers (w_db w1));
              groups = map (failure_group rows) (remdups (map failure_reason rows));
              ordered = sort_key (\<lambda>(_, n, _, latest). (- n, - latest)) groups
          in (case those (map scan_failure (take (nat limit) ordered)) of
                None \<Rightarrow> (Inl (scan_null ''PayoutFailures''), w1)
              | Some out \<Rightarrow> (Inr out, w1)))"

section \<open>History, contracts, mismatches\<close>

definition PayoutHistory ::
    "env \<Rightarrow> ctx \<Rightarrow> string \<Rightarrow> string \<Rightarrow> instant \<Rightarrow> int \<Rightarrow> ('z, TransferStatus list) action" where
  "PayoutHistory e ctx adminDID status since limit =
     listTransferStatus e ctx
       (\<lambda>rows. take (nat limit) (newest_first (filter (\<lambda>r.
          opt_eq (tr_admin_did r) adminDID \<and> tr_kind r = KindReward \<and> (status = '''' \<or> tr_status r = status) \<and>
          (is_zero_time since \<or> pg_time since \<le> tr_created_at r)) rows)))"

record AdminContractRow =
  cr_admin_did :: string
  cr_node_port :: string
  cr_kind :: string
  cr_hash :: string
  cr_deployed_at :: instant

definition ListAdminContracts :: "env \<Rightarrow> ctx \<Rightarrow> string \<Rightarrow> ('z, AdminContractRow list) action" where
  "ListAdminContracts e ctx adminDID w =
     (case db_stmt e ctx w of
        (Inl err, w1) \<Rightarrow> (Inl (wrap ''ListAdminContracts: '' err), w1)
      | (Inr _, w1) \<Rightarrow>
          let admins = t_admins (w_db w1);
              rows = filter (\<lambda>r. adminDID = '''' \<or> ac_admin_did r = adminDID) (t_contracts (w_db w1));
              ordered = sort_key (\<lambda>r. (nulls_last (port_of admins (Some (ac_admin_did r))), ac_admin_did r, ac_kind r)) rows
          in (Inr (map (\<lambda>r. \<lparr>cr_admin_did = ac_admin_did r,
                cr_node_port = COALESCE (port_of admins (Some (ac_admin_did r))) '''',
                cr_kind = ac_kind r, cr_hash = ac_hash r, cr_deployed_at = ac_deployed_at r\<rparr>) ordered), w1))"

definition LatestRewardMismatch :: "env \<Rightarrow> ctx \<Rightarrow> string \<Rightarrow> ('z, TransferStatus) action" where
  "LatestRewardMismatch e ctx adminDID =
     selectTransferStatus e ctx (\<lambda>rows. take 1 (newest_first (filter (\<lambda>r.
       opt_eq (tr_admin_did r) adminDID \<and> tr_kind r = KindReward \<and> is_mismatch r) rows)))"

definition LatestRewardSuccess :: "env \<Rightarrow> ctx \<Rightarrow> string \<Rightarrow> ('z, TransferStatus) action" where
  "LatestRewardSuccess e ctx adminDID =
     selectTransferStatus e ctx (\<lambda>rows. take 1 (newest_first (filter (\<lambda>r.
       opt_eq (tr_admin_did r) adminDID \<and> tr_kind r = KindReward \<and> tr_status r = StatusSuccess) rows)))"

definition FirstRewardMismatchAfter :: "env \<Rightarrow> ctx \<Rightarrow> string \<Rightarrow> instant \<Rightarrow> ('z, instant option) action" where
  "FirstRewardMismatchAfter e ctx adminDID t w =
     (case db_stmt e ctx w of
        (Inl err, w1) \<Rightarrow> (Inl (wrap ''FirstRewardMismatchAfter: '' err), w1)
      | (Inr _, w1) \<Rightarrow>
          (Inr (min_of (map tr_created_at (filter (\<lambda>r.
             opt_eq (tr_admin_did r) adminDID \<and> tr_kind r = KindReward \<and> is_mismatch r \<and> pg_time t < tr_created_at r)
             (t_transfers (w_db w1))))), w1))"

text \<open>What a scanned result says of the rows it came from.\<close>

lemma those_map: "those xs = Some ys \<Longrightarrow> xs = map Some ys"
  by (induction xs arbitrary: ys) (auto split: option.splits)

lemma count_rows_split:
  "(\<And>r. r \<in> set g \<Longrightarrow> P r \<or> Q r \<or> R r) \<Longrightarrow> (\<And>r. \<not> (P r \<and> Q r)) \<Longrightarrow> (\<And>r. \<not> (P r \<and> R r)) \<Longrightarrow>
     (\<And>r. \<not> (Q r \<and> R r)) \<Longrightarrow> int (length g) = count_rows P g + count_rows Q g + count_rows R g"
  by (induction g) (auto simp: count_rows_def)

lemma count_rows_mono: "(\<And>r. P r \<Longrightarrow> Q r) \<Longrightarrow> count_rows P g \<le> count_rows Q g"
  by (induction g) (auto simp: count_rows_def)

lemma min_of_None [simp]: "min_of xs = None \<longleftrightarrow> xs = []"
  by (cases xs) (auto simp: min_of_def)

lemma summary_admins_ok:
  assumes "summary_admins admins rows = map Some dids"
  shows "distinct dids" and "Some ` set dids = tr_admin_did ` set rows"
proof -
  have "distinct (summary_admins admins rows)" by (simp add: summary_admins_def)
  then show "distinct dids" by (simp add: assms distinct_map)
  have "set (map Some dids) = set (summary_admins admins rows)" by (simp only: assms)
  then show "Some ` set dids = tr_admin_did ` set rows" by (simp add: summary_admins_def)
qed

lemma groups_total:
  assumes "distinct dids" and "tr_admin_did ` set rows \<subseteq> Some ` set dids"
  shows "(\<Sum>d\<leftarrow>dids. int (length (filter (\<lambda>r. tr_admin_did r = Some d) rows))) = int (length rows)"
  using sum_by_groups [of "map Some dids" tr_admin_did rows "\<lambda>_. 1 :: int"] assms
  by (simp add: distinct_map comp_def sum_list_triv)

lemma summary_row_ok:
  assumes "0 < length g" and "\<And>r. r \<in> set g \<Longrightarrow> tr_status r \<in> {StatusQueued, StatusProcessing, StatusSuccess, StatusFailed}"
    and "p = summary_row admins all g d"
  shows "0 < ps_total p \<and> ps_total p = ps_success p + ps_failed p + ps_in_flight p \<and>
    ps_mismatch p \<le> ps_failed p \<and> (ps_first_mismatch p = None \<longleftrightarrow> ps_mismatch p = 0)"
proof -
  have "int (length g) = count_rows (\<lambda>r. tr_status r = StatusSuccess) g +
      count_rows (\<lambda>r. tr_status r = StatusFailed) g + count_rows (\<lambda>r. tr_status r \<in> {StatusQueued, StatusProcessing}) g"
    by (rule count_rows_split) (use assms(2) in auto)
  moreover have "count_rows is_mismatch g \<le> count_rows (\<lambda>r. tr_status r = StatusFailed) g"
    by (rule count_rows_mono) (simp add: is_mismatch_def)
  moreover have "filter is_mismatch g = [] \<longleftrightarrow> count_rows is_mismatch g = 0" by (simp add: count_rows_def)
  moreover have "0 < int (length g)" using assms(1) by simp
  ultimately show ?thesis unfolding assms(3) summary_row_def by (simp del: StatusSuccess_def StatusFailed_def StatusQueued_def StatusProcessing_def)
qed

section \<open>Properties\<close>


definition sample_fork_rows :: "transfer_row list" where
  "sample_fork_rows =
     [transfer_insert_row (sample_status\<lparr>ts_request_id := ''m'', ts_status := StatusFailed,
        ts_error_details := ''chain mismatch''\<rparr>) 3000,
      transfer_insert_row sample_status 1000]"

lemma sample_summary:
  "\<exists>out w'. PayoutSummary quiet_env None 0 '''' (set_transfers sample_fork_rows empty_world) = (Inr out, w')"
proof -
  have "those (summary_admins (t_admins (w_db empty_world)) (filter (in_window 0 '''') sample_fork_rows)) = Some [''A'']"
    by code_simp
  then show ?thesis
    by (simp add: PayoutSummary_def db_stmt_def quiet_env_def ctx_expired_def Let_def set_transfers_def empty_world_def)
qed


end
