(* ===== verification/Debug.thy ===== *)
theory Debug
  imports Diagnostics Handlers
begin

text \<open>
  \<open>internal/server/debug_handler.go\<close>: the operator diagnostics. \<open>debugStore\<close> is the Go interface
  of that name as a record of functions, \<open>dbDebugStore\<close> its production value, \<open>chainFetcher\<close> the
  type of a chain fetch. A query parameter is its value, empty when missing.
\<close>

section \<open>The store and the nodes\<close>

record 'z debugStore =
  ds_PayoutSummary :: "ctx \<Rightarrow> instant \<Rightarrow> string \<Rightarrow> ('z, PayoutSummaryRow list) netaction"
  ds_PayoutFailures :: "ctx \<Rightarrow> instant \<Rightarrow> string \<Rightarrow> int \<Rightarrow> ('z, FailureGroup list) netaction"
  ds_PayoutHistory :: "ctx \<Rightarrow> string \<Rightarrow> string \<Rightarrow> instant \<Rightarrow> int \<Rightarrow> ('z, TransferStatus list) netaction"
  ds_ListAdminContracts :: "ctx \<Rightarrow> string \<Rightarrow> ('z, AdminContractRow list) netaction"
  ds_LatestRewardMismatch :: "ctx \<Rightarrow> string \<Rightarrow> ('z, TransferStatus) netaction"
  ds_LatestRewardSuccess :: "ctx \<Rightarrow> string \<Rightarrow> ('z, TransferStatus) netaction"
  ds_FirstRewardMismatchAfter :: "ctx \<Rightarrow> string \<Rightarrow> instant \<Rightarrow> ('z, instant option) netaction"

definition dbDebugStore :: "env \<Rightarrow> 'z debugStore" where
  "dbDebugStore e =
     \<lparr>ds_PayoutSummary = PayoutSummary e, ds_PayoutFailures = PayoutFailures e, ds_PayoutHistory = PayoutHistory e,
      ds_ListAdminContracts = ListAdminContracts e, ds_LatestRewardMismatch = LatestRewardMismatch e,
      ds_LatestRewardSuccess = LatestRewardSuccess e, ds_FirstRewardMismatchAfter = FirstRewardMismatchAfter e\<rparr>"

type_synonym 'z chainFetcher = "ctx \<Rightarrow> string \<Rightarrow> string \<Rightarrow> ('z, chain) netaction"

definition debugDefaultWindow :: duration where "debugDefaultWindow = 24 * hour"
definition debugHistoryLimit :: int where "debugHistoryLimit = 100"
definition debugHistoryMaxLimit :: int where "debugHistoryMaxLimit = 1000"
definition debugFailuresLimit :: int where "debugFailuresLimit = 20"
definition debugFailuresMax :: int where "debugFailuresMax = 200"
definition debugNodeTimeout :: duration where "debugNodeTimeout = 15 * second"

definition fetchChainFromNode :: "env \<Rightarrow> 'z chainFetcher" where
  "fetchChainFromNode e ctx0 adminDID contractHash w =
     (case ClientFor adminDID w of
        (Inl err, w1) \<Rightarrow> (Inl err, w1)
      | (Inr (c, _), w1) \<Rightarrow>
          GetSmartContractChain e (with_timeout ctx0 (w_now w1) debugNodeTimeout) c contractHash w1)"

section \<open>Query parameters\<close>

definition layout_clock :: "chunk list" where
  "layout_clock = [CHour, CLit (CHR '':''), CMinute, CLit (CHR '':''), CSecond]"

definition sinceLayouts :: "chunk list list" where
  "sinceLayouts =
     [layout_RFC3339Nano, layout_RFC3339, layout_date @ [CLit (CHR ''T'')] @ layout_clock,
      layout_date @ [CSpace] @ layout_clock, layout_date @ [CSpace, CHour, CLit (CHR '':''), CMinute], layout_date]"

fun first_layout :: "chunk list list \<Rightarrow> string \<Rightarrow> instant option" where
  "first_layout [] raw = None"
| "first_layout (l # ls) raw =
     (case ParseInLocation_UTC l raw of Some t \<Rightarrow> Some t | None \<Rightarrow> first_layout ls raw)"

definition parseSince :: "string \<Rightarrow> instant \<Rightarrow> goerr + instant" where
  "parseSince raw0 def =
     (let raw = TrimSpace raw0 in
      if raw = '''' then Inr def
      else case first_layout sinceLayouts raw of
        Some t \<Rightarrow> Inr t
      | None \<Rightarrow> Inl (Plain (''since must be RFC3339 (2026-09-08T10:30:00Z) or '' @ [CHR 0x27] @ ''YYYY-MM-DD HH:MM''
                  @ [CHR 0x27] @ '' UTC'')))"

definition parseLimit :: "string \<Rightarrow> int \<Rightarrow> int \<Rightarrow> goerr + int" where
  "parseLimit raw0 def mx =
     (let raw = TrimSpace raw0 in
      if raw = '''' then Inr def
      else case Atoi raw of
        None \<Rightarrow> Inl (Plain ''limit must be a positive integer'')
      | Some n \<Rightarrow>
          if n \<le> 0 then Inl (Plain ''limit must be a positive integer'')
          else Inr (if mx < n then mx else n))"

definition validHistoryStatus :: "string \<Rightarrow> bool" where
  "validHistoryStatus s \<longleftrightarrow> s \<in> {'''', StatusQueued, StatusProcessing, StatusSuccess, StatusFailed}"

section \<open>Mismatch errors\<close>

record mismatchInfo =
  mi_contract :: string
  mi_quorum_head :: string
  mi_owner_expected :: string

text \<open>\<open>local latest ([0-9a-f]{64}) != expected ([0-9a-f]{64})\<close> at the start of a string.\<close>

definition match_heads :: "string \<Rightarrow> (string \<times> string) option" where
  "match_heads s =
     (let t = drop 13 s; q = take 64 t; u = drop 64 t; v = drop 13 u; x = take 64 v in
      if HasPrefix s ''local latest '' \<and> length q = 64 \<and> list_all is_hex_lower q \<and>
         HasPrefix u '' != expected '' \<and> length x = 64 \<and> list_all is_hex_lower x
      then Some (q, x) else None)"

text \<open>
  \<open>token (\S+) \(smart_contract\) chain mismatch\<close>: the run of non-spaces ends at a space, so the
  greedy run is the only one that can match.
\<close>

definition match_contract :: "string \<Rightarrow> string option" where
  "match_contract s =
     (let t = drop 6 s; c = takeWhile (\<lambda>x. \<not> re_space x) t; u = dropWhile (\<lambda>x. \<not> re_space x) t in
      if HasPrefix s ''token '' \<and> c \<noteq> '''' \<and> HasPrefix u '' (smart_contract) chain mismatch'' then Some c else None)"

definition parseMismatch :: "string \<Rightarrow> mismatchInfo option" where
  "parseMismatch errorDetails =
     (case search match_heads errorDetails of
        None \<Rightarrow> None
      | Some (q, x) \<Rightarrow>
          Some \<lparr>mi_contract = COALESCE (search match_contract errorDetails) '''',
                mi_quorum_head = q, mi_owner_expected = x\<rparr>)"

section \<open>Response shapes\<close>

definition time_json :: "instant \<Rightarrow> json" where
  "time_json t = JStr (FormatRFC3339Nano t)"

definition time_ptr_json :: "instant option \<Rightarrow> json" where
  "time_ptr_json t = (case t of None \<Rightarrow> JNull | Some x \<Rightarrow> time_json x)"

definition debugSummaryRow :: "PayoutSummaryRow \<Rightarrow> json" where
  "debugSummaryRow r =
     JObj [(''admin_did'', JStr (ps_admin_did r)), (''node_port'', JStr (ps_node_port r)),
       (''total'', JInt (ps_total r)), (''success'', JInt (ps_success r)), (''failed'', JInt (ps_failed r)),
       (''chain_mismatch'', JInt (ps_mismatch r)), (''in_flight'', JInt (ps_in_flight r)),
       (''first_mismatch_at'', time_ptr_json (ps_first_mismatch r)),
       (''last_mismatch_at'', time_ptr_json (ps_last_mismatch r)),
       (''last_success_at'', time_ptr_json (ps_last_success r)),
       (''last_success_tx'', JStr (ps_last_success_tx r))]"

definition debugFailureGroup :: "FailureGroup \<Rightarrow> json" where
  "debugFailureGroup g =
     JObj [(''count'', JInt (fg_count g)), (''reason'', JStr (fg_reason g)),
       (''first_at'', time_json (fg_first_at g)), (''latest_at'', time_json (fg_latest_at g))]"

definition toDebugTransferRow :: "TransferStatus \<Rightarrow> json" where
  "toDebugTransferRow t =
     JObj [(''request_id'', JStr (ts_request_id t)), (''transaction_id'', JStr (ts_transaction_id t)),
       (''kind'', JStr (ts_kind t)), (''admin_did'', JStr (ts_admin_did t)), (''user_did'', JStr (ts_user_did t)),
       (''activity_ids'', JArr (map JStr (COALESCE (ts_activity_ids t) []))),
       (''reward_points'', JInt (ts_reward_points t)), (''contract_hash'', JStr (ts_contract_hash t)),
       (''status'', JStr (ts_status t)), (''message'', JStr (ts_message t)),
       (''error_details'', JStr (ts_error_details t)), (''created_at'', time_json (ts_created_at t)),
       (''updated_at'', time_json (ts_updated_at t))]"

record debugContract =
  dc_kind :: string
  dc_hash :: string
  dc_chain_length :: int
  dc_head_position :: int
  dc_head_tx :: string
  dc_head_epoch :: int
  dc_error :: string

definition contract_json :: "debugContract \<Rightarrow> json" where
  "contract_json c =
     JObj ([(''kind'', JStr (dc_kind c)), (''contract_hash'', JStr (dc_hash c)),
        (''chain_length'', JInt (dc_chain_length c)), (''head_position'', JInt (dc_head_position c)),
        (''head_tx'', JStr (dc_head_tx c)), (''head_epoch'', JInt (dc_head_epoch c))] @
       omit_if (dc_error c = '''') ''error'' (JStr (dc_error c)))"

record debugAdminContracts =
  da_admin_did :: string
  da_node_port :: string
  da_contracts :: "debugContract list"

definition admin_contracts_json :: "debugAdminContracts \<Rightarrow> json" where
  "admin_contracts_json a =
     JObj [(''admin_did'', JStr (da_admin_did a)), (''node_port'', JStr (da_node_port a)),
       (''contracts'', JArr (map contract_json (da_contracts a)))]"

record debugForkCheck =
  fk_admin_did :: string
  fk_node_port :: string
  fk_contract :: string
  fk_quorum_head :: string
  fk_owner_expected :: string
  fk_owner_current_head :: string
  fk_owner_chain_length :: int
  fk_forked :: bool
  fk_mismatch_seen_at :: "instant option"
  fk_mismatch_request :: string
  fk_first_mismatch_at :: "instant option"
  fk_last_success_tx :: string
  fk_last_success_at :: "instant option"
  fk_node_error :: string
  fk_note :: string

definition fork_check_json :: "debugForkCheck \<Rightarrow> json" where
  "fork_check_json k =
     JObj ([(''admin_did'', JStr (fk_admin_did k)), (''node_port'', JStr (fk_node_port k)),
        (''contract'', JStr (fk_contract k)), (''quorum_head'', JStr (fk_quorum_head k)),
        (''owner_expected'', JStr (fk_owner_expected k)), (''owner_current_head'', JStr (fk_owner_current_head k)),
        (''owner_chain_length'', JInt (fk_owner_chain_length k)), (''forked'', JBool (fk_forked k)),
        (''mismatch_seen_at'', time_ptr_json (fk_mismatch_seen_at k)),
        (''mismatch_request_id'', JStr (fk_mismatch_request k)),
        (''first_mismatch_at'', time_ptr_json (fk_first_mismatch_at k)),
        (''last_success_tx'', JStr (fk_last_success_tx k)), (''last_success_at'', time_ptr_json (fk_last_success_at k))] @
       omit_if (fk_node_error k = '''') ''node_error'' (JStr (fk_node_error k)) @
       omit_if (fk_note k = '''') ''note'' (JStr (fk_note k)))"

section \<open>Handlers\<close>

definition bad_request :: "goerr \<Rightarrow> response" where
  "bad_request err = reply_err 400 ''Validation failed'' (err_text err)"

definition query_failed :: "goerr \<Rightarrow> response" where
  "query_failed err = reply_err 500 ''Query failed'' (err_text err)"

definition handleDebugPayoutSummary ::
    "'z debugStore \<Rightarrow> ctx \<Rightarrow> string \<Rightarrow> string \<Rightarrow> 'z networld_scheme \<Rightarrow> response \<times> 'z networld_scheme" where
  "handleDebugPayoutSummary ds ctx0 qsince adminDID w =
     (case parseSince qsince (w_now w - debugDefaultWindow) of
        Inl err \<Rightarrow> (bad_request err, w)
      | Inr since \<Rightarrow>
          let ctx = with_timeout ctx0 (w_now w) defaultHandlerTimeout in
          (case ds_PayoutSummary ds ctx since adminDID w of
             (Inl err, w1) \<Rightarrow> (query_failed err, w1)
           | (Inr rows, w1) \<Rightarrow>
               (reply 200 (okResponse '''' (Some (gin_H
                  [(''since'', time_json since), (''admins'', JArr (map debugSummaryRow rows))]))), w1)))"

definition handleDebugPayoutFailures ::
    "'z debugStore \<Rightarrow> ctx \<Rightarrow> string \<Rightarrow> string \<Rightarrow> string \<Rightarrow> 'z networld_scheme \<Rightarrow>
       response \<times> 'z networld_scheme" where
  "handleDebugPayoutFailures ds ctx0 qsince adminDID qlimit w =
     (case parseSince qsince (w_now w - debugDefaultWindow) of
        Inl err \<Rightarrow> (bad_request err, w)
      | Inr since \<Rightarrow>
          (case parseLimit qlimit debugFailuresLimit debugFailuresMax of
             Inl err \<Rightarrow> (bad_request err, w)
           | Inr limit \<Rightarrow>
               let ctx = with_timeout ctx0 (w_now w) defaultHandlerTimeout in
               (case ds_PayoutFailures ds ctx since adminDID limit w of
                  (Inl err, w1) \<Rightarrow> (query_failed err, w1)
                | (Inr groups, w1) \<Rightarrow>
                    (reply 200 (okResponse '''' (Some (gin_H
                       [(''since'', time_json since), (''limit'', JInt limit),
                        (''failures'', JArr (map debugFailureGroup groups))]))), w1))))"

definition handleDebugPayoutHistory ::
    "'z debugStore \<Rightarrow> ctx \<Rightarrow> string \<Rightarrow> string \<Rightarrow> string \<Rightarrow> string \<Rightarrow> 'z networld_scheme \<Rightarrow>
       response \<times> 'z networld_scheme" where
  "handleDebugPayoutHistory ds ctx0 adminDID status qsince qlimit w =
     (if adminDID = '''' then (reply_err 400 ''Validation failed'' ''admin_did is required'', w)
      else if \<not> validHistoryStatus status then
        (reply_err 400 ''Validation failed'' ''status must be one of queued, processing, success, failed'', w)
      else case parseSince qsince 0 of
        Inl err \<Rightarrow> (bad_request err, w)
      | Inr since \<Rightarrow>
          (case parseLimit qlimit debugHistoryLimit debugHistoryMaxLimit of
             Inl err \<Rightarrow> (bad_request err, w)
           | Inr limit \<Rightarrow>
               let ctx = with_timeout ctx0 (w_now w) defaultHandlerTimeout in
               (case ds_PayoutHistory ds ctx adminDID status since limit w of
                  (Inl err, w1) \<Rightarrow> (query_failed err, w1)
                | (Inr rows, w1) \<Rightarrow>
                    (reply 200 (okResponse '''' (Some (gin_H
                       [(''admin_did'', JStr adminDID), (''status'', JStr status), (''limit'', JInt limit),
                        (''count'', JInt (int (length rows))), (''rows'', JArr (map toDebugTransferRow rows))]))), w1))))"

definition fillHead ::
    "'z chainFetcher \<Rightarrow> ctx \<Rightarrow> string \<Rightarrow> string \<Rightarrow> debugContract \<Rightarrow> 'z networld_scheme \<Rightarrow>
       debugContract \<times> 'z networld_scheme" where
  "fillHead fetch ctx adminDID hash dst w =
     (case fetch ctx adminDID hash w of
        (Inl err, w1) \<Rightarrow> (dst\<lparr>dc_error := err_text err\<rparr>, w1)
      | (Inr chain, w1) \<Rightarrow>
          let d = dst\<lparr>dc_chain_length := chain_length chain, dc_head_position := chain_length chain - 1\<rparr> in
          (case COALESCE chain [] of
             [] \<Rightarrow> (d, w1)
           | es \<Rightarrow> (d\<lparr>dc_head_tx := ce_transaction_id (last es), dc_head_epoch := ce_epoch (last es)\<rparr>, w1)))"

definition new_contract :: "string \<Rightarrow> string \<Rightarrow> debugContract" where
  "new_contract kind hash =
     \<lparr>dc_kind = kind, dc_hash = hash, dc_chain_length = 0, dc_head_position = 0, dc_head_tx = '''', dc_head_epoch = 0,
      dc_error = ''''\<rparr>"

fun add_contract :: "AdminContractRow \<Rightarrow> debugAdminContracts list \<Rightarrow> debugAdminContracts list" where
  "add_contract r [] =
     [\<lparr>da_admin_did = cr_admin_did r, da_node_port = cr_node_port r, da_contracts = [new_contract (cr_kind r) (cr_hash r)]\<rparr>]"
| "add_contract r (a # as) =
     (if da_admin_did a = cr_admin_did r
      then a\<lparr>da_contracts := da_contracts a @ [new_contract (cr_kind r) (cr_hash r)]\<rparr> # as
      else a # add_contract r as)"

definition group_contracts :: "AdminContractRow list \<Rightarrow> debugAdminContracts list" where
  "group_contracts rows = fold add_contract rows []"

definition slots_of :: "debugAdminContracts list \<Rightarrow> (string \<times> debugContract) list" where
  "slots_of admins = concat (map (\<lambda>a. map (Pair (da_admin_did a)) (da_contracts a)) admins)"

text \<open>
  One goroutine per slot, at most five at a time: \<open>order\<close> is the order in which their fetches
  reach the nodes, and each writes its own slot.
\<close>

fun fill_slots ::
    "'z chainFetcher \<Rightarrow> ctx \<Rightarrow> nat list \<Rightarrow> (string \<times> debugContract) list \<Rightarrow> 'z networld_scheme \<Rightarrow>
       (string \<times> debugContract) list \<times> 'z networld_scheme" where
  "fill_slots fetch ctx [] slots w = (slots, w)"
| "fill_slots fetch ctx (i # order) slots w =
     (if i < length slots then
        let (d, w1) = fillHead fetch ctx (fst (slots ! i)) (dc_hash (snd (slots ! i))) (snd (slots ! i)) w
        in fill_slots fetch ctx order (slots[i := (fst (slots ! i), d)]) w1
      else fill_slots fetch ctx order slots w)"

fun regroup :: "debugAdminContracts list \<Rightarrow> debugContract list \<Rightarrow> debugAdminContracts list" where
  "regroup [] cs = []"
| "regroup (a # as) cs =
     a\<lparr>da_contracts := take (length (da_contracts a)) cs\<rparr> # regroup as (drop (length (da_contracts a)) cs)"

definition handleDebugContracts ::
    "'z debugStore \<Rightarrow> 'z chainFetcher \<Rightarrow> ctx \<Rightarrow> nat list \<Rightarrow> string \<Rightarrow> 'z networld_scheme \<Rightarrow>
       response \<times> 'z networld_scheme" where
  "handleDebugContracts ds fetch ctx0 order adminDID w =
     (let ctx = with_timeout ctx0 (w_now w) defaultHandlerTimeout in
      case ds_ListAdminContracts ds ctx adminDID w of
        (Inl err, w1) \<Rightarrow> (query_failed err, w1)
      | (Inr rows, w1) \<Rightarrow>
          let admins = group_contracts rows;
              (slots, w2) = fill_slots fetch ctx order (slots_of admins) w1
          in (reply 200 (okResponse '''' (Some (gin_H
                [(''admin_did'', JStr adminDID),
                 (''admins'', JArr (map admin_contracts_json (regroup admins (map snd slots))))]))), w2))"

definition fillOwnerHead ::
    "'z chainFetcher \<Rightarrow> ctx \<Rightarrow> debugForkCheck \<Rightarrow> 'z networld_scheme \<Rightarrow> debugForkCheck \<times> 'z networld_scheme" where
  "fillOwnerHead fetch ctx k w =
     (if fk_contract k = '''' then (k\<lparr>fk_node_error := ''no reward contract registered for this admin''\<rparr>, w)
      else
        let (dc, w1) = fillHead fetch ctx (fk_admin_did k) (fk_contract k) (new_contract '''' '''') w in
        if dc_error dc \<noteq> '''' then (k\<lparr>fk_node_error := dc_error dc\<rparr>, w1)
        else (k\<lparr>fk_owner_current_head := dc_head_tx dc, fk_owner_chain_length := dc_chain_length dc\<rparr>, w1))"

definition empty_fork_check :: "string \<Rightarrow> debugForkCheck" where
  "empty_fork_check adminDID =
     \<lparr>fk_admin_did = adminDID, fk_node_port = '''', fk_contract = '''', fk_quorum_head = '''', fk_owner_expected = '''',
      fk_owner_current_head = '''', fk_owner_chain_length = 0, fk_forked = False, fk_mismatch_seen_at = None,
      fk_mismatch_request = '''', fk_first_mismatch_at = None, fk_last_success_tx = '''', fk_last_success_at = None,
      fk_node_error = '''', fk_note = ''''\<rparr>"

definition take_contract :: "AdminContractRow \<Rightarrow> debugForkCheck \<Rightarrow> debugForkCheck" where
  "take_contract r k =
     (let k1 = k\<lparr>fk_node_port := cr_node_port r\<rparr>
      in if cr_kind r = ''reward'' then k1\<lparr>fk_contract := cr_hash r\<rparr> else k1)"

text \<open>What the newest mismatch row says, and what the first one after the last success adds.\<close>

definition note_mismatch :: "TransferStatus \<Rightarrow> debugForkCheck \<Rightarrow> debugForkCheck" where
  "note_mismatch mm k =
     (let k1 = k\<lparr>fk_mismatch_seen_at := Some (ts_created_at mm), fk_mismatch_request := ts_request_id mm\<rparr> in
      case parseMismatch (ts_error_details mm) of
        None \<Rightarrow> k1\<lparr>fk_note := ''newest chain-mismatch row did not contain '' @ [CHR 0x27]
                   @ ''local latest <hash> != expected <hash>'' @ [CHR 0x27]\<rparr>
      | Some info \<Rightarrow>
          let k2 = k1\<lparr>fk_quorum_head := mi_quorum_head info, fk_owner_expected := mi_owner_expected info\<rparr>
          in if mi_contract info \<noteq> '''' then k2\<lparr>fk_contract := mi_contract info\<rparr> else k2)"

definition note_first :: "instant option \<Rightarrow> debugForkCheck \<Rightarrow> debugForkCheck" where
  "note_first first k =
     (let k1 = k\<lparr>fk_first_mismatch_at := first\<rparr>
      in if first = None \<and> fk_note k = ''''
         then k1\<lparr>fk_note := ''newest mismatch predates the last success: already repaired''\<rparr> else k1)"

definition decide_forked :: "debugForkCheck \<Rightarrow> debugForkCheck" where
  "decide_forked k =
     (if fk_quorum_head k \<noteq> '''' \<and> fk_node_error k = ''''
      then k\<lparr>fk_forked := fk_quorum_head k \<noteq> fk_owner_current_head k\<rparr> else k)"

definition fork_reply :: "debugForkCheck \<Rightarrow> response" where
  "fork_reply k = reply 200 (okResponse '''' (Some (fork_check_json k)))"

text \<open>The registry's row and the last success; \<open>Inl\<close> is the response that ends the request.\<close>

definition fork_facts ::
    "'z debugStore \<Rightarrow> ctx \<Rightarrow> string \<Rightarrow> 'z networld_scheme \<Rightarrow> (response + debugForkCheck) \<times> 'z networld_scheme" where
  "fork_facts ds ctx adminDID w =
     (case ds_ListAdminContracts ds ctx adminDID w of
        (Inl err, w1) \<Rightarrow> (Inl (query_failed err), w1)
      | (Inr contracts, w1) \<Rightarrow>
          let k = fold take_contract contracts (empty_fork_check adminDID) in
          (case ds_LatestRewardSuccess ds ctx adminDID w1 of
             (Inr lst, w2) \<Rightarrow>
               (Inr (k\<lparr>fk_last_success_tx := ts_transaction_id lst, fk_last_success_at := Some (ts_created_at lst)\<rparr>), w2)
           | (Inl err, w2) \<Rightarrow>
               if \<not> errors_Is err ErrNotFound then (Inl (query_failed err), w2) else (Inr k, w2)))"

definition handleDebugForkCheck ::
    "'z debugStore \<Rightarrow> 'z chainFetcher \<Rightarrow> ctx \<Rightarrow> string \<Rightarrow> 'z networld_scheme \<Rightarrow> response \<times> 'z networld_scheme" where
  "handleDebugForkCheck ds fetch ctx0 adminDID w =
     (if adminDID = '''' then (reply_err 400 ''Validation failed'' ''admin_did is required'', w)
      else
        let ctx = with_timeout ctx0 (w_now w) defaultHandlerTimeout in
        (case fork_facts ds ctx adminDID w of
           (Inl rsp, w1) \<Rightarrow> (rsp, w1)
         | (Inr k, w1) \<Rightarrow>
             (case ds_LatestRewardMismatch ds ctx adminDID w1 of
                (Inl err, w2) \<Rightarrow>
                  if errors_Is err ErrNotFound then
                    let (k1, w3) = fillOwnerHead fetch ctx
                          (k\<lparr>fk_note := ''no chain-mismatch failures recorded for this admin''\<rparr>) w2
                    in (fork_reply k1, w3)
                  else (query_failed err, w2)
              | (Inr mm, w2) \<Rightarrow>
                  let k1 = note_mismatch mm k in
                  (case ds_FirstRewardMismatchAfter ds ctx adminDID (COALESCE (fk_last_success_at k1) 0) w2 of
                     (Inl err, w3) \<Rightarrow> (query_failed err, w3)
                   | (Inr first, w3) \<Rightarrow>
                       let (k2, w4) = fillOwnerHead fetch ctx (note_first first k1) w3
                       in (fork_reply (decide_forked k2), w4)))))"

section \<open>The diagnostics only look\<close>

text \<open>
  What a read-only request may do: take time, fill the client pool, and send GET requests. The
  backend of the handlers, a store and a fetcher, promises no more; the handlers add nothing.
\<close>

definition observes :: "'z networld_scheme \<Rightarrow> 'z networld_scheme \<Rightarrow> bool" where
  "observes w w' \<longleftrightarrow>
     quiet w w' \<and> pool_ok w' \<and> (\<exists>new. w_sent w' = w_sent w @ new \<and> (\<forall>q \<in> set new. rq_method q = ''GET''))"

lemma observes_refl [intro]: "pool_ok w \<Longrightarrow> observes w w"
  by (simp add: observes_def)

lemma observes_trans [trans]: "observes u v \<Longrightarrow> observes v w \<Longrightarrow> observes u w"
  unfolding observes_def by (auto intro: quiet_trans)

lemma observes_pool: "observes w w' \<Longrightarrow> pool_ok w'"
  by (simp add: observes_def)

lemma observes_stmt:
  fixes w w' :: "'z networld_scheme"
  assumes "db_stmt e ctx w = (r, w')" and "pool_ok w"
  shows "observes w w'"
  using db_stmt_quiet [OF assms(1)] more_fields [OF db_stmtD(3) [OF assms(1)]] assms(2)
  by (simp add: observes_def pool_ok_def)

locale observing_backend =
  fixes ds :: "'z debugStore" and fetch :: "'z chainFetcher"
  assumes summary_obs: "ds_PayoutSummary ds ctx t a w = (r1, w') \<Longrightarrow> pool_ok w \<Longrightarrow> observes w w'"
    and failures_obs: "ds_PayoutFailures ds ctx t a n w = (r2, w') \<Longrightarrow> pool_ok w \<Longrightarrow> observes w w'"
    and history_obs: "ds_PayoutHistory ds ctx a s t n w = (r3, w') \<Longrightarrow> pool_ok w \<Longrightarrow> observes w w'"
    and contracts_obs: "ds_ListAdminContracts ds ctx a w = (r4, w') \<Longrightarrow> pool_ok w \<Longrightarrow> observes w w'"
    and mismatch_obs: "ds_LatestRewardMismatch ds ctx a w = (r5, w') \<Longrightarrow> pool_ok w \<Longrightarrow> observes w w'"
    and success_obs: "ds_LatestRewardSuccess ds ctx a w = (r5, w') \<Longrightarrow> pool_ok w \<Longrightarrow> observes w w'"
    and first_obs: "ds_FirstRewardMismatchAfter ds ctx a t w = (r6, w') \<Longrightarrow> pool_ok w \<Longrightarrow> observes w w'"
    and fetch_obs: "fetch ctx a h w = (r7, w') \<Longrightarrow> pool_ok w \<Longrightarrow> observes w w'"
begin

lemma summary_handler: "pool_ok w \<Longrightarrow> observes w (snd (handleDebugPayoutSummary ds ctx q a w))"
  by (auto simp: handleDebugPayoutSummary_def Let_def dest: summary_obs split: prod.split sum.split)

lemma failures_handler: "pool_ok w \<Longrightarrow> observes w (snd (handleDebugPayoutFailures ds ctx q a n w))"
  by (auto simp: handleDebugPayoutFailures_def Let_def dest: failures_obs split: prod.split sum.split)

lemma history_handler: "pool_ok w \<Longrightarrow> observes w (snd (handleDebugPayoutHistory ds ctx a s q n w))"
  by (auto simp: handleDebugPayoutHistory_def Let_def dest: history_obs split: prod.split sum.split)

lemma head_obs: "fillHead fetch ctx a h d w = (d', w') \<Longrightarrow> pool_ok w \<Longrightarrow> observes w w'"
  by (auto simp: fillHead_def Let_def dest: fetch_obs split: prod.splits sum.splits list.splits)

lemma slots_obs: "fill_slots fetch ctx order slots w = (slots', w') \<Longrightarrow> pool_ok w \<Longrightarrow> observes w w'"
proof (induction order arbitrary: slots w)
  case (Cons i order)
  show ?case
  proof (cases "i < length slots")
    case True
    obtain d w1 where h: "fillHead fetch ctx (fst (slots ! i)) (dc_hash (snd (slots ! i))) (snd (slots ! i)) w = (d, w1)"
      by fastforce
    note o1 = head_obs [OF h Cons.prems(2)]
    with Cons.IH [of "slots[i := (fst (slots ! i), d)]" w1] Cons.prems(1) True h observes_pool [OF o1]
    show ?thesis by (auto intro: observes_trans)
  next
    case False
    with Cons show ?thesis by simp
  qed
qed auto

lemma contracts_handler: "pool_ok w \<Longrightarrow> observes w (snd (handleDebugContracts ds fetch ctx order a w))"
proof -
  assume ok: "pool_ok w"
  obtain r w1 where r: "ds_ListAdminContracts ds (with_timeout ctx (w_now w) defaultHandlerTimeout) a w = (r, w1)"
    by fastforce
  note o1 = contracts_obs [OF r ok]
  show ?thesis
  proof (cases r)
    case (Inr rows)
    obtain s w2 where s: "fill_slots fetch (with_timeout ctx (w_now w) defaultHandlerTimeout) order
        (slots_of (group_contracts rows)) w1 = (s, w2)" by fastforce
    from observes_trans [OF o1 slots_obs [OF s observes_pool [OF o1]]] r s Inr
    show ?thesis by (simp add: handleDebugContracts_def Let_def)
  qed (use r o1 in \<open>simp add: handleDebugContracts_def Let_def\<close>)
qed

lemma owner_obs: "fillOwnerHead fetch ctx k w = (k', w') \<Longrightarrow> pool_ok w \<Longrightarrow> observes w w'"
  by (auto simp: fillOwnerHead_def dest: head_obs split: if_splits prod.splits)

lemma facts_obs: "fork_facts ds ctx a w = (r, w') \<Longrightarrow> pool_ok w \<Longrightarrow> observes w w'"
  by (auto simp: fork_facts_def Let_def split: prod.splits sum.splits if_splits
      dest!: contracts_obs success_obs dest: observes_pool intro: observes_trans)

lemma fork_check_handler: "pool_ok w \<Longrightarrow> observes w (snd (handleDebugForkCheck ds fetch ctx0 a w))"
proof -
  assume ok: "pool_ok w"
  let ?ctx = "with_timeout ctx0 (w_now w) defaultHandlerTimeout"
  obtain f w1 where f: "fork_facts ds ?ctx a w = (f, w1)" by fastforce
  note o1 = facts_obs [OF f ok]
  obtain m w2 where m: "ds_LatestRewardMismatch ds ?ctx a w1 = (m, w2)" by fastforce
  note o2 = observes_trans [OF o1 mismatch_obs [OF m observes_pool [OF o1]]]
  note own = observes_trans [OF o2 owner_obs [OF _ observes_pool [OF o2]]]
  show ?thesis
  proof (cases "a = '''' \<or> (\<exists>rsp. f = Inl rsp) \<or> (\<exists>err. m = Inl err)")
    case True
    then show ?thesis using ok f m o1 o2 own
      by (auto simp: handleDebugForkCheck_def Let_def split: prod.split sum.split)
  next
    case False
    then obtain k mm where k: "f = Inr k" "m = Inr mm" "a \<noteq> ''''" by (metis obj_sumE)
    obtain g w3 where g: "ds_FirstRewardMismatchAfter ds ?ctx a (COALESCE (fk_last_success_at (note_mismatch mm k)) 0) w2 = (g, w3)"
      by fastforce
    note o3 = observes_trans [OF o2 first_obs [OF g observes_pool [OF o2]]]
    note own3 = observes_trans [OF o3 owner_obs [OF _ observes_pool [OF o3]]]
    show ?thesis using k f m g o3 own3
      by (auto simp: handleDebugForkCheck_def Let_def split: prod.split sum.split)
  qed
qed

end

lemma listTransferStatus_obs:
  fixes w w' :: "'z networld_scheme"
  shows "listTransferStatus e ctx cl w = (r, w') \<Longrightarrow> pool_ok w \<Longrightarrow> observes w w'"
  by (auto simp: listTransferStatus_def dest: observes_stmt split: prod.splits sum.splits)

lemma selectTransferStatus_obs:
  fixes w w' :: "'z networld_scheme"
  shows "selectTransferStatus e ctx cl w = (r, w') \<Longrightarrow> pool_ok w \<Longrightarrow> observes w w'"
  by (auto simp: selectTransferStatus_def dest: observes_stmt split: prod.splits sum.splits list.splits)

lemma GetSmartContractChain_sent:
  assumes "GetSmartContractChain e ctx c h w = (r, w')"
  shows "w_pool w' = w_pool w \<and>
    (w_sent w' = w_sent w \<or> (\<exists>req. rq_method req = ''GET'' \<and> w_sent w' = w_sent w @ [req]))"
proof -
  obtain q path where "do_request e ctx c \<lparr>rq_method = ''GET'', rq_url = resolve c path [], rq_body = NoBody\<rparr> path w = (q, w')"
    using assms by (auto simp: GetSmartContractChain_def getJSON_def split: sum.splits prod.splits option.splits)
  from do_request_sent [OF this] do_request_pool [OF this] show ?thesis by auto
qed

lemma GetSmartContractChain_obs:
  assumes "GetSmartContractChain e ctx c h w = (r, w')" and "0 < cl_timeout c" and "pool_ok w"
  shows "observes w w'"
proof -
  note gs = GetSmartContractChain_sent [OF assms(1)] and q = GetSmartContractChain_quiet [OF assms(1,2)]
  have "pool_ok w'" using pool_ok_cong [OF conjunct1 [OF gs] quietD(7) [OF q] assms(3)] .
  with gs q show ?thesis by (auto simp: observes_def)
qed

lemma ClientFor_obs: "ClientFor a w = (r, w') \<Longrightarrow> pool_ok w \<Longrightarrow> observes w w'"
  using ClientFor_ok by (fastforce simp: observes_def)

text \<open>A chain read on the admin's node, as the service and the diagnostics do it.\<close>

lemma chain_read_obs:
  assumes "ClientFor a w = (Inr (c, ac), w1)" and "GetSmartContractChain e ctx c h w1 = (r, w')" and "pool_ok w"
  shows "observes w w'"
  using ClientFor_obs [OF assms(1,3)] ClientFor_client [OF assms(1,3)]
    GetSmartContractChain_obs [OF assms(2)] observes_trans observes_pool by blast

lemma fetchChainFromNode_obs: "fetchChainFromNode e ctx a h w = (r, w') \<Longrightarrow> pool_ok w \<Longrightarrow> observes w w'"
  by (auto simp: fetchChainFromNode_def dest: ClientFor_obs chain_read_obs split: prod.splits sum.splits)

interpretation backend: observing_backend "dbDebugStore e" "fetchChainFromNode e" for e
proof unfold_locales
qed (auto simp: dbDebugStore_def PayoutSummary_def PayoutFailures_def PayoutHistory_def ListAdminContracts_def
    LatestRewardMismatch_def LatestRewardSuccess_def FirstRewardMismatchAfter_def Let_def
    dest: observes_stmt listTransferStatus_obs selectTransferStatus_obs fetchChainFromNode_obs
    split: prod.splits sum.splits option.splits)

section \<open>Properties\<close>

text \<open>The heads a mismatch error names are 64 digits, so never empty.\<close>

lemma parseMismatch_heads:
  "parseMismatch d = Some info \<Longrightarrow> length (mi_quorum_head info) = 64 \<and> length (mi_owner_expected info) = 64"
proof -
  have m: "match_heads s = Some (q, x) \<Longrightarrow> length q = 64 \<and> length x = 64" for s q x
    by (auto simp: match_heads_def Let_def split: if_splits)
  have "search match_heads d = Some (q, x) \<Longrightarrow> length q = 64 \<and> length x = 64" for q x
    by (erule search_SomeE) (rule m)
  then show "parseMismatch d = Some info \<Longrightarrow> ?thesis"
    by (auto simp: parseMismatch_def split: option.splits)
qed

text \<open>What the node's answer makes of the report.\<close>

lemma fillOwnerHead_head:
  assumes "fetch ctx (fk_admin_did k) (fk_contract k) w = (Inr (Some es), w')" and "fk_contract k \<noteq> ''''" and "es \<noteq> []"
  shows "fillOwnerHead fetch ctx k w = (k\<lparr>fk_owner_current_head := ce_transaction_id (last es),
    fk_owner_chain_length := int (length es)\<rparr>, w')"
  using assms by (auto simp: fillOwnerHead_def fillHead_def new_contract_def chain_length_def Let_def split: list.split)

text \<open>
  Property C36: \<open>forked\<close> compares the quorum's head of the newest mismatch with the owner's present
  head, also when that mismatch is older than the last success. After a repair the owner's chain
  moves on, so the same answer then says both \<open>forked: true\<close> and \<open>already repaired\<close>.
\<close>

theorem repaired_fork_still_reported:
  fixes w :: "'z networld_scheme"
  assumes "a \<noteq> ''''" and "fork_facts ds (with_timeout ctx (w_now w) defaultHandlerTimeout) a w = (Inr k, w1)"
    and "ds_LatestRewardMismatch ds (with_timeout ctx (w_now w) defaultHandlerTimeout) a w1 = (Inr mm, w2)"
    and "parseMismatch (ts_error_details mm) = Some info" and "mi_contract info \<noteq> ''''"
    and "ds_FirstRewardMismatchAfter ds (with_timeout ctx (w_now w) defaultHandlerTimeout) a
      (COALESCE (fk_last_success_at k) 0) w2 = (Inr None, w3)"
    and "fetch (with_timeout ctx (w_now w) defaultHandlerTimeout) (fk_admin_did k) (mi_contract info) w3 = (Inr (Some es), w4)"
    and "es \<noteq> []" and "ce_transaction_id (last es) \<noteq> mi_quorum_head info"
    and "fk_note k = ''''" and "fk_node_error k = ''''"
  shows "\<exists>k'. handleDebugForkCheck ds fetch ctx a w = (fork_reply k', w4) \<and> fk_forked k' \<and>
    fk_note k' = ''newest mismatch predates the last success: already repaired''"
proof -
  let ?k1 = "note_mismatch mm k"
  have q: "mi_quorum_head info \<noteq> ''''" using parseMismatch_heads [OF assms(4)] by auto
  have k1: "fk_last_success_at ?k1 = fk_last_success_at k" "fk_contract ?k1 = mi_contract info"
    "fk_admin_did ?k1 = fk_admin_did k" "fk_note ?k1 = ''''" "fk_quorum_head ?k1 = mi_quorum_head info"
    "fk_node_error ?k1 = ''''"
    using assms(4,5,10,11) by (simp_all add: note_mismatch_def Let_def)
  have k2: "note_first None ?k1 = ?k1\<lparr>fk_first_mismatch_at := None,
      fk_note := ''newest mismatch predates the last success: already repaired''\<rparr>"
    using k1(4) by (simp add: note_first_def)
  let ?k3 = "(note_first None ?k1)\<lparr>fk_owner_current_head := ce_transaction_id (last es),
    fk_owner_chain_length := int (length es)\<rparr>"
  have f: "fillOwnerHead fetch (with_timeout ctx (w_now w) defaultHandlerTimeout) (note_first None ?k1) w3 = (?k3, w4)"
    using assms(5,7) k1 by (intro fillOwnerHead_head assms(8)) (simp_all add: k2)
  have "handleDebugForkCheck ds fetch ctx a w = (fork_reply (decide_forked ?k3), w4)"
    using assms(1-3,6) k1(1) f by (simp add: handleDebugForkCheck_def Let_def)
  then show ?thesis using q assms(9) k1(5,6) by (intro exI [of _ "decide_forked ?k3"]) (simp add: k2 decide_forked_def)
qed

text \<open>A store and a node as after a repair: one old mismatch, a later success, the owner moved on.\<close>

definition repaired_details :: string where
  "repaired_details = ''token C (smart_contract) chain mismatch after sync from D: local latest ''
     @ replicate 64 CHR ''a'' @ '' != expected '' @ replicate 64 CHR ''b''"

definition repaired_store :: "unit debugStore" where
  "repaired_store = (dbDebugStore quiet_env)\<lparr>
     ds_ListAdminContracts := (\<lambda>_ a w. (Inr [\<lparr>cr_admin_did = a, cr_node_port = ''1'', cr_kind = ''reward'', cr_hash = ''C'', cr_deployed_at = 0\<rparr>], w)),
     ds_LatestRewardMismatch := (\<lambda>_ a w. (Inr (sample_status\<lparr>ts_error_details := repaired_details, ts_created_at := 1\<rparr>), w)),
     ds_LatestRewardSuccess := (\<lambda>_ a w. (Inr (sample_status\<lparr>ts_created_at := 2\<rparr>), w)),
     ds_FirstRewardMismatchAfter := (\<lambda>_ a t w. (Inr None, w))\<rparr>"

definition repaired_chain :: "unit chainFetcher" where
  "repaired_chain = (\<lambda>_ _ _ w. (Inr (Some [\<lparr>ce_transaction_id = ''new'', ce_initiator = '''', ce_epoch = 0, ce_data = ''''\<rparr>]), w))"

lemma repaired_parsed:
  "parseMismatch repaired_details = Some \<lparr>mi_contract = ''C'', mi_quorum_head = replicate 64 CHR ''a'',
     mi_owner_expected = replicate 64 CHR ''b''\<rparr>"
  by code_simp

theorem repaired_fork_still_reported_witness:
  "\<exists>k'. handleDebugForkCheck repaired_store repaired_chain None ''A'' sample_net = (fork_reply k', sample_net) \<and> fk_forked k'"
proof -
  let ?ctx = "with_timeout None (w_now sample_net) defaultHandlerTimeout"
  obtain k where k: "fork_facts repaired_store ?ctx ''A'' sample_net = (Inr k, sample_net)"
    "fk_note k = ''''" "fk_node_error k = ''''"
    by (simp add: fork_facts_def repaired_store_def take_contract_def empty_fork_check_def Let_def)
  have m: "ds_LatestRewardMismatch repaired_store ?ctx ''A'' sample_net =
      (Inr (sample_status\<lparr>ts_error_details := repaired_details, ts_created_at := 1\<rparr>), sample_net)"
    and f: "ds_FirstRewardMismatchAfter repaired_store ?ctx ''A'' (COALESCE (fk_last_success_at k) 0) sample_net = (Inr None, sample_net)"
    by (simp_all add: repaired_store_def)
  have p: "parseMismatch (ts_error_details (sample_status\<lparr>ts_error_details := repaired_details, ts_created_at := 1\<rparr>)) =
      Some \<lparr>mi_contract = ''C'', mi_quorum_head = replicate 64 CHR ''a'', mi_owner_expected = replicate 64 CHR ''b''\<rparr>"
    by (simp add: repaired_parsed)
  have c: "repaired_chain ?ctx (fk_admin_did k) (mi_contract \<lparr>mi_contract = ''C'', mi_quorum_head = replicate 64 CHR ''a'',
      mi_owner_expected = replicate 64 CHR ''b''\<rparr>) sample_net =
      (Inr (Some [\<lparr>ce_transaction_id = ''new'', ce_initiator = '''', ce_epoch = 0, ce_data = ''''\<rparr>]), sample_net)"
    by (simp add: repaired_chain_def)
  have ne: "replicate 64 CHR ''a'' \<noteq> ''new''" by code_simp
  have "\<exists>k'. handleDebugForkCheck repaired_store repaired_chain None ''A'' sample_net = (fork_reply k', sample_net) \<and>
      fk_forked k' \<and> fk_note k' = ''newest mismatch predates the last success: already repaired''"
    by (rule repaired_fork_still_reported [where fetch = repaired_chain, OF _ k(1) m p _ f c _ _ k(2,3)]) (use ne in simp_all)
  then show ?thesis by blast
qed

text \<open>
  A time the API itself has written can be given back as \<open>since\<close>: what the status and
  history answers print is read as the same instant, to the second, by the first layouts tried.
\<close>

lemma since_accepts_own_times:
  assumes "four_digit_time t"
  shows "parseSince (FormatRFC3339 t) def = Inr (t div second * second)"
proof -
  have ne: "FormatRFC3339 t \<noteq> ''''" by (auto simp: FormatRFC3339_def Let_def split: prod.split)
  have last: "last (FormatRFC3339 t) = CHR ''Z''" by (auto simp: FormatRFC3339_def Let_def split: prod.split)
  have r: "ParseInLocation_UTC layout_RFC3339Nano (FormatRFC3339 t) = Some (t div second * second)"
    using rfc3339_roundtrip [OF assms] by blast
  then have "get_year (FormatRFC3339 t) \<noteq> None"
    by (cases "get_year (FormatRFC3339 t)") (auto simp: ParseInLocation_UTC_def layout_RFC3339Nano_def layout_date_def)
  then have "graphic (hd (FormatRFC3339 t))"
    by (cases "FormatRFC3339 t" rule: get_year.cases) (auto simp: is_digit_def graphic_def split: if_splits)
  then have "TrimSpace (FormatRFC3339 t) = FormatRFC3339 t"
    using ne last by (intro TrimSpace_graphic_ends) (simp_all add: graphic_def byte_def)
  with r ne show ?thesis by (simp add: parseSince_def sinceLayouts_def)
qed

end
