(* ===== verification/Server.thy ===== *)
theory Server
  imports Payouts V1Aliases AdminsApi Debug
begin

text \<open>
  \<open>internal/server/server.go\<close>: the table of routes, the middleware in front of them and the
  dispatch of a request to its handler, over the whole state of a running server: the queue
  manager and the world. \<open>cmd/server/main.go\<close>: how that state comes up. What the framework does
  (matching a path, decoding a body, CORS) is not modelled: an \<open>endpoint\<close> is a registered route
  with the parameters and the body its handler reads.
\<close>

section \<open>Routes\<close>

datatype endpoint =
    GetHealth
  | PostLogin "string + LoginRequest"
  | PostToken "string + LoginRequest"
  | PostRefresh "string + string"
  | PostAuthUsers "string + CreateUserRequest"
  | PostLogout "string + LogoutRequest"
  | GetMe
  | PostRewardsTransfer "string + TransferRewardRequest"
  | GetRewardsStatus string
  | GetQueueMetrics
  | GetRewardsUser string
  | GetRewardsAdmin string
  | GetUserAdmin string
  | GetAdminUsersCount string
  | PostActivityAdd "string + AddActivityRequest"
  | PostAdminAdd "string + AddAdminRequest"
  | PostCreateDID "string + CreateDIDWithPubKeyRequest"
  | PostDeployContract "string + DeployContractRequest"
  | PostExecuteContract "string + ExecuteContractRequest"
  | GetChainByKind string string
  | GetChainByHash string
  | PostAdminsSetup "string + SetupAdminEntry list"
  | GetDebugSummary string string
  | GetDebugFailures string string string
  | GetDebugHistory string string string string
  | GetDebugContracts string
  | GetDebugForkCheck string
  | PostV1CreateDID "string + CreateDIDWithPubKeyRequest"
  | PostV1ActivityAdd "string + AddActivityRequest"
  | GetV1ActivityList string
  | PostV1Payouts "string + TransferRewardRequest"
  | GetV1PayoutStatus string
  | PostV1UserAdd "string + AddAdminRequest"
  | GetV1UserPayouts string

text \<open>Method and path of the registration.\<close>

fun route :: "endpoint \<Rightarrow> string \<times> string" where
  "route GetHealth = (''GET'', ''/api/health'')"
| "route (PostLogin _) = (''POST'', ''/api/auth/login'')"
| "route (PostToken _) = (''POST'', ''/api/auth/token'')"
| "route (PostRefresh _) = (''POST'', ''/api/auth/refresh'')"
| "route (PostAuthUsers _) = (''POST'', ''/api/auth/users'')"
| "route (PostLogout _) = (''POST'', ''/api/auth/logout'')"
| "route GetMe = (''GET'', ''/api/auth/me'')"
| "route (PostRewardsTransfer _) = (''POST'', ''/api/rewards/transfer'')"
| "route (GetRewardsStatus _) = (''GET'', ''/api/rewards/status/:request_id'')"
| "route GetQueueMetrics = (''GET'', ''/api/queue/metrics'')"
| "route (GetRewardsUser _) = (''GET'', ''/api/rewards/user/:user_did'')"
| "route (GetRewardsAdmin _) = (''GET'', ''/api/rewards/admin/:admin_did'')"
| "route (GetUserAdmin _) = (''GET'', ''/api/users/:user_did/admin'')"
| "route (GetAdminUsersCount _) = (''GET'', ''/api/admins/:admin_did/users/count'')"
| "route (PostActivityAdd _) = (''POST'', ''/api/activity/add'')"
| "route (PostAdminAdd _) = (''POST'', ''/api/admin/add'')"
| "route (PostCreateDID _) = (''POST'', ''/api/create-did-with-pubkey'')"
| "route (PostDeployContract _) = (''POST'', ''/api/deploy-contract'')"
| "route (PostExecuteContract _) = (''POST'', ''/api/execute-contract'')"
| "route (GetChainByKind _ _) = (''GET'', ''/api/contracts/:admin_did/:kind/chain'')"
| "route (GetChainByHash _) = (''GET'', ''/api/contracts/by-hash/:contract_hash/chain'')"
| "route (PostAdminsSetup _) = (''POST'', ''/api/admins/setup'')"
| "route (GetDebugSummary _ _) = (''GET'', ''/api/debug/payouts/summary'')"
| "route (GetDebugFailures _ _ _) = (''GET'', ''/api/debug/payouts/failures'')"
| "route (GetDebugHistory _ _ _ _) = (''GET'', ''/api/debug/payouts/history'')"
| "route (GetDebugContracts _) = (''GET'', ''/api/debug/contracts'')"
| "route (GetDebugForkCheck _) = (''GET'', ''/api/debug/fork-check'')"
| "route (PostV1CreateDID _) = (''POST'', ''/createdid'')"
| "route (PostV1ActivityAdd _) = (''POST'', ''/admin/activity/add'')"
| "route (GetV1ActivityList _) = (''GET'', ''/admin/activity/list'')"
| "route (PostV1Payouts _) = (''POST'', ''/admin/payouts'')"
| "route (GetV1PayoutStatus _) = (''GET'', ''/admin/payouts/status/:request_id'')"
| "route (PostV1UserAdd _) = (''POST'', ''/admin/user/add'')"
| "route (GetV1UserPayouts _) = (''GET'', ''/users/:user_did/payouts'')"

text \<open>Whether the route was registered on the group behind \<open>RequireAuth\<close>.\<close>

fun protected :: "endpoint \<Rightarrow> bool" where
  "protected GetHealth = False"
| "protected (PostLogin _) = False"
| "protected (PostToken _) = False"
| "protected (PostRefresh _) = False"
| "protected (PostAuthUsers _) = False"
| "protected _ = True"

section \<open>The server\<close>

definition handleHealth :: "'z networld_scheme \<Rightarrow> response" where
  "handleHealth w =
     reply 200 (gin_H
       [(''status'', JStr ''ok''), (''admins'', JInt (AdminCount (w_cfg w))),
        (''ft_name'', JStr (cfg_FTName (app_env (w_cfg w))))])"

text \<open>
  The keys, and what is outside the program; \<open>sv_order\<close> is the order in which the concurrent
  fetches of \<open>/api/debug/contracts\<close> finish.
\<close>

record server =
  sv_env :: env
  sv_lib :: auth_lib
  sv_keys :: Keys
  sv_os :: os_env
  sv_order :: "nat list"

definition on_world :: "('w \<Rightarrow> response \<times> 'w) \<Rightarrow> 'm \<times> 'w \<Rightarrow> response \<times> 'm \<times> 'w" where
  "on_world h s = (case s of (m, w) \<Rightarrow> (case h w of (rsp, w') \<Rightarrow> (rsp, m, w')))"

fun handle ::
    "server \<Rightarrow> ctx \<Rightarrow> string option \<Rightarrow> endpoint \<Rightarrow> Manager \<times> networld \<Rightarrow> response \<times> Manager \<times> networld" where
  "handle sv ctx u GetHealth s = on_world (\<lambda>w. (handleHealth w, w)) s"
| "handle sv ctx u (PostLogin b) s = on_world (handleLogin (sv_lib sv) (sv_keys sv) (sv_env sv) ctx b) s"
| "handle sv ctx u (PostToken b) s = on_world (handleLogin (sv_lib sv) (sv_keys sv) (sv_env sv) ctx b) s"
| "handle sv ctx u (PostRefresh b) s = on_world (handleRefresh (sv_lib sv) (sv_keys sv) (sv_env sv) ctx b) s"
| "handle sv ctx u (PostAuthUsers b) s = on_world (handleCreateUser FormatRFC3339Nano (sv_lib sv) (sv_env sv) ctx b) s"
| "handle sv ctx u (PostLogout b) s = on_world (handleLogout (sv_lib sv) (sv_env sv) ctx u b) s"
| "handle sv ctx u GetMe s = on_world (handleMe FormatRFC3339Nano (sv_env sv) ctx u) s"
| "handle sv ctx u (PostRewardsTransfer b) s = handleTransferReward (sv_env sv) ctx b s"
| "handle sv ctx u (GetRewardsStatus r) s = on_world (handleTransferStatus (sv_env sv) ctx r) s"
| "handle sv ctx u GetQueueMetrics s = (handleQueueMetrics (fst s), s)"
| "handle sv ctx u (GetRewardsUser d) s = on_world (handleRewardsByUser (sv_env sv) ctx d) s"
| "handle sv ctx u (GetRewardsAdmin d) s = on_world (handleRewardsByAdmin (sv_env sv) ctx d) s"
| "handle sv ctx u (GetUserAdmin d) s = on_world (handleUserAdmin (sv_env sv) ctx d) s"
| "handle sv ctx u (GetAdminUsersCount d) s = on_world (handleAdminUserCount (sv_env sv) ctx d) s"
| "handle sv ctx u (PostActivityAdd b) s = on_world (handleAddActivity (sv_env sv) ctx b) s"
| "handle sv ctx u (PostAdminAdd b) s = on_world (handleAddAdmin (sv_env sv) ctx b) s"
| "handle sv ctx u (PostCreateDID b) s = on_world (handleCreateDIDWithPubKey (sv_env sv) ctx b) s"
| "handle sv ctx u (PostDeployContract b) s = on_world (handleDeployContract (sv_env sv) ctx b) s"
| "handle sv ctx u (PostExecuteContract b) s = on_world (handleExecuteContract (sv_env sv) ctx b) s"
| "handle sv ctx u (GetChainByKind d k) s = on_world (handleContractChainByKind (sv_env sv) ctx d k) s"
| "handle sv ctx u (GetChainByHash h) s = on_world (handleContractChainByHash (sv_env sv) ctx h) s"
| "handle sv ctx u (PostAdminsSetup b) s = on_world (handleSetupAdmins (sv_env sv) (sv_os sv) ctx b) s"
| "handle sv ctx u (GetDebugSummary t d) s = on_world (handleDebugPayoutSummary (dbDebugStore (sv_env sv)) ctx t d) s"
| "handle sv ctx u (GetDebugFailures t d n) s =
     on_world (handleDebugPayoutFailures (dbDebugStore (sv_env sv)) ctx t d n) s"
| "handle sv ctx u (GetDebugHistory d st t n) s =
     on_world (handleDebugPayoutHistory (dbDebugStore (sv_env sv)) ctx d st t n) s"
| "handle sv ctx u (GetDebugContracts d) s =
     on_world (handleDebugContracts (dbDebugStore (sv_env sv)) (fetchChainFromNode (sv_env sv)) ctx (sv_order sv) d) s"
| "handle sv ctx u (GetDebugForkCheck d) s =
     on_world (handleDebugForkCheck (dbDebugStore (sv_env sv)) (fetchChainFromNode (sv_env sv)) ctx d) s"
| "handle sv ctx u (PostV1CreateDID b) s = on_world (handleV1CreateDID (sv_env sv) ctx b) s"
| "handle sv ctx u (PostV1ActivityAdd b) s = on_world (handleV1AddActivity (sv_env sv) ctx b) s"
| "handle sv ctx u (GetV1ActivityList d) s = on_world (handleV1ActivityList (sv_env sv) ctx d) s"
| "handle sv ctx u (PostV1Payouts b) s = handleV1Payouts (sv_env sv) ctx b s"
| "handle sv ctx u (GetV1PayoutStatus r) s = on_world (handleV1PayoutStatus (sv_env sv) ctx r) s"
| "handle sv ctx u (PostV1UserAdd b) s = on_world (handleV1UserAdd (sv_env sv) ctx b) s"
| "handle sv ctx u (GetV1UserPayouts d) s = on_world (handleV1UserPayouts (sv_env sv) ctx d) s"

definition serve ::
    "server \<Rightarrow> ctx \<Rightarrow> string \<Rightarrow> endpoint \<Rightarrow> Manager \<times> networld \<Rightarrow> response \<times> Manager \<times> networld" where
  "serve sv ctx header ep s =
     (if protected ep
      then with_auth (sv_lib sv) (sv_keys sv) [RoleOperator] header (w_now (snd s)) (\<lambda>u. handle sv ctx (Some u) ep) s
      else handle sv ctx None ep s)"

section \<open>Who gets through\<close>

text \<open>
  Property C13: five routes are open, health, the two login paths, refresh and the registration of
  accounts. On any other route the handler runs only for a bearer token that verifies under RS256
  for the configured issuer and key, names a user and has the operator role, and it runs as that
  user; otherwise the answer is 401 or 403 and neither queues nor world have changed.
\<close>

theorem only_open_routes_without_token:
  "route ep \<in> {(''GET'', ''/api/health''), (''POST'', ''/api/auth/login''), (''POST'', ''/api/auth/token''),
       (''POST'', ''/api/auth/refresh''), (''POST'', ''/api/auth/users'')} \<and>
     serve sv ctx header ep s = handle sv ctx None ep s
   \<or> (\<exists>c u. al_jwt_parse (sv_lib sv) (k_public (sv_keys sv)) Issuer [''RS256''] (w_now (snd s)) (bearerToken header) = Inr c \<and>
       bearerToken header \<noteq> '''' \<and> al_uuid_parse (sv_lib sv) (jc_subject c) = Some u \<and> jc_role c = RoleOperator \<and>
       serve sv ctx header ep s = handle sv ctx (Some u) ep s)
   \<or> (\<exists>st msg. serve sv ctx header ep s = (reply st (abort_body msg), s) \<and> (st = 401 \<or> st = 403))"
proof (cases "protected ep")
  case True
  with with_auth_cases [of "sv_lib sv" "sv_keys sv" "w_now (snd s)" header "[RoleOperator]" "\<lambda>u. handle sv ctx (Some u) ep" s]
  show ?thesis by (auto simp: serve_def)
next
  case False
  then have "serve sv ctx header ep s = handle sv ctx None ep s" by (simp add: serve_def)
  moreover from False have "route ep \<in> {(''GET'', ''/api/health''), (''POST'', ''/api/auth/login''),
      (''POST'', ''/api/auth/token''), (''POST'', ''/api/auth/refresh''), (''POST'', ''/api/auth/users'')}"
    by (cases ep) simp_all
  ultimately show ?thesis by blast
qed

section \<open>From registration to every route\<close>

text \<open>
  Property C14: registration is open and gives the operator's role. Whoever registers an account and
  logs in with it holds a token that runs the handler of any protected route, as that account, until
  the lifetime of an access token has passed.
\<close>

theorem self_registered_gets_full_access:
  assumes "jwt_ok (sv_lib sv) (sv_keys sv)"
    and "\<And>n. al_uuid_parse (sv_lib sv) (env_uuid (sv_env sv) n) = Some (env_uuid (sv_env sv) n)"
    and "serve sv ctx hdr (PostAuthUsers (Inr req)) s = (r1, s1)" and "rsp_status r1 = 201"
    and "serve sv ctx' hdr' (PostLogin (Inr login)) s1 = (reply 200 (TokenPairResponse access refresh ttl), s2)"
    and "al_lower (sv_lib sv) (TrimSpace (lq_email login)) = al_lower (sv_lib sv) (TrimSpace (uq_email req))"
    and "access \<noteq> ''''" and "TrimSpace access = access" and "protected ep"
    and "w_now (snd st) < numeric_date (w_now (snd s1) + cfg_AccessTokenTTL (app_env (w_cfg (snd s1))))"
  shows "\<exists>u. au_email u = TrimSpace (uq_email req) \<and>
    t_users (w_db (snd s1)) = t_users (w_db (snd s)) @ [u] \<and>
    serve sv cx (''Bearer '' @ access) ep st = handle sv cx (Some (au_id u)) ep st"
proof -
  obtain m w m1 w1 where s: "s = (m, w)" "s1 = (m1, w1)" by (metis prod.exhaust)
  have c: "handleCreateUser FormatRFC3339Nano (sv_lib sv) (sv_env sv) ctx (Inr req) w = (r1, w1)"
    and lg: "handleLogin (sv_lib sv) (sv_keys sv) (sv_env sv) ctx' (Inr login) w1 =
      (reply 200 (TokenPairResponse access refresh ttl), snd s2)"
    using assms(3,5) by (auto simp: serve_def s on_world_def split: prod.splits)
  from c assms(4) obtain u where u: "au_email u = TrimSpace (uq_email req)" "au_role u = RoleOperator"
    "al_lower (sv_lib sv) (au_email u) \<notin> (al_lower (sv_lib sv) \<circ> au_email) ` set (t_users (w_db w))"
    "w_db w1 = (w_db w)\<lparr>t_users := t_users (w_db w) @ [u]\<rparr>" "au_id u \<in> range (env_uuid (sv_env sv))"
    by (rule handleCreateUser_created) auto
  have "row_of (al_lower (sv_lib sv) \<circ> au_email) (al_lower (sv_lib sv) (au_email u)) (t_users (w_db w1)) = Some u"
    using u(3) row_of_None_iff [of "al_lower (sv_lib sv) \<circ> au_email" "al_lower (sv_lib sv) (au_email u)" "t_users (w_db w)"]
    by (simp add: u(4) row_of_append)
  with lg assms(6) u(1) obtain x and wi wj :: networld where
    i: "IssueAccess (sv_lib sv) (sv_env sv) (sv_keys sv) (au_id u) (au_role u) (cfg_AccessTokenTTL (app_env (w_cfg w1))) wi =
      (Inr (access, x), wj)" and t: "w_now w1 \<le> w_now wi"
    by (rule_tac handleLogin_issues) (auto dest!: TokenPairResponse_inject)
  have "w_now (snd st) < numeric_date x"
    using assms(10) numeric_date_mono [of "w_now w1 + cfg_AccessTokenTTL (app_env (w_cfg w1))" x] t IssueAccess_expiry [OF i]
    by (simp add: s)
  then have "RequireAuth (sv_lib sv) (sv_keys sv) [RoleOperator] (''Bearer '' @ access) (w_now (snd st)) = Inr (au_id u, au_role u)"
    using assms(1,2,7,8) u(2,5) by (intro issued_token_is_accepted [OF _ i]) auto
  then show ?thesis using assms(9) u(1,4) by (intro exI [of _ u]) (simp add: serve_def with_auth_def s)
qed

text \<open>An outsider on a server with one account.\<close>

definition toy_server :: server where
  "toy_server = \<lparr>sv_env = quiet_env, sv_lib = toy_lib, sv_keys = toy_keys, sv_os = willing_os, sv_order = []\<rparr>"

lemma toy_uuid: "al_uuid_parse toy_lib i = Some i"
  by (simp add: toy_lib_def)

lemma toy_server_simps [simp]:
  "sv_env toy_server = quiet_env" "sv_lib toy_server = toy_lib" "sv_keys toy_server = toy_keys"
  by (simp_all add: toy_server_def)

lemma toy_cfg: "w_cfg (toy_world ts) = projr (Load (\<lambda>_. None) (\<lambda>_. ''''))"
  by (simp add: toy_world_def sample_net_def set_users_def set_tokens_def dbworld.defs)

lemma toy_ttl: "cfg_AccessTokenTTL (app_env (w_cfg (toy_world ts))) = 15 * minute"
  by (simp add: toy_cfg Load_plain)

definition toy_login :: LoginRequest where
  "toy_login = \<lparr>lq_email = ''c@d'', lq_password = ''longenough''\<rparr>"

lemma toy_trims: "TrimSpace '' c@d '' = ''c@d''" "TrimSpace ''c@d'' = ''c@d''" "Contains ''c@d'' ''@''"
    "TrimSpace ''xxxxxxxx.operatoru'' = ''xxxxxxxx.operatoru''"
  by code_simp+


definition toy_account :: AuthUser where
  "toy_account = \<lparr>au_id = ''u'', au_email = ''c@d'', au_password_hash = ''hlongenough'', au_role = RoleOperator,
     au_created_at = pg_time 7000, au_updated_at = pg_time 7000\<rparr>"

lemma toy_signs_up:
  "\<exists>r w1. handleCreateUser FormatRFC3339Nano toy_lib quiet_env None (Inr toy_signup) (toy_world []) = (r, w1) \<and> rsp_status r = 201 \<and>
     w_now w1 = 7001 \<and> w_cfg w1 = w_cfg (toy_world []) \<and> t_users (w_db w1) = [toy_user, toy_account] \<and> t_tokens (w_db w1) = []"
  by (simp add: handleCreateUser_def toy_signup_def toy_trims HashPassword_def CreateAuthUser_def toy_lib_def Let_def
        db_stmt_faultless ctx_expired_def fresh_uuid_def MinPasswordLength_def toy_user_def HasPrefix_def set_users_def toy_account_def)

lemma toy_logs_in:
  assumes "t_users (w_db w1) = [toy_user, toy_account]" and "t_tokens (w_db w1) = []"
  shows "\<exists>ttl refresh w2. handleLogin toy_lib toy_keys quiet_env None (Inr toy_login) w1 =
     (reply 200 (TokenPairResponse ''xxxxxxxx.operatoru'' refresh ttl), w2)"
proof -
  obtain wa where g: "GetAuthUserByEmail (al_lower toy_lib) quiet_env None ''c@d'' w1 = (Inr toy_account, wa)"
    and wa: "w_db wa = w_db w1"
    using assms by (simp add: GetAuthUserByEmail_def db_stmt_faultless toy_lib_def toy_user_def toy_account_def)
  have ck: "CheckPassword toy_lib (au_password_hash toy_account) ''longenough'' = None"
    by (simp add: CheckPassword_def toy_lib_def toy_account_def)
  have sg: "al_jwt_sign toy_lib key \<lparr>jc_role = ''operator'', jc_issuer = i, jc_subject = ''u'', jc_issued_at = a, jc_expires_at = b, jc_id = j\<rparr>
      = Inr ''xxxxxxxx.operatoru''" for key i a b j
    by (simp add: toy_lib_def eval_nat_numeral)
  obtain x wb where i: "IssueAccess toy_lib quiet_env toy_keys ''u'' ''operator'' (cfg_AccessTokenTTL (app_env (w_cfg wa))) wa =
      (Inr (''xxxxxxxx.operatoru'', x), wb)" and wb: "w_db wb = w_db w1"
    by (simp add: IssueAccess_def Let_def fresh_uuid_def sg wa)
  obtain raw y wc where "IssueRefresh toy_lib quiet_env None ''u'' (cfg_RefreshTokenTTL (app_env (w_cfg wa))) wb = (Inr (raw, y), wc)"
    using assms by (simp add: IssueRefresh_def InsertRefreshToken_def toy_random db_stmt_faultless Let_def fresh_uuid_def wb
        toy_account_def del: base64_raw_url.simps)
  with g ck i show ?thesis
    by (simp add: handleLogin_def toy_login_def toy_trims Let_def toy_account_def RoleOperator_def) blast
qed

theorem self_registered_gets_full_access_witness:
  "\<exists>r1 s1 r2 s2. serve toy_server None '''' (PostAuthUsers (Inr toy_signup)) (NewManager 1 0, toy_world []) = (r1, s1) \<and>
     serve toy_server None '''' (PostLogin (Inr toy_login)) s1 = (r2, s2) \<and>
     serve toy_server None ''Bearer xxxxxxxx.operatoru'' (PostAdminsSetup (Inr [])) (NewManager 1 0, toy_world []) =
       handle toy_server None (Some ''u'') (PostAdminsSetup (Inr [])) (NewManager 1 0, toy_world [])"
proof -
  let ?m = "NewManager 1 0"
  obtain r1 w1 where c: "handleCreateUser FormatRFC3339Nano toy_lib quiet_env None (Inr toy_signup) (toy_world []) = (r1, w1)"
    "rsp_status r1 = 201" and w1: "w_now w1 = 7001" "w_cfg w1 = w_cfg (toy_world [])"
      "t_users (w_db w1) = [toy_user, toy_account]" "t_tokens (w_db w1) = []"
    using toy_signs_up by blast
  obtain ttl refresh w2 where l: "handleLogin toy_lib toy_keys quiet_env None (Inr toy_login) w1 =
     (reply 200 (TokenPairResponse ''xxxxxxxx.operatoru'' refresh ttl), w2)"
    using toy_logs_in [OF w1(3,4)] by blast
  have s1: "serve toy_server None '''' (PostAuthUsers (Inr toy_signup)) (?m, toy_world []) = (r1, ?m, w1)"
    and s2: "serve toy_server None '''' (PostLogin (Inr toy_login)) (?m, w1) =
      (reply 200 (TokenPairResponse ''xxxxxxxx.operatoru'' refresh ttl), ?m, w2)"
    by (simp_all add: serve_def on_world_def c l)
  have in_time: "w_now (snd (?m, toy_world [])) < numeric_date (w_now (snd (?m, w1)) + cfg_AccessTokenTTL (app_env (w_cfg (snd (?m, w1)))))"
    by (simp add: w1 toy_ttl numeric_date_def duration_defs)
  have "\<exists>u. au_email u = TrimSpace (uq_email toy_signup) \<and>
    t_users (w_db (snd (?m, w1))) = t_users (w_db (snd (?m, toy_world []))) @ [u] \<and>
    serve toy_server None (''Bearer '' @ ''xxxxxxxx.operatoru'') (PostAdminsSetup (Inr [])) (?m, toy_world []) =
      handle toy_server None (Some (au_id u)) (PostAdminsSetup (Inr [])) (?m, toy_world [])"
    by (rule self_registered_gets_full_access [OF _ _ s1 c(2) s2 _ _ _ _ in_time])
      (simp_all add: toy_ok toy_uuid toy_login_def toy_signup_def toy_trims)
  with s1 s2 w1(3) show ?thesis by (auto simp: toy_account_def)
qed

section \<open>What a GET may do\<close>

lemma reader_obs:
  fixes w w' :: "'z networld_scheme"
  assumes "pool_ok w"
  shows "GetTransferStatusByRequestID e ctx rid w = (r1, w') \<Longrightarrow> observes w w'"
    and "ListSuccessfulRewardsByUserDID e ctx d w = (r2, w') \<Longrightarrow> observes w w'"
    and "ListSuccessfulRewardsByAdminDID e ctx d w = (r3, w') \<Longrightarrow> observes w w'"
    and "GetAdminForUser e ctx d w = (r4, w') \<Longrightarrow> observes w w'"
    and "GetAdminByDID e ctx d w = (r5, w') \<Longrightarrow> observes w w'"
    and "CountUsersForAdmin e ctx d w = (r6, w') \<Longrightarrow> observes w w'"
    and "ListActivities e ctx d w = (r7, w') \<Longrightarrow> observes w w'"
    and "FTInfoForUser e ctx d w = (r8, w') \<Longrightarrow> observes w w'"
    and "GetAuthUserByID e ctx d w = (r9, w') \<Longrightarrow> observes w w'"
    and "GetAdminContract e ctx d k w = (r10, w') \<Longrightarrow> observes w w'"
    and "GetAdminDIDByContract e ctx h w = (r11, w') \<Longrightarrow> observes w w'"
  using assms
  by (auto simp: GetTransferStatusByRequestID_def ListSuccessfulRewardsByUserDID_def ListSuccessfulRewardsByAdminDID_def
      GetAdminForUser_def GetAdminByDID_def CountUsersForAdmin_def ListActivities_def FTInfoForUser_def GetAuthUserByID_def
      GetAdminContract_def GetAdminDIDByContract_def Let_def
      dest: observes_stmt listTransferStatus_obs selectTransferStatus_obs
      split: prod.splits sum.splits option.splits if_splits)

lemma GetContractChain_obs:
  fixes w w' :: "'z networld_scheme"
  assumes "GetContractChain e ctx a k w = (r, w')" and "pool_ok w"
  shows "observes w w'"
proof -
  obtain q w1 where q: "GetAdminContract e ctx a k w = (q, w1)" by fastforce
  note o1 = reader_obs(10) [OF assms(2) q]
  note ok = observes_pool [OF o1]
  from assms(1) q have "w' = w1 \<or> observes w1 w'"
    by (auto simp: GetContractChain_def dest: ClientFor_obs [OF _ ok] chain_read_obs [OF _ _ ok]
        split: prod.splits sum.splits)
  with o1 show ?thesis by (auto intro: observes_trans)
qed

lemma GetContractChainByHash_obs:
  fixes w w' :: "'z networld_scheme"
  assumes "GetContractChainByHash e ctx h w = (r, w')" and "pool_ok w"
  shows "observes w w'"
proof -
  obtain q w1 where q: "GetAdminDIDByContract e ctx h w = (q, w1)" by fastforce
  note o1 = reader_obs(11) [OF assms(2) q]
  note ok = observes_pool [OF o1]
  from assms(1) q have "w' = w1 \<or> observes w1 w'"
    by (auto simp: GetContractChainByHash_def dest: ClientFor_obs [OF _ ok] chain_read_obs [OF _ _ ok]
        split: prod.splits sum.splits)
  with o1 show ?thesis by (auto intro: observes_trans)
qed

lemma get_handlers_obs:
  assumes "pool_ok w"
  shows "observes w (snd (handleTransferStatus e ctx rid w))"
    and "observes w (snd (handleRewardsByUser e ctx d w))"
    and "observes w (snd (handleRewardsByAdmin e ctx d w))"
    and "observes w (snd (handleUserAdmin e ctx d w))"
    and "observes w (snd (handleContractChainByKind e ctx d k w))"
    and "observes w (snd (handleContractChainByHash e ctx h w))"
    and "observes w (snd (handleV1ActivityList e ctx d w))"
    and "observes w (snd (handleV1PayoutStatus e ctx rid w))"
    and "observes w (snd (handleV1UserPayouts e ctx d w))"
    and "observes w (snd (handleMe fmt e ctx u w))"
  using assms
  by (auto simp: handleTransferStatus_def handleRewardsByUser_def handleRewardsByAdmin_def handleUserAdmin_def
      handleContractChainByKind_def handleContractChainByHash_def handleV1ActivityList_def handleV1PayoutStatus_def
      handleV1UserPayouts_def handleMe_def Let_def
      dest: reader_obs GetContractChain_obs GetContractChainByHash_obs split: prod.splits sum.splits option.split)

lemma user_count_obs:
  assumes "pool_ok w"
  shows "observes w (snd (handleAdminUserCount e ctx d w))"
proof -
  obtain q w1 where q: "GetAdminByDID e ctx d w = (q, w1)" by fastforce
  obtain r w2 where r: "CountUsersForAdmin e ctx d w1 = (r, w2)" by fastforce
  note o1 = reader_obs(5) [OF assms q]
  note o2 = observes_trans [OF o1 reader_obs(6) [OF observes_pool [OF o1] r]]
  from o1 o2 assms show ?thesis
    by (cases q; cases r) (auto simp: handleAdminUserCount_def q r)
qed

lemma on_world_apply: "on_world h (m, w) = (fst (h w), m, snd (h w))"
  by (simp add: on_world_def case_prod_beta)

text \<open>
  Property C17: a GET changes nothing. Whatever it asks, whoever asks and whatever the database and
  the nodes answer, the queues, the tables, the configuration and the files stay as they are, and
  all it sends to a node are GET requests.
\<close>

theorem get_requests_read_only:
  assumes "fst (route ep) = ''GET''" and "pool_ok w"
  shows "\<exists>rsp w'. serve sv ctx header ep (m, w) = (rsp, m, w') \<and> observes w w'"
proof -
  have h: "\<exists>rsp w'. handle sv ctx u ep (m, w) = (rsp, m, w') \<and> observes w w'" for u
    using assms by (cases ep) (simp_all add: on_world_apply get_handlers_obs user_count_obs observes_refl
        backend.summary_handler backend.failures_handler backend.history_handler backend.contracts_handler
        backend.fork_check_handler)
  from h with_auth_cases [of "sv_lib sv" "sv_keys sv" "w_now w" header "[RoleOperator]" "\<lambda>u. handle sv ctx (Some u) ep" "(m, w)"]
    observes_refl [OF assms(2)]
  show ?thesis unfolding serve_def snd_conv by metis
qed

theorem get_requests_read_only_witness:
  "\<exists>rsp w'. serve \<lparr>sv_env = quiet_env, sv_lib = toy_lib, sv_keys = toy_keys, sv_os = willing_os, sv_order = []\<rparr>
     None ''Bearer x.roperator'' (GetDebugForkCheck ''A'') (NewManager 1 0, sample_net) = (rsp, NewManager 1 0, w') \<and>
     t_transfers (w_db w') = []"
proof -
  have "pool_ok sample_net" by (simp add: pool_ok_def)
  from get_requests_read_only [OF _ this, of "GetDebugForkCheck ''A''"] show ?thesis
    by (fastforce simp: observes_def quiet_def empty_world_def)
qed

end
