(* ===== verification/Startup.thy ===== *)
theory Startup
  imports Server
begin

text \<open>
  \<open>cmd/server/main.go\<close> and \<open>internal/database/db.go\<close>: how the server comes up. The PostgreSQL
  driver, reading files and the PEM parsers are parameters. Starting ends with an error's text
  (\<open>log.Fatalf\<close>, which ends the process) or with the server, its queue manager and its world;
  the shutdown, which only waits, is not modelled.
\<close>

section \<open>The connection pool of the database\<close>

record PoolConfig =
  pc_MaxConns :: int
  pc_MinConns :: int
  pc_MaxConnLifetime :: duration
  pc_MaxConnIdleTime :: duration
  pc_HealthCheckPeriod :: duration

record pg_driver =
  pg_parse :: "string \<Rightarrow> string option"
  pg_open :: "PoolConfig \<Rightarrow> string \<Rightarrow> string option"
  pg_ping :: "nat \<times> string option"

definition pool_limits :: PoolConfig where
  "pool_limits =
     \<lparr>pc_MaxConns = 30, pc_MinConns = 5, pc_MaxConnLifetime = 30 * minute, pc_MaxConnIdleTime = 5 * minute,
      pc_HealthCheckPeriod = 1 * minute\<rparr>"

text \<open>The time it takes is that of the ping, at most five seconds.\<close>

definition Connect :: "pg_driver \<Rightarrow> string \<Rightarrow> instant \<Rightarrow> (goerr + unit) \<times> instant" where
  "Connect pg dsn now =
     (case pg_parse pg dsn of
        Some msg \<Rightarrow> (Inl (wrap ''database: parse dsn: '' (Plain msg)), now)
      | None \<Rightarrow>
          (case pg_open pg pool_limits dsn of
             Some msg \<Rightarrow> (Inl (wrap ''database: connect: '' (Plain msg)), now)
           | None \<Rightarrow>
               let lat = int (fst (pg_ping pg)) in
               if 5 * second \<le> lat then (Inl (wrap ''database: ping: '' (Sentinel DeadlineExceeded)), now + 5 * second)
               else (case snd (pg_ping pg) of
                 Some msg \<Rightarrow> (Inl (wrap ''database: ping: '' (Plain msg)), now + lat)
               | None \<Rightarrow> (Inr (), now + lat))))"

section \<open>Main\<close>

record boot =
  bt_getenv :: "string \<Rightarrow> string"
  bt_parse_duration :: "string \<Rightarrow> duration option"
  bt_pg :: pg_driver
  bt_read :: "string \<Rightarrow> string + string"
  bt_parse_private :: "string \<Rightarrow> string + string"
  bt_parse_public :: "string \<Rightarrow> string + string"
  bt_env :: env
  bt_lib :: auth_lib
  bt_os :: os_env
  bt_order :: "nat list"

text \<open>The service's pool of node clients and the queue manager, from the configuration.\<close>

definition http_timeout :: "EnvConfig \<Rightarrow> duration" where
  "http_timeout cfg = wrap64 (cfg_RubixHTTPTimeoutSecond cfg * second)"

definition proc_timeout :: "EnvConfig \<Rightarrow> duration" where
  "proc_timeout cfg = wrap64 (wrap64 (cfg_RubixHTTPTimeoutSecond cfg * 2) * second)"

definition manager_of :: "EnvConfig \<Rightarrow> Manager" where
  "manager_of cfg =
     configured (cfg_QueueBufferSize cfg) (proc_timeout cfg) (cfg_PayoutMinInterval cfg) (cfg_PayoutMinIntervalOverrides cfg)"

definition fatal :: "string \<Rightarrow> goerr \<Rightarrow> string + 'a" where
  "fatal what err = Inl (what @ '': '' @ err_text err)"

definition start :: "boot \<Rightarrow> dbworld \<Rightarrow> string + server \<times> Manager \<times> networld" where
  "start b w0 =
     (case Load (bt_parse_duration b) (bt_getenv b) of
        Inl err \<Rightarrow> fatal ''config.Load'' err
      | Inr cfg \<Rightarrow>
          (case Connect (bt_pg b) (DBDSN cfg) (w_now w0) of
             (Inl err, _) \<Rightarrow> fatal ''database.Connect'' err
           | (Inr _, t) \<Rightarrow>
               let w = dbworld.extend (w0\<lparr>w_now := t\<rparr>)
                     \<lparr>w_cfg = cfg, w_sent = [], w_files = [], w_pool = [], w_pool_timeout = http_timeout (app_env cfg)\<rparr> in
               (case ReloadAdmins (bt_env b) None w of
                  (Inl err, _) \<Rightarrow> fatal ''config.ReloadAdmins'' err
                | (Inr _, w1) \<Rightarrow>
                    (case LoadKeys (bt_read b) (bt_parse_private b) (bt_parse_public b)
                        (cfg_JWTPrivateKeyPath (app_env cfg)) (cfg_JWTPublicKeyPath (app_env cfg)) of
                       Inl err \<Rightarrow> fatal ''auth.LoadKeys'' err
                     | Inr keys \<Rightarrow>
                         (case seedBootstrapOperator (bt_lib b) (bt_env b) None w1 of
                            (Inl err, _) \<Rightarrow> fatal ''bootstrap operator'' err
                          | (Inr _, w2) \<Rightarrow>
                              Inr (\<lparr>sv_env = bt_env b, sv_lib = bt_lib b, sv_keys = keys, sv_os = bt_os b,
                                    sv_order = bt_order b\<rparr>,
                                   manager_of (app_env cfg), w2))))))"

section \<open>What a start leaves\<close>

lemma parse_entries_in_int64:
  "parse_entries xs out = Inr m \<Longrightarrow> \<forall>x \<in> set out. in_int64 (snd x) \<Longrightarrow> \<forall>x \<in> set m. in_int64 (snd x)"
proof (induction xs arbitrary: out)
  case (Cons x xs)
  have upd: "\<forall>y \<in> set (AList.update did (wrap64 v) out). in_int64 (snd y)" for did v
    using Cons.prems(2) by (induction out) (auto simp: wrap64_range)
  show ?case
  proof (cases "TrimSpace x = ''''")
    case True
    with Cons show ?thesis by (simp add: parse_entries_blank)
  next
    case False
    have "entry_value x \<noteq> None"
      using parse_entries_bad [OF False, of xs out] Cons.prems(1) by fastforce
    then obtain did ms where "entry_value x = Some (did, ms)" by auto
    with False Cons.prems(1) Cons.IH [OF _ upd] show ?thesis by (simp add: parse_entries_good)
  qed
qed simp

text \<open>The intervals of a loaded configuration are 64-bit durations, so the manager starts in order.\<close>

lemma Load_intervals:
  assumes "Load pd getenv = Inr cfg"
  shows "in_int64 (cfg_PayoutMinInterval (app_env cfg))"
    and "\<forall>x \<in> set (cfg_PayoutMinIntervalOverrides (app_env cfg)). in_int64 (snd x)"
proof -
  obtain os where os: "parse_entries (Split (CHR '','') (getenv ''PAYOUT_MIN_INTERVAL_OVERRIDES'')) [] = Inr os"
      "cfg_PayoutMinIntervalOverrides (app_env cfg) = os"
    using assms by (auto simp: Load_def Let_def parseIntervalOverrides_def split: sum.splits)
  show "\<forall>x \<in> set (cfg_PayoutMinIntervalOverrides (app_env cfg)). in_int64 (snd x)"
    using parse_entries_in_int64 [OF os(1)] os(2) by simp
  show "in_int64 (cfg_PayoutMinInterval (app_env cfg))"
    using assms by (auto simp: Load_def Let_def wrap64_range split: sum.splits)
qed

lemma manager_of_ok:
  assumes "Load pd getenv = Inr cfg"
  shows "mgr_ok (manager_of (app_env cfg))" and "mgr_queues (manager_of (app_env cfg)) = []"
  using configured_ok Load_intervals [OF assms] by (simp_all add: manager_of_def)

lemma getEnv_empty: "getEnv getenv k '''' = getenv k"
  by (simp add: getEnv_def)

text \<open>A statement, or the one insert, touches nothing but the tables; the insert only the users.\<close>

lemma seed_users:
  fixes w w' :: "'z networld_scheme"
  assumes "seedBootstrapOperator l e ctx w = (Inr (), w')"
  shows "dbworld.more w' = dbworld.more w \<and> (\<exists>us. w_db w' = (w_db w)\<lparr>t_users := us\<rparr> \<and>
      (us \<noteq> [] \<or> cfg_BootstrapEmail (app_env (w_cfg w)) = '''' \<or> cfg_BootstrapPassword (app_env (w_cfg w)) = ''''))"
proof -
  obtain q w1 where c: "CountAuthUsers e ctx w = (q, w1)" by fastforce
  have w1: "w_db w1 = w_db w" "dbworld.more w1 = dbworld.more w"
    using c by (auto simp: CountAuthUsers_def dest!: db_stmt_frame split: prod.splits sum.splits)
  obtain n where n: "q = Inr n" "n = int (length (t_users (w_db w)))"
    using assms c w1(1) by (auto simp: seedBootstrapOperator_def CountAuthUsers_def dest: db_stmt_frame split: prod.splits sum.splits)
  let ?c = "app_env (w_cfg w1)"
  have cfg: "w_cfg w1 = w_cfg w" using more_fields [OF w1(2)] by simp
  show ?thesis
  proof (cases "0 < n \<or> cfg_BootstrapEmail ?c = '''' \<or> cfg_BootstrapPassword ?c = ''''")
    case True
    with assms c n have "w' = w1" by (auto simp: seedBootstrapOperator_def Let_def split: if_splits)
    with True w1 n cfg show ?thesis by (intro conjI exI [of _ "t_users (w_db w)"]) auto
  next
    case False
    then obtain h w2 where h: "HashPassword l (cfg_BootstrapPassword ?c) w1 = (Inr h, w2)"
      using assms c n by (auto simp: seedBootstrapOperator_def Let_def split: prod.splits sum.splits)
    have w2: "w_db w2 = w_db w" "dbworld.more w2 = dbworld.more w"
      using h w1 by (auto simp: HashPassword_def Let_def split: if_splits sum.splits)
    from False assms c n h obtain u where u: "CreateAuthUser (al_lower l) e ctx (cfg_BootstrapEmail ?c) h RoleOperator w2 = (Inr u, w')"
      by (auto simp: seedBootstrapOperator_def Let_def split: prod.splits sum.splits)
    have "dbworld.more w' = dbworld.more w2"
      using u by (auto simp: CreateAuthUser_def fresh_uuid_def set_users_def Let_def dest!: db_stmt_frame
          split: prod.splits sum.splits if_splits)
    with CreateAuthUser_ok(4) [OF u] w2 show ?thesis by auto
  qed
qed

lemma start_ready:
  assumes "start b w0 = Inr (sv, m, w)" and "registry_ok w0"
  shows "mgr_ok m" and "mgr_queues m = []" and "m = manager_of (app_env (w_cfg w))" and "pool_ok w" and "w_sent w = []"
    and "registry_ok w" and "t_transfers (w_db w) = t_transfers (w_db w0)"
    and "AdminByDID (w_cfg w) did =
      map_option (\<lambda>a. \<lparr>ac_did = ad_did a, ac_password = ad_password a, ac_node_port = ad_node_port a\<rparr>)
        (row_of ad_did did (t_admins (w_db w)))"
    and "t_users (w_db w) \<noteq> [] \<or> bt_getenv b ''BOOTSTRAP_EMAIL'' = '''' \<or> bt_getenv b ''BOOTSTRAP_PASSWORD'' = ''''"
proof -
  from assms(1) obtain cfg t w1 where
    cfg: "Load (bt_parse_duration b) (bt_getenv b) = Inr cfg" and m: "m = manager_of (app_env cfg)" and
    r: "ReloadAdmins (bt_env b) None (dbworld.extend (w0\<lparr>w_now := t\<rparr>)
       \<lparr>w_cfg = cfg, w_sent = [], w_files = [], w_pool = [], w_pool_timeout = http_timeout (app_env cfg)\<rparr>) = (Inr (), w1)" and
    s: "seedBootstrapOperator (bt_lib b) (bt_env b) None w1 = (Inr (), w)"
    by (auto simp: start_def fatal_def Let_def split: sum.splits prod.splits)
  let ?w = "dbworld.extend (w0\<lparr>w_now := t\<rparr>)
       \<lparr>w_cfg = cfg, w_sent = [], w_files = [], w_pool = [], w_pool_timeout = http_timeout (app_env cfg)\<rparr>"
  have db: "w_db ?w = w_db w0" by (simp add: dbworld.defs)
  with assms(2) have reg: "registry_ok ?w" by (simp add: registry_ok_def)
  note view = ReloadAdmins_view [OF r reg]
  note seed = seed_users [OF s]
  have "w_sent w1 = [] \<and> w_pool w1 = []"
    using ReloadAdmins_frame [OF r] by (simp add: dbworld.defs)
  then have w: "w_sent w = []" "w_pool w = []" "w_cfg w = w_cfg w1"
    using more_fields [OF conjunct1 [OF seed]] by simp_all
  have env: "app_env (w_cfg w) = app_env cfg" "app_env (w_cfg w1) = app_env cfg"
    using view(4) w(3) by (simp_all add: dbworld.defs)
  have boot: "cfg_BootstrapEmail (app_env cfg) = bt_getenv b ''BOOTSTRAP_EMAIL''"
      "cfg_BootstrapPassword (app_env cfg) = bt_getenv b ''BOOTSTRAP_PASSWORD''"
    using cfg by (auto simp: Load_def Let_def getEnv_empty split: sum.splits)
  from seed obtain us where us: "w_db w = (w_db w1)\<lparr>t_users := us\<rparr>"
      "us \<noteq> [] \<or> bt_getenv b ''BOOTSTRAP_EMAIL'' = '''' \<or> bt_getenv b ''BOOTSTRAP_PASSWORD'' = ''''"
    using env(2) boot by auto
  have tables: "t_admins (w_db w) = t_admins (w_db w0)" "t_transfers (w_db w) = t_transfers (w_db w0)"
    using us(1) view(3) db by simp_all
  show "registry_ok w"
    using assms(2) us(1) view(3) db by (simp add: registry_ok_def)
  show "AdminByDID (w_cfg w) did =
      map_option (\<lambda>a. \<lparr>ac_did = ad_did a, ac_password = ad_password a, ac_node_port = ad_node_port a\<rparr>)
        (row_of ad_did did (t_admins (w_db w)))"
    using view(1) [of did] w(3) tables(1) by (simp add: db)
  show "pool_ok w" using w(2) by (simp add: pool_ok_def)
  show "t_users (w_db w) \<noteq> [] \<or> bt_getenv b ''BOOTSTRAP_EMAIL'' = '''' \<or> bt_getenv b ''BOOTSTRAP_PASSWORD'' = ''''"
    using us by simp
  show "mgr_ok m" "mgr_queues m = []" "m = manager_of (app_env (w_cfg w))"
    using manager_of_ok [OF cfg] m env(1) by simp_all
  show "w_sent w = []" "t_transfers (w_db w) = t_transfers (w_db w0)"
    using w(1) tables(2) .
qed


definition plain_boot :: boot where
  "plain_boot =
     \<lparr>bt_getenv = (\<lambda>_. ''''), bt_parse_duration = (\<lambda>_. None),
      bt_pg = \<lparr>pg_parse = (\<lambda>_. None), pg_open = (\<lambda>_ _. None), pg_ping = (1, None)\<rparr>,
      bt_read = Inr, bt_parse_private = Inr, bt_parse_public = Inr, bt_env = quiet_env, bt_lib = toy_lib,
      bt_os = willing_os, bt_order = []\<rparr>"

lemma plain_boot_loads: "\<exists>cfg. Load (\<lambda>_. None) (\<lambda>_. '''') = Inr cfg \<and> app_adminByDID cfg = [] \<and>
    cfg_JWTPrivateKeyPath (app_env cfg) = ''./keys/jwt_private.pem'' \<and> cfg_JWTPublicKeyPath (app_env cfg) = ''./keys/jwt_public.pem''
    \<and> cfg_BootstrapEmail (app_env cfg) = ''''"
proof -
  have "parseIntervalOverrides '''' = Inr []" by code_simp
  then show ?thesis by (simp add: Load_def Let_def getEnv_def)
qed

lemma plain_boot_starts: "\<exists>sv m w. start plain_boot (empty_world\<lparr>w_db := db\<rparr>) = Inr (sv, m, w)"
proof -
  obtain cfg where cfg: "Load (\<lambda>_. None) (\<lambda>_. '''') = Inr cfg" "app_adminByDID cfg = []"
    "cfg_JWTPrivateKeyPath (app_env cfg) = ''./keys/jwt_private.pem''" "cfg_JWTPublicKeyPath (app_env cfg) = ''./keys/jwt_public.pem''"
    "cfg_BootstrapEmail (app_env cfg) = ''''"
    using plain_boot_loads by blast
  show ?thesis
    by (simp add: start_def plain_boot_def cfg Connect_def second_def ReloadAdmins_def ListAdmins_def db_stmt_def
        ctx_expired_def Let_def LoadKeys_def seedBootstrapOperator_def CountAuthUsers_def empty_world_def dbworld.defs)
qed


end
