(* ===== verification/Deployment.thy ===== *)
theory Deployment
  imports Startup
begin

text \<open>
  A deployment, computed: the server is started on a database with one admin, a client with a token
  posts a payout, and the admin's worker runs it. The witnesses of the system's properties stand on
  these states.
\<close>

definition shop_did :: string where "shop_did = some_did CHR ''a''"

definition shop_db :: db where
  "shop_db = (demo_db 5)\<lparr>
     t_transfers := [queued_row\<lparr>tr_request_id := ''p'', tr_status := StatusSuccess\<rparr>, queued_row\<lparr>tr_request_id := ''q''\<rparr>],
     t_admins := [\<lparr>ad_did = shop_did, ad_node_port = ''1'', ad_password = ''p'', ad_created_at = 0\<rparr>],
     t_contracts := [\<lparr>ac_admin_did = shop_did, ac_kind = KindReward, ac_hash = ''C'', ac_deployed_at = 0\<rparr>],
     t_activities := [\<lparr>vr_admin_did = shop_did, vr_activity_id = ''x'', vr_reward_points = 5, vr_description = None,
          vr_transaction_id = None, vr_created_at = 0\<rparr>]\<rparr>"

definition shop_world :: dbworld where
  "shop_world = empty_world\<lparr>w_fresh := 1, w_db := shop_db\<rparr>"

definition shop_boot :: boot where
  "shop_boot = plain_boot\<lparr>bt_env := demo_env (\<lambda>_. 10)\<rparr>"

definition shop_config :: AppConfig where
  "shop_config = (projr (Load (\<lambda>_. None) (\<lambda>_. '''')))\<lparr>app_adminByDID :=
     [(shop_did, \<lparr>ac_did = shop_did, ac_password = ''p'', ac_node_port = ''1''\<rparr>)]\<rparr>"

definition shop_server :: server where
  "shop_server = \<lparr>sv_env = demo_env (\<lambda>_. 10), sv_lib = toy_lib,
     sv_keys = \<lparr>k_private = ''./keys/jwt_private.pem'', k_public = ''./keys/jwt_public.pem''\<rparr>, sv_os = willing_os, sv_order = []\<rparr>"

definition shop_net :: "instant \<Rightarrow> nat \<Rightarrow> networld" where
  "shop_net t n =
     \<lparr>w_now = t, w_dbops = n, w_fresh = 1, w_db = shop_db, w_cfg = shop_config, w_sent = [], w_files = [], w_pool = [],
      w_pool_timeout = 120 * second\<rparr>"

definition shop_manager :: Manager where
  "shop_manager = manager_of (app_env shop_config)"

lemma shop_starts: "start shop_boot shop_world = Inr (shop_server, shop_manager, shop_net 7003 2)"
proof -
  have http: "http_timeout (app_env (projr (Load (\<lambda>_. None) (\<lambda>_. '''')))) = 120 * second"
    by (simp add: Load_plain http_timeout_def second_def in_int64_def)
  show ?thesis
    by (simp add: start_def shop_boot_def plain_boot_def shop_manager_def shop_net_def shop_server_def shop_config_def
        shop_world_def shop_db_def Connect_def ReloadAdmins_def ListAdmins_def db_stmt_def
        ctx_expired_def Let_def LoadKeys_def seedBootstrapOperator_def CountAuthUsers_def empty_world_def dbworld.defs Load_plain
        http_timeout_def second_def in_int64_def demo_env_def demo_db_def)
qed

definition shop_token :: string where
  "shop_token = ''Bearer xxxxxxxx.operatorU''"

definition shop_request :: TransferRewardRequest where
  "shop_request = \<lparr>trq_user_did = some_did CHR ''u'', trq_admin_did = shop_did, trq_activity_id = [''x'']\<rparr>"

definition shop_row :: transfer_row where
  "shop_row = transfer_insert_row (queued_status ''u'' shop_request) 7003"

definition shop_job :: TransferJob where
  "shop_job = \<lparr>tj_request_id = ''u'', tj_input = reward_input shop_request, tj_enqueued_at = 7004\<rparr>"

definition shop_accepted :: networld where
  "shop_accepted = (shop_net 7004 3)\<lparr>w_fresh := 2, w_db := shop_db\<lparr>t_transfers := t_transfers shop_db @ [shop_row]\<rparr>\<rparr>"

definition shop_queue :: "TransferJob list \<Rightarrow> instant \<Rightarrow> Manager" where
  "shop_queue js t = set_queue shop_did \<lparr>aq_adminDID = shop_did, aq_ch = js, aq_lastDone = t\<rparr> shop_manager"

lemma shop_auth: "RequireAuth toy_lib k [''operator''] shop_token now = Inr (''U'', ''operator'')"
proof -
  have "bearerToken shop_token = ''xxxxxxxx.operatorU''" unfolding shop_token_def by code_simp
  then show ?thesis by (simp add: RequireAuth_def ParseAccess_def toy_lib_def)
qed

lemma shop_valid: "ValidateTransferReward shop_config (reward_input shop_request) = None"
proof -
  have "isPlausibleDID (some_did CHR ''a'')" "isPlausibleDID (some_did CHR ''u'')" "TrimSpace ''x'' \<noteq> ''''" by code_simp+
  then show ?thesis
    by (simp add: ValidateTransferReward_def reward_input_def shop_request_def shop_config_def shop_did_def AdminByDID_def)
qed

lemma shop_net_fields [simp]:
  "w_now (shop_net t n) = t" "w_dbops (shop_net t n) = n" "w_fresh (shop_net t n) = 1" "w_db (shop_net t n) = shop_db"
  "w_cfg (shop_net t n) = shop_config" "w_sent (shop_net t n) = []" "w_pool (shop_net t n) = []"
  by (simp_all add: shop_net_def)

lemma shop_accepts:
  "serve shop_server None shop_token (PostRewardsTransfer (Inr shop_request)) (shop_manager, shop_net 7003 2) =
     (reply 202 (TransferRewardResponse ''u''), shop_queue [shop_job] 0, shop_accepted)"
proof -
  have m: "mgr_queues shop_manager = []" "mgr_bufferSize shop_manager = 1000"
    by (simp_all add: shop_manager_def shop_config_def manager_of_def configured_def Load_plain NewManager_def SetMinInterval_def)
  have "persist_queued (demo_env (\<lambda>_. 10)) None (Inr shop_request) (shop_net 7003 2) =
      (Inr (''u'', reward_input shop_request), shop_accepted)"
    by (simp add: persist_queued_def shop_valid fresh_uuid_def demo_env_def CreateTransferStatus_def db_stmt_def
      ctx_expired_def Let_def shop_accepted_def shop_db_def shop_row_def queued_row_def set_transfers_def shop_net_def
      in_int32_def queued_status_def)
  moreover have "shop_did \<noteq> ''''" by (simp add: shop_did_def some_did_def)
  ultimately show ?thesis
    by (simp add: serve_def shop_server_def with_auth_def shop_auth handleTransferReward_def request_transfer_def
       enqueue_or_fail_def Enqueue_def m getOrCreate_def chan_send_def shop_queue_def shop_job_def Let_def shop_request_def reward_input_def shop_accepted_def set_queue_def)
qed

text \<open>The worker's three stages, and where they leave the row.\<close>

definition shop_ctx :: ctx where
  "shop_ctx = with_timeout None 7004 (mgr_procTimeout shop_manager)"

definition shop_marked :: networld where
  "shop_marked = snd (mark_processing (demo_env (\<lambda>_. 10)) shop_ctx shop_job shop_accepted)"

definition shop_ran :: networld where
  "shop_ran = snd (ProcessTransferReward (demo_env (\<lambda>_. 10)) shop_ctx (tj_input shop_job) shop_marked)"

definition shop_result :: "goerr + TransferRewardResult" where
  "shop_result = fst (ProcessTransferReward (demo_env (\<lambda>_. 10)) shop_ctx (tj_input shop_job) shop_marked)"

definition shop_done :: networld where
  "shop_done = snd (record_outcome (demo_env (\<lambda>_. 10)) shop_ctx shop_job shop_result shop_ran)"

lemma shop_ctx_value: "shop_ctx = Some 240000007004"
  by (simp add: shop_ctx_def with_timeout_def shop_manager_def shop_config_def manager_of_def configured_def Load_plain
      NewManager_def SetMinInterval_def proc_timeout_def duration_defs in_int64_def)

lemma shop_pays: "map_option tr_status (transfer_of shop_done ''u'') = Some StatusSuccess"
  by (simp add: shop_done_def shop_result_def shop_ran_def shop_marked_def run_defs demo_defs shop_accepted_def shop_job_def
      shop_request_def reward_input_def shop_ctx_value shop_net_def shop_db_def shop_row_def transfer_insert_row_def
      queued_status_def shop_config_def AdminByDID_def apply_updates_def transfer_of_def)

lemma shop_accepted_status: "map_option tr_status (transfer_of shop_accepted ''u'') = Some StatusQueued"
  by (simp add: shop_accepted_def shop_db_def shop_row_def transfer_insert_row_def queued_status_def transfer_of_def queued_row_def)

lemma shop_marks: "map_option tr_status (transfer_of shop_ran ''u'') = Some StatusProcessing"
  by (simp add: shop_ran_def shop_marked_def run_defs demo_defs shop_accepted_def shop_job_def
      shop_request_def reward_input_def shop_ctx_value shop_net_def shop_db_def shop_row_def transfer_insert_row_def
      queued_status_def shop_config_def AdminByDID_def apply_updates_def transfer_of_def)

lemma shop_known: "mgr_queues shop_manager = []"
  by (simp add: shop_manager_def shop_config_def manager_of_def configured_def Load_plain NewManager_def SetMinInterval_def)

end
