(* ===== verification/Ledger.thy ===== *)
theory Ledger
  imports Server
begin

text \<open>
  What every request leaves alone. \<open>frame\<close> is the contract of a condition on the world that the
  primitive steps keep (a statement, the writes of the accounts and registries, a call to a node, the
  client pool, files, the configuration); inside it, every operation of the program but the payout
  requests keeps the condition, on every branch. \<open>full_frame\<close> adds the writes of the ledger, and with
  them the payout requests. A condition that does not look at the tables a write goes to keeps them
  whatever is written: these are \<open>table_frame\<close> and \<open>full_table_frame\<close>, which give the other two. Four
  conditions satisfy them: the ledger is what it was, the client pool is in order, the requests sent so
  far are still on record, and the keys of all tables are unique.
\<close>

named_theorems keeps \<open>operations that keep a condition on the world\<close>

lemmas branches = case_prod_beta Let_def

lemma production_store [simp]:
  "ds_PayoutSummary (dbDebugStore e) = PayoutSummary e" "ds_PayoutFailures (dbDebugStore e) = PayoutFailures e"
  "ds_PayoutHistory (dbDebugStore e) = PayoutHistory e" "ds_ListAdminContracts (dbDebugStore e) = ListAdminContracts e"
  "ds_LatestRewardMismatch (dbDebugStore e) = LatestRewardMismatch e"
  "ds_LatestRewardSuccess (dbDebugStore e) = LatestRewardSuccess e"
  "ds_FirstRewardMismatchAfter (dbDebugStore e) = FirstRewardMismatchAfter e"
  by (simp_all add: dbDebugStore_def)


text \<open>The two routes that take payouts.\<close>

fun is_payout :: "endpoint \<Rightarrow> bool" where
  "is_payout (PostRewardsTransfer b) = True"
| "is_payout (PostV1Payouts b) = True"
| "is_payout _ = False"

section \<open>The contract\<close>

locale base_frame =
  fixes P :: "networld \<Rightarrow> bool"
  assumes stmt [keeps]: "P w \<Longrightarrow> P (snd (db_stmt e ctx w))"
    and users [keeps]: "P w \<Longrightarrow> P (set_users us w)" and tokens [keeps]: "P w \<Longrightarrow> P (set_tokens ts w)"
    and fresh [keeps]: "P w \<Longrightarrow> P (w\<lparr>w_fresh := n\<rparr>)" and clock [keeps]: "P w \<Longrightarrow> P (w\<lparr>w_now := i\<rparr>)"
    and files [keeps]: "P w \<Longrightarrow> P (w\<lparr>w_files := fs\<rparr>)" and config [keeps]: "P w \<Longrightarrow> P (w\<lparr>w_cfg := cfg\<rparr>)"
    and request [keeps]: "P w \<Longrightarrow> P (snd (do_request e ctx c req p w))"
    and client [keeps]: "P w \<Longrightarrow> P (snd (ForBaseURL b w))"

locale frame = base_frame P for P :: "networld \<Rightarrow> bool" +
  assumes user_admin [keeps]: "P w \<Longrightarrow> P (snd (UpsertUserAdmin e ctx u d w))"
    and contract [keeps]: "P w \<Longrightarrow> P (snd (UpsertAdminContract e ctx d k h w))"
    and activity [keeps]: "P w \<Longrightarrow> P (snd (CreateActivity e ctx act w))"
    and admin [keeps]: "P w \<Longrightarrow> P (snd (CreateAdmin e ctx adm w))"
begin

lemma fresh_keeps [keeps]: "P w \<Longrightarrow> P (snd (fresh_uuid e w))"
  by (simp add: fresh_uuid_def keeps)

lemma registry_keeps [keeps]:
  "P w \<Longrightarrow> P (snd (CountUsersForAdmin e ctx d w))" "P w \<Longrightarrow> P (snd (GetAdminForUser e ctx u w))"
  "P w \<Longrightarrow> P (snd (GetAdminContract e ctx d k w))" "P w \<Longrightarrow> P (snd (GetAdminDIDByContract e ctx h w))"
  "P w \<Longrightarrow> P (snd (ListActivities e ctx d w))" "P w \<Longrightarrow> P (snd (SumRewardPointsForActivities e ctx d ids w))"
  "P w \<Longrightarrow> P (snd (GetAdminByDID e ctx d w))" "P w \<Longrightarrow> P (snd (ListAdmins e ctx w))"
  by (simp_all add: CountUsersForAdmin_def GetAdminForUser_def GetAdminContract_def GetAdminDIDByContract_def
      ListActivities_def SumRewardPointsForActivities_def GetAdminByDID_def ListAdmins_def branches keeps
      split: sum.split option.split)

lemma accounts_keep [keeps]:
  "P w \<Longrightarrow> P (snd (CreateAuthUser lower e ctx email hash role w))"
  "P w \<Longrightarrow> P (snd (GetAuthUserByEmail lower e ctx email w))" "P w \<Longrightarrow> P (snd (GetAuthUserByID e ctx i w))"
  "P w \<Longrightarrow> P (snd (InsertRefreshToken e ctx u h x w))" "P w \<Longrightarrow> P (snd (GetRefreshTokenByHash e ctx h w))"
  "P w \<Longrightarrow> P (snd (RevokeRefreshToken e ctx t r w))" "P w \<Longrightarrow> P (snd (RevokeAllRefreshTokensForUser e ctx u w))"
  "P w \<Longrightarrow> P (snd (HashPassword l p w))"
  by (simp_all add: CreateAuthUser_def GetAuthUserByEmail_def GetAuthUserByID_def InsertRefreshToken_def
      GetRefreshTokenByHash_def RevokeRefreshToken_def RevokeAllRefreshTokensForUser_def HashPassword_def branches keeps
      split: sum.split option.split)

lemma reads_keep [keeps]:
  "P w \<Longrightarrow> P (snd (listTransferStatus e ctx cl w))" "P w \<Longrightarrow> P (snd (selectTransferStatus e ctx cl w))"
  "P w \<Longrightarrow> P (snd (FTInfoForUser e ctx d w))" "P w \<Longrightarrow> P (snd (PayoutSummary e ctx t d w))"
  "P w \<Longrightarrow> P (snd (PayoutFailures e ctx t d n w))" "P w \<Longrightarrow> P (snd (ListAdminContracts e ctx d w))"
  by (simp_all add: listTransferStatus_def selectTransferStatus_def FTInfoForUser_def PayoutSummary_def
      PayoutFailures_def ListAdminContracts_def branches keeps split: sum.split option.split list.split)

lemma more_reads_keep [keeps]:
  "P w \<Longrightarrow> P (snd (GetTransferStatusByRequestID e ctx rid w))"
  "P w \<Longrightarrow> P (snd (ListSuccessfulRewardsByUserDID e ctx d w))"
  "P w \<Longrightarrow> P (snd (ListSuccessfulRewardsByAdminDID e ctx d w))"
  "P w \<Longrightarrow> P (snd (PayoutHistory e ctx d st t n w))"
  "P w \<Longrightarrow> P (snd (LatestRewardMismatch e ctx d w))" "P w \<Longrightarrow> P (snd (LatestRewardSuccess e ctx d w))"
  "P w \<Longrightarrow> P (snd (FirstRewardMismatchAfter e ctx d t w))"
  by (simp_all add: GetTransferStatusByRequestID_def ListSuccessfulRewardsByUserDID_def
      ListSuccessfulRewardsByAdminDID_def PayoutHistory_def LatestRewardMismatch_def LatestRewardSuccess_def
      FirstRewardMismatchAfter_def branches keeps split: sum.split option.split)

text \<open>Calls to the node.\<close>

lemma post_keeps [keeps]:
  "P w \<Longrightarrow> P (snd (postJSON e ctx c p j w))" "P w \<Longrightarrow> P (snd (getJSON e ctx c p q w))"
  by (simp_all add: postJSON_def getJSON_def keeps)

lemma calls_keep [keeps]:
  "P w \<Longrightarrow> P (snd (PostTx e ctx c tx w))" "P w \<Longrightarrow> P (snd (Sign e ctx c i p w))"
  "P w \<Longrightarrow> P (snd (CreateDID e ctx c r w))" "P w \<Longrightarrow> P (snd (RegisterDID e ctx c d w))"
  "P w \<Longrightarrow> P (snd (GenerateSmartContract e ctx c d x y w))" "P w \<Longrightarrow> P (snd (SubscribeSmartContract e ctx c h w))"
  "P w \<Longrightarrow> P (snd (GetSmartContractChain e ctx c h w))" "P w \<Longrightarrow> P (snd (ClientFor d w))"
  by (simp_all add: PostTx_def Sign_def CreateDID_def RegisterDID_def GenerateSmartContract_def
      SubscribeSmartContract_def GetSmartContractChain_def ClientFor_def branches keeps
      split: sum.split option.split list.split)

text \<open>Flows and handlers.\<close>

lemma flows_keep [keeps]:
  "P w \<Longrightarrow> P (snd (CreateDIDWithPubKey e ctx d k w))" "P w \<Longrightarrow> P (snd (DeployContract e ctx d k x y w))"
  "P w \<Longrightarrow> P (snd (ExecuteContract e ctx d h i w))" "P w \<Longrightarrow> P (snd (GetContractChain e ctx d k w))"
  "P w \<Longrightarrow> P (snd (GetContractChainByHash e ctx h w))" "P w \<Longrightarrow> P (snd (AddActivity e ctx d a n s w))"
  "P w \<Longrightarrow> P (snd (AddAdmin e ctx d d2 w))" "P w \<Longrightarrow> P (snd (ProcessTransferReward e ctx inp w))"
  by (simp_all add: CreateDIDWithPubKey_def DeployContract_def ExecuteContract_def execute_tx_def GetContractChain_def
      GetContractChainByHash_def AddActivity_def AddAdmin_def ProcessTransferReward_def branches keeps
      split: sum.split option.split)

lemma tokens_keep [keeps]:
  "P w \<Longrightarrow> P (snd (IssueAccess l e k u r ttl w))" "P w \<Longrightarrow> P (snd (IssueRefresh l e ctx u ttl w))"
  "P w \<Longrightarrow> P (snd (RotateRefresh l e ctx t ttl w))" "P w \<Longrightarrow> P (snd (RevokeRefresh l e ctx t w))"
  by (simp_all add: IssueAccess_def IssueRefresh_def RotateRefresh_def RevokeRefresh_def branches keeps
      split: sum.split option.split)

lemma auth_handlers_keep [keeps]:
  "P w \<Longrightarrow> P (snd (handleLogin l k e ctx lb w))" "P w \<Longrightarrow> P (snd (handleRefresh l k e ctx rb w))"
  "P w \<Longrightarrow> P (snd (handleLogout l e ctx u ob w))" "P w \<Longrightarrow> P (snd (handleMe fmt e ctx u w))"
  "P w \<Longrightarrow> P (snd (handleCreateUser fmt l e ctx ub w))"
  by (simp_all add: handleLogin_def handleRefresh_def handleLogout_def handleMe_def handleCreateUser_def branches keeps
      split: sum.split option.split)

lemma handlers_keep [keeps]:
  "P w \<Longrightarrow> P (snd (handleTransferStatus e ctx rid w))" "P w \<Longrightarrow> P (snd (handleRewardsByUser e ctx d w))"
  "P w \<Longrightarrow> P (snd (handleRewardsByAdmin e ctx d w))" "P w \<Longrightarrow> P (snd (handleUserAdmin e ctx d w))"
  "P w \<Longrightarrow> P (snd (handleAdminUserCount e ctx d w))" "P w \<Longrightarrow> P (snd (handleAddActivity e ctx ab w))"
  "P w \<Longrightarrow> P (snd (handleAddAdmin e ctx mb w))" "P w \<Longrightarrow> P (snd (handleCreateDIDWithPubKey e ctx cb w))"
  "P w \<Longrightarrow> P (snd (handleDeployContract e ctx db w))" "P w \<Longrightarrow> P (snd (handleExecuteContract e ctx eb w))"
  "P w \<Longrightarrow> P (snd (handleContractChainByKind e ctx d k w))" "P w \<Longrightarrow> P (snd (handleContractChainByHash e ctx h w))"
  by (simp_all add: handleTransferStatus_def handleRewardsByUser_def handleRewardsByAdmin_def handleUserAdmin_def
      handleAdminUserCount_def handleAddActivity_def handleAddAdmin_def handleCreateDIDWithPubKey_def
      handleDeployContract_def handleExecuteContract_def handleContractChainByKind_def handleContractChainByHash_def
      branches keeps split: sum.split)

lemma v1_handlers_keep [keeps]:
  "P w \<Longrightarrow> P (snd (handleV1CreateDID e ctx cb w))" "P w \<Longrightarrow> P (snd (handleV1AddActivity e ctx ab w))"
  "P w \<Longrightarrow> P (snd (handleV1ActivityList e ctx d w))" "P w \<Longrightarrow> P (snd (handleV1PayoutStatus e ctx rid w))"
  "P w \<Longrightarrow> P (snd (handleV1UserAdd e ctx mb w))" "P w \<Longrightarrow> P (snd (handleV1UserPayouts e ctx d w))"
  by (simp_all add: handleV1CreateDID_def handleV1AddActivity_def handleV1ActivityList_def handleV1PayoutStatus_def
      handleV1UserAdd_def handleV1UserPayouts_def branches keeps split: sum.split)

lemma provision_keeps [keeps]:
  "P w \<Longrightarrow> P (announce_did e ctx c d p w)" "P w \<Longrightarrow> P (snd (writeDIDFile os d port p w))"
  by (simp_all add: announce_did_def writeDIDFile_def branches keeps split: sum.split option.split)

lemma setup_keeps [keeps]:
  "P w \<Longrightarrow> P (snd (provisionOne e os ctx port p w))" "P w \<Longrightarrow> P (snd (setup_one e os ctx x w))"
  by (simp_all add: provisionOne_def setup_one_def branches keeps split: sum.split)

lemma setup_all_keeps [keeps]: "P w \<Longrightarrow> P (snd (setup_all e os ctx xs w))"
  by (induction xs arbitrary: w) (simp_all add: branches keeps)

lemma reload_keeps [keeps]: "P w \<Longrightarrow> P (snd (ReloadAdmins e ctx w))"
  by (simp add: ReloadAdmins_def branches keeps split: sum.split)

lemma handleSetupAdmins_keeps [keeps]: "P w \<Longrightarrow> P (snd (handleSetupAdmins e os ctx b w))"
  by (simp add: handleSetupAdmins_def branches keeps split: sum.split option.split)

lemma debug_pieces_keep [keeps]:
  "P w \<Longrightarrow> P (snd (fetchChainFromNode e ctx d h w))"
  "P w \<Longrightarrow> P (snd (fillHead (fetchChainFromNode e) ctx d h dst w))"
  "P w \<Longrightarrow> P (snd (fillOwnerHead (fetchChainFromNode e) ctx k w))"
  "P w \<Longrightarrow> P (snd (fork_facts (dbDebugStore e) ctx d w))"
  by (simp_all add: fetchChainFromNode_def fillHead_def fillOwnerHead_def fork_facts_def branches keeps
      split: sum.split option.split list.split)

lemma fill_slots_keeps [keeps]: "P w \<Longrightarrow> P (snd (fill_slots (fetchChainFromNode e) ctx order slots w))"
  by (induction order arbitrary: slots w) (simp_all add: branches keeps)

lemma debug_handlers_keep [keeps]:
  "P w \<Longrightarrow> P (snd (handleDebugPayoutSummary (dbDebugStore e) ctx t d w))"
  "P w \<Longrightarrow> P (snd (handleDebugPayoutFailures (dbDebugStore e) ctx t d n w))"
  "P w \<Longrightarrow> P (snd (handleDebugPayoutHistory (dbDebugStore e) ctx d st t n w))"
  "P w \<Longrightarrow> P (snd (handleDebugContracts (dbDebugStore e) (fetchChainFromNode e) ctx order d w))"
  "P w \<Longrightarrow> P (snd (handleDebugForkCheck (dbDebugStore e) (fetchChainFromNode e) ctx d w))"
  by (simp_all add: handleDebugPayoutSummary_def handleDebugPayoutFailures_def handleDebugPayoutHistory_def
      handleDebugContracts_def handleDebugForkCheck_def branches keeps
      split: sum.split option.split)

lemma handle_keeps:
  assumes "\<not> is_payout ep"
  shows "fst (snd (handle sv ctx u ep s)) = fst s" and "P (snd s) \<Longrightarrow> P (snd (snd (handle sv ctx u ep s)))"
  using assms by (cases ep; cases s; simp add: on_world_apply keeps)+

end

locale full_frame = frame P for P :: "networld \<Rightarrow> bool" +
  assumes create [keeps]: "P w \<Longrightarrow> P (snd (CreateTransferStatus e ctx st w))"
    and update [keeps]: "P w \<Longrightarrow> P (snd (UpdateTransferStatus e ctx rid us w))"
begin

lemma persist_keeps [keeps]: "P w \<Longrightarrow> P (snd (persist_queued e ctx body w))"
  by (simp add: persist_queued_def branches keeps split: sum.split option.split)

lemma request_transfer_keeps: "P w \<Longrightarrow> P (snd (snd (request_transfer f e ctx body (m, w))))"
  by (simp add: request_transfer_def enqueue_or_fail_def branches keeps split: sum.split)

lemma serve_keeps: "P w \<Longrightarrow> P (snd (snd (serve sv ctx header ep (m, w))))"
proof -
  assume P: "P w"
  have h: "P (snd (snd (handle sv ctx u ep (m, w))))" for u
  proof (cases "is_payout ep")
    case True
    then show ?thesis
      using request_transfer_keeps [OF P]
      by (cases ep) (simp_all add: handleTransferReward_def handleV1Payouts_request)
  qed (use handle_keeps(2) [of ep "(m, w)"] P in simp)
  show ?thesis
    using P h by (simp add: serve_def with_auth_def split: sum.split)
qed

end

section \<open>Conditions on other tables\<close>

locale table_frame = base_frame P for P :: "networld \<Rightarrow> bool" +
  assumes user_admins [keeps]: "P w \<Longrightarrow> P (set_user_admins uas w)" and contracts [keeps]: "P w \<Longrightarrow> P (set_contracts cs w)"
    and activities [keeps]: "P w \<Longrightarrow> P (set_activities acs w)" and admins [keeps]: "P w \<Longrightarrow> P (set_admins ads w)"

sublocale table_frame \<subseteq> frame
  by unfold_locales
    (simp_all add: UpsertUserAdmin_def UpsertAdminContract_def CreateActivity_def CreateAdmin_def branches keeps
      split: sum.split)

locale full_table_frame = table_frame P for P :: "networld \<Rightarrow> bool" +
  assumes transfers [keeps]: "P w \<Longrightarrow> P (set_transfers rows w)"

sublocale full_table_frame \<subseteq> full_frame
  by unfold_locales
    (simp_all add: CreateTransferStatus_def UpdateTransferStatus_def branches keeps split: sum.split option.split)

section \<open>Four conditions\<close>

definition ledger :: "'z dbworld_scheme \<Rightarrow> transfer_row list" where
  "ledger w = t_transfers (w_db w)"

interpretation same_ledger: table_frame "\<lambda>w. ledger w = L" for L
  by unfold_locales
    (simp_all add: ledger_def set_user_admins_def set_contracts_def set_activities_def set_admins_def set_users_def
      set_tokens_def do_request_def ForBaseURL_def Let_def split: http_reply.split option.split)

lemma stmt_fields [simp]:
  "w_pool (snd (db_stmt e ctx w)) = w_pool w" "w_pool_timeout (snd (db_stmt e ctx w)) = w_pool_timeout w"
  "w_sent (snd (db_stmt e ctx (w :: networld))) = w_sent w"
  using more_fields [of "snd (db_stmt e ctx w)" w] by simp_all

interpretation sound_pool: full_table_frame pool_ok
proof unfold_locales
  show "pool_ok (snd (ForBaseURL b w))" if "pool_ok w" for b and w :: networld
    using ForBaseURL_ok(1) [OF _ that] by (metis prod.collapse)
  show "pool_ok (snd (do_request e ctx c req p w))" if "pool_ok w" for e ctx c req p and w :: networld
    using that by (simp add: pool_ok_def do_request_def Let_def split: http_reply.split option.split)
qed (simp_all add: pool_ok_def go_defs)

interpretation on_record: full_table_frame "\<lambda>w. prefix u (w_sent w)" for u
proof unfold_locales
  show "prefix u (w_sent (snd (do_request e ctx c req p w)))" if "prefix u (w_sent w)" for e ctx c req p and w :: networld
    using that by (simp add: do_request_def Let_def split: http_reply.split option.split)
  show "prefix u (w_sent (snd (ForBaseURL b w)))" if "prefix u (w_sent w)" for b and w :: networld
    using that by (simp add: ForBaseURL_def Let_def split: option.split)
qed (simp_all add: go_defs)

text \<open>The constraints of the schema: the keys of the tables are unique, and points fit their column.\<close>

definition tables_ok :: "'z dbworld_scheme \<Rightarrow> bool" where
  "tables_ok w \<longleftrightarrow>
     transfers_ok w \<and> registry_ok w \<and> (\<forall>r \<in> set (t_activities (w_db w)). in_int32 (vr_reward_points r))"

lemma tables_ok_cong:
  "t_transfers (w_db w') = t_transfers (w_db w) \<Longrightarrow> t_user_admins (w_db w') = t_user_admins (w_db w) \<Longrightarrow>
   t_contracts (w_db w') = t_contracts (w_db w) \<Longrightarrow> t_activities (w_db w') = t_activities (w_db w) \<Longrightarrow>
   t_admins (w_db w') = t_admins (w_db w) \<Longrightarrow> tables_ok w \<Longrightarrow> tables_ok w'"
  by (simp add: tables_ok_def transfers_ok_def registry_ok_def)

lemma upsert_members: "r \<in> set (upsert key upd new rows) \<Longrightarrow> r = new \<or> r \<in> set rows \<or> (\<exists>x \<in> set rows. r = upd x)"
  by (auto simp: upsert_def map_rows_def split: if_splits)

lemmas distinct_upserts = user_admin_update.distinct_upsert contract_update.distinct_upsert activity_update.distinct_upsert

interpretation sound_tables: full_frame tables_ok
proof unfold_locales
  show "tables_ok (snd (db_stmt e ctx w))" if "tables_ok w" for e ctx and w :: networld
    by (rule tables_ok_cong [OF _ _ _ _ _ that]) simp_all
  show "tables_ok (snd (do_request e ctx c req p w))" if "tables_ok w" for e ctx c req p and w :: networld
    by (rule tables_ok_cong [OF _ _ _ _ _ that]) (simp_all add: do_request_def Let_def split: http_reply.split option.split)
  show "tables_ok (snd (ForBaseURL b w))" if "tables_ok w" for b and w :: networld
    by (rule tables_ok_cong [OF _ _ _ _ _ that]) (simp_all add: ForBaseURL_def Let_def split: option.split)
  show "tables_ok (snd (UpsertUserAdmin e ctx u d w))" if "tables_ok w" for e ctx u d and w :: networld
    using that by (simp add: UpsertUserAdmin_def tables_ok_def transfers_ok_def registry_ok_def set_user_admins_def distinct_upserts branches
      split: sum.split)
  show "tables_ok (snd (UpsertAdminContract e ctx d k h w))" if "tables_ok w" for e ctx d k h and w :: networld
    using that by (simp add: UpsertAdminContract_def tables_ok_def transfers_ok_def registry_ok_def set_contracts_def distinct_upserts branches
      split: sum.split)
  show "tables_ok (snd (CreateActivity e ctx act w))" if "tables_ok w" for e ctx act and w :: networld
    using that by (auto simp: CreateActivity_def tables_ok_def transfers_ok_def registry_ok_def set_activities_def distinct_upserts branches
      dest!: upsert_members split: sum.split)
  show "tables_ok (snd (CreateAdmin e ctx adm w))" if "tables_ok w" for e ctx adm and w :: networld
    using that by (auto simp: CreateAdmin_def tables_ok_def transfers_ok_def registry_ok_def set_admins_def branches split: sum.split)
  show "tables_ok (snd (CreateTransferStatus e ctx st w))" if ok: "tables_ok w" for e ctx st and w :: networld
  proof -
    obtain r w' where c: "CreateTransferStatus e ctx st w = (r, w')" by fastforce
    then have "\<exists>rows. w_db w' = (w_db w)\<lparr>t_transfers := rows\<rparr>"
      by (cases rule: CreateTransferStatus_cases) (auto intro: exI [of _ "t_transfers (w_db w)"])
    with ok CreateTransferStatus_ok [OF c] c show ?thesis by (auto simp: tables_ok_def registry_ok_def)
  qed
  show "tables_ok (snd (UpdateTransferStatus e ctx rid us w))" if ok: "tables_ok w" for e ctx rid us and w :: networld
  proof -
    obtain r w' where u: "UpdateTransferStatus e ctx rid us w = (r, w')" by fastforce
    then have "\<exists>rows. w_db w' = (w_db w)\<lparr>t_transfers := rows\<rparr>"
      by (cases rule: UpdateTransferStatus_cases) (auto intro: exI [of _ "t_transfers (w_db w)"])
    with ok UpdateTransferStatus_ok [OF u] u show ?thesis by (auto simp: tables_ok_def registry_ok_def)
  qed
qed (simp_all add: tables_ok_def transfers_ok_def registry_ok_def go_defs)

end
