(* ===== verification/Steps.thy ===== *)
theory Steps
  imports Deployment Ledger
begin

text \<open>
  The steps of the running server. A worker's job is taken statement by statement: marking the row,
  the two reads, the client, the two calls to the node, and the outcome. A payout request is taken in
  three: its row, the queue, and, if the queue refuses it, the row again. Between any two of them
  others may act, and time may pass: the spacing of a queue is a wait before the job is marked, and
  how long it is, and that it is kept, is the matter of \<open>Scheduler\<close>. Every other request is one step.
  Run alone, the steps compute what \<open>processOne\<close> and the handlers compute in one go.
\<close>

section \<open>A job, statement by statement\<close>

text \<open>Where a worker is in \<open>processOne\<close>, with the local variables it has filled by then.\<close>

datatype stage =
    Idle
  | Taken TransferJob
  | Marked TransferJob ctx
  | Resolved TransferJob ctx string
  | Priced TransferJob ctx string int
  | Connected TransferJob ctx string int Client AdminConfig
  | Posted TransferJob ctx string int Client AdminConfig string
  | Ran TransferJob ctx "goerr + TransferRewardResult"

fun stage_jobs :: "stage \<Rightarrow> TransferJob list" where
  "stage_jobs Idle = []"
| "stage_jobs (Taken j) = [j]"
| "stage_jobs (Marked j _) = [j]"
| "stage_jobs (Resolved j _ _) = [j]"
| "stage_jobs (Priced j _ _ _) = [j]"
| "stage_jobs (Connected j _ _ _ _ _) = [j]"
| "stage_jobs (Posted j _ _ _ _ _ _) = [j]"
| "stage_jobs (Ran j _ _) = [j]"

text \<open>Inside \<open>ProcessTransferReward\<close>: an error ends it, a value goes to the next statement.\<close>

fun transferring :: "stage \<Rightarrow> bool" where
  "transferring (Marked _ _) = True"
| "transferring (Resolved _ _ _) = True"
| "transferring (Priced _ _ _ _) = True"
| "transferring (Connected _ _ _ _ _ _) = True"
| "transferring (Posted _ _ _ _ _ _ _) = True"
| "transferring _ = False"

definition go_on :: "TransferJob \<Rightarrow> ctx \<Rightarrow> (goerr \<Rightarrow> goerr) \<Rightarrow> ('a \<Rightarrow> stage) \<Rightarrow> (goerr + 'a) \<times> networld \<Rightarrow> stage \<times> networld" where
  "go_on j ctx f g q = (case q of (Inl err, w) \<Rightarrow> (Ran j ctx (Inl (f err)), w) | (Inr x, w) \<Rightarrow> (g x, w))"

fun advance :: "env \<Rightarrow> stage \<Rightarrow> networld \<Rightarrow> stage \<times> networld" where
  "advance e (Marked j ctx) w =
     go_on j ctx (wrap ''admin has no reward contract: '') (Resolved j ctx) (GetAdminContract e ctx (job_admin j) KindReward w)"
| "advance e (Resolved j ctx hash) w =
     go_on j ctx (wrap ''sum reward points: '')
       (\<lambda>points. if points \<le> 0 then Ran j ctx (Inl (Plain ''activities resolved to zero reward points''))
                 else Priced j ctx hash points)
       (SumRewardPointsForActivities e ctx (job_admin j) (ti_activity_ids (tj_input j)) w)"
| "advance e (Priced j ctx hash points) w =
     go_on j ctx id (\<lambda>(c, a). Connected j ctx hash points c a) (ClientFor (job_admin j) w)"
| "advance e (Connected j ctx hash points c a) w =
     go_on j ctx (wrap ''post tx: '') (Posted j ctx hash points c a) (PostTx e ctx c (transfer_tx (tj_input j) hash points) w)"
| "advance e (Posted j ctx hash points c a reqID) w =
     go_on j ctx (wrap ''sign: '')
       (\<lambda>sr. Ran j ctx (Inr \<lparr>rr_transaction_id = sr_transaction_id sr, rr_contract_hash = hash,
          rr_reward_points = points, rr_message = sr_message sr\<rparr>))
       (Sign e ctx c reqID (ac_password a) w)"
| "advance e st w = (st, w)"

definition advance_pair :: "env \<Rightarrow> stage \<times> networld \<Rightarrow> stage \<times> networld" where
  "advance_pair e q = advance e (fst q) (snd q)"

lemma advance_pair_simp [simp]: "advance_pair e (st, w) = advance e st w"
  by (simp add: advance_pair_def)

text \<open>The five statements, one after the other, are \<open>ProcessTransferReward\<close>; an early error just stays.\<close>

lemma advance_transfer:
  "(advance_pair e ^^ 5) (Marked j ctx, w) = map_prod (Ran j ctx) id (ProcessTransferReward e ctx (tj_input j) w)"
  by (simp add: eval_nat_numeral ProcessTransferReward_def go_on_def split: prod.split sum.split)

lemma go_on_job:
  assumes "\<And>x. stage_jobs (g x) = [j]"
  shows "stage_jobs (fst (go_on j ctx f g q)) = [j]"
  using assms by (cases q; cases "fst q") (auto simp: go_on_def)

lemma advance_job [simp]: "stage_jobs (fst (advance e st w)) = stage_jobs st"
  by (cases st) (simp_all add: go_on_job split: prod.split)

lemma go_on_world [simp]: "snd (go_on j ctx f g q) = snd q"
  by (cases q; cases "fst q") (auto simp: go_on_def)

text \<open>No statement of a transfer touches what a frame protects.\<close>

context frame
begin

lemma advance_keeps [keeps]: "P w \<Longrightarrow> P (snd (advance e st w))"
  by (cases st) (simp_all add: keeps)

end

section \<open>The system\<close>

text \<open>Where a payout request is in its handler.\<close>

datatype client = Away | Stored ctx string TransferRewardInput | Refused ctx string goerr

text \<open>
  \<open>sy_trace\<close> is a record kept for the statements: for each request id, the statements of its transfer
  so far, each with the stage it left and the worlds before and after it.
\<close>

type_synonym trace = "(stage \<times> networld \<times> networld) list"

record sys =
  sy_mgr :: Manager
  sy_world :: networld
  sy_stage :: "string \<Rightarrow> stage"
  sy_client :: "nat \<Rightarrow> client"
  sy_trace :: "string \<Rightarrow> trace"

definition take_job :: "string \<Rightarrow> adminQueue \<Rightarrow> TransferJob \<Rightarrow> TransferJob list \<Rightarrow> sys \<Rightarrow> sys" where
  "take_job d q j rest s =
     s\<lparr>sy_mgr := set_queue d (q\<lparr>aq_ch := rest\<rparr>) (sy_mgr s), sy_stage := (sy_stage s)(d := Taken j)\<rparr>"

definition mark_job :: "env \<Rightarrow> string \<Rightarrow> TransferJob \<Rightarrow> sys \<Rightarrow> sys" where
  "mark_job e d j s =
     (let ctx = with_timeout None (w_now (sy_world s)) (mgr_procTimeout (sy_mgr s)) in
      s\<lparr>sy_world := snd (mark_processing e ctx j (sy_world s)), sy_stage := (sy_stage s)(d := Marked j ctx)\<rparr>)"

definition run_job :: "env \<Rightarrow> string \<Rightarrow> TransferJob \<Rightarrow> sys \<Rightarrow> sys" where
  "run_job e d j s =
     (let w = sy_world s; (st, w1) = advance e (sy_stage s d) w; rid = tj_request_id j in
      s\<lparr>sy_world := w1, sy_stage := (sy_stage s)(d := st),
        sy_trace := (sy_trace s)(rid := sy_trace s rid @ [(sy_stage s d, w, w1)])\<rparr>)"

definition record_job :: "env \<Rightarrow> string \<Rightarrow> adminQueue \<Rightarrow> TransferJob \<Rightarrow> ctx \<Rightarrow> goerr + TransferRewardResult \<Rightarrow> sys \<Rightarrow> sys" where
  "record_job e d q j ctx r s =
     (let w = snd (record_outcome e ctx j r (sy_world s)) in
      s\<lparr>sy_mgr := set_queue d (q\<lparr>aq_lastDone := w_now w\<rparr>) (sy_mgr s), sy_world := w,
        sy_stage := (sy_stage s)(d := Idle)\<rparr>)"

inductive worker_step :: "env \<Rightarrow> sys \<Rightarrow> sys \<Rightarrow> bool" for e where
  receive: "map_of (mgr_queues (sy_mgr s)) d = Some q \<Longrightarrow> sy_stage s d = Idle \<Longrightarrow> chan_recv (aq_ch q) = Some (j, rest) \<Longrightarrow>
     worker_step e s (take_job d q j rest s)"
| marking: "sy_stage s d = Taken j \<Longrightarrow> worker_step e s (mark_job e d j s)"
| running: "transferring (sy_stage s d) \<Longrightarrow> stage_jobs (sy_stage s d) = [j] \<Longrightarrow> worker_step e s (run_job e d j s)"
| finish: "sy_stage s d = Ran j ctx r \<Longrightarrow> map_of (mgr_queues (sy_mgr s)) d = Some q \<Longrightarrow>
     worker_step e s (record_job e d q j ctx r s)"

text \<open>A payout request: \<open>persist_queued\<close> and the two halves of \<open>enqueue_or_fail\<close>.\<close>

definition persist_payout :: "env \<Rightarrow> ctx \<Rightarrow> nat \<Rightarrow> string + TransferRewardRequest \<Rightarrow> sys \<Rightarrow> sys" where
  "persist_payout e ctx i body s =
     (case persist_queued e ctx body (sy_world s) of
        (Inl rsp, w) \<Rightarrow> s\<lparr>sy_world := w\<rparr>
      | (Inr (rid, inp), w) \<Rightarrow> s\<lparr>sy_world := w, sy_client := (sy_client s)(i := Stored ctx rid inp)\<rparr>)"

definition enqueue_payout :: "nat \<Rightarrow> ctx \<Rightarrow> string \<Rightarrow> TransferRewardInput \<Rightarrow> sys \<Rightarrow> sys" where
  "enqueue_payout i ctx rid inp s =
     (case Enqueue (Some \<lparr>tj_request_id = rid, tj_input = inp, tj_enqueued_at = w_now (sy_world s)\<rparr>) (sy_mgr s) of
        (Inl err, m) \<Rightarrow> s\<lparr>sy_mgr := m, sy_client := (sy_client s)(i := Refused ctx rid err)\<rparr>
      | (Inr _, m) \<Rightarrow> s\<lparr>sy_mgr := m, sy_client := (sy_client s)(i := Away)\<rparr>)"

definition fail_payout :: "env \<Rightarrow> nat \<Rightarrow> ctx \<Rightarrow> string \<Rightarrow> goerr \<Rightarrow> sys \<Rightarrow> sys" where
  "fail_payout e i ctx rid err s =
     s\<lparr>sy_world := snd (UpdateTransferStatus e ctx rid (not_enqueued_updates err) (sy_world s)),
       sy_client := (sy_client s)(i := Away)\<rparr>"

fun payout_body :: "endpoint \<Rightarrow> (string + TransferRewardRequest) option" where
  "payout_body (PostRewardsTransfer b) = Some b"
| "payout_body (PostV1Payouts b) = Some b"
| "payout_body _ = None"

inductive sys_step :: "server \<Rightarrow> sys \<Rightarrow> sys \<Rightarrow> bool" for sv where
  request: "payout_body ep = None \<Longrightarrow> serve sv ctx header ep (sy_mgr s, sy_world s) = (rsp, m, w) \<Longrightarrow>
     sys_step sv s (s\<lparr>sy_mgr := m, sy_world := w\<rparr>)"
| payout: "payout_body ep = Some body \<Longrightarrow>
     RequireAuth (sv_lib sv) (sv_keys sv) [RoleOperator] header (w_now (sy_world s)) = Inr user \<Longrightarrow>
     sy_client s i = Away \<Longrightarrow> sys_step sv s (persist_payout (sv_env sv) ctx i body s)"
| enqueue: "sy_client s i = Stored ctx rid inp \<Longrightarrow> sys_step sv s (enqueue_payout i ctx rid inp s)"
| refuse: "sy_client s i = Refused ctx rid err \<Longrightarrow> sys_step sv s (fail_payout (sv_env sv) i ctx rid err s)"
| work: "worker_step (sv_env sv) s t \<Longrightarrow> sys_step sv s t"
| tick: "w_now (sy_world s) \<le> t \<Longrightarrow> sys_step sv s (s\<lparr>sy_world := (sy_world s)\<lparr>w_now := t\<rparr>\<rparr>)"

lemma payout_body_is: "is_payout ep \<longleftrightarrow> payout_body ep \<noteq> None"
  by (cases ep) simp_all

section \<open>Run alone\<close>

lemma advance_steps:
  assumes "stage_jobs (sy_stage s d) = [j]"
  shows "\<exists>tr. steps (worker_step e) s
    (s\<lparr>sy_world := snd ((advance_pair e ^^ n) (sy_stage s d, sy_world s)),
       sy_stage := (sy_stage s)(d := fst ((advance_pair e ^^ n) (sy_stage s d, sy_world s))), sy_trace := tr\<rparr>)"
proof (induction n)
  case 0
  have "s = s\<lparr>sy_world := sy_world s, sy_stage := (sy_stage s)(d := sy_stage s d), sy_trace := sy_trace s\<rparr>" by simp
  then show ?case using steps.steps_refl [of "worker_step e" s] by (metis comp_apply eq_id_iff fst_conv funpow_0 snd_conv)
next
  case (Suc n)
  obtain st w where n: "(advance_pair e ^^ n) (sy_stage s d, sy_world s) = (st, w)" by fastforce
  have job: "stage_jobs (fst ((advance_pair e ^^ m) (sy_stage s d, sy_world s))) = [j]" for m
    using assms by (induction m) (simp_all add: advance_pair_def)
  with n have j: "stage_jobs st = [j]" by (metis fst_conv)
  from Suc [unfolded n fst_conv snd_conv] obtain tr where s1: "steps (worker_step e) s (s\<lparr>sy_world := w, sy_stage := (sy_stage s)(d := st), sy_trace := tr\<rparr>)"
    by blast
  have m: "(advance_pair e ^^ Suc n) (sy_stage s d, sy_world s) = advance e st w" using n by simp
  show ?case
  proof (cases "transferring st")
    case True
    from worker_step.running [of "s\<lparr>sy_world := w, sy_stage := (sy_stage s)(d := st), sy_trace := tr\<rparr>" d j e] True j
    have "worker_step e (s\<lparr>sy_world := w, sy_stage := (sy_stage s)(d := st), sy_trace := tr\<rparr>)
      (s\<lparr>sy_world := snd (advance e st w), sy_stage := (sy_stage s)(d := fst (advance e st w)),
         sy_trace := tr(tj_request_id j := tr (tj_request_id j) @ [(st, w, snd (advance e st w))])\<rparr>)"
      by (simp add: run_job_def case_prod_beta Let_def)
    from steps.steps_step [OF s1 this] show ?thesis unfolding m by blast
  next
    case False
    then have "advance e st w = (st, w)" by (cases st) simp_all
    with s1 show ?thesis unfolding m by (simp only: fst_conv snd_conv) blast
  qed
qed

text \<open>A job, from its receipt to its end.\<close>

lemma job_alone:
  assumes "sy_stage s d = Taken j" and "map_of (mgr_queues (sy_mgr s)) d = Some q"
    and "w = processOne e (sy_mgr s) j (sy_world s)"
  shows "\<exists>tr. steps (worker_step e) s
    (s\<lparr>sy_mgr := set_queue d (q\<lparr>aq_lastDone := w_now w\<rparr>) (sy_mgr s), sy_world := w,
       sy_stage := (sy_stage s)(d := Idle), sy_trace := tr\<rparr>)"
proof -
  let ?ctx = "with_timeout None (w_now (sy_world s)) (mgr_procTimeout (sy_mgr s))"
  let ?s1 = "mark_job e d j s"
  obtain r w2 where p: "ProcessTransferReward e ?ctx (tj_input j) (snd (mark_processing e ?ctx j (sy_world s))) = (r, w2)"
    by fastforce
  have st1: "sy_stage ?s1 d = Marked j ?ctx" "sy_world ?s1 = snd (mark_processing e ?ctx j (sy_world s))"
    by (simp_all add: mark_job_def Let_def)
  have "(advance_pair e ^^ 5) (sy_stage ?s1 d, sy_world ?s1) = (Ran j ?ctx r, w2)"
    by (simp add: st1 advance_transfer p)
  with advance_steps [of ?s1 d j e 5] st1 obtain tr where
    t: "steps (worker_step e) ?s1 (?s1\<lparr>sy_world := w2, sy_stage := (sy_stage ?s1)(d := Ran j ?ctx r), sy_trace := tr\<rparr>)"
    by auto
  let ?s2 = "?s1\<lparr>sy_world := w2, sy_stage := (sy_stage ?s1)(d := Ran j ?ctx r), sy_trace := tr\<rparr>"
  have mgr: "sy_mgr ?s2 = sy_mgr s" by (simp add: mark_job_def Let_def)
  have "worker_step e ?s2 (record_job e d q j ?ctx r ?s2)"
    using assms(2) by (intro worker_step.finish) (simp_all add: mgr)
  moreover have "steps (worker_step e) s ?s1" by (rule steps_one, rule worker_step.marking [OF assms(1)])
  ultimately have "steps (worker_step e) s (record_job e d q j ?ctx r ?s2)"
    using steps_trans [OF t] by (blast intro: steps.steps_step)
  moreover have "w = snd (record_outcome e ?ctx j r w2)"
    using assms(3) p by (simp add: processOne_def case_prod_beta Let_def)
  then have "record_job e d q j ?ctx r ?s2 = s\<lparr>sy_mgr := set_queue d (q\<lparr>aq_lastDone := w_now w\<rparr>) (sy_mgr s), sy_world := w,
       sy_stage := (sy_stage s)(d := Idle), sy_trace := tr\<rparr>"
    by (intro sys.equality) (simp_all add: record_job_def mark_job_def Let_def)
  ultimately show ?thesis by auto
qed

text \<open>A payout request, from its arrival to its answer.\<close>

lemma payout_alone:
  assumes "serve sv ctx header ep (sy_mgr s, sy_world s) = (rsp, m, w)" and "payout_body ep = Some body"
    and "sy_client s i = Away"
  shows "steps (sys_step sv) s (s\<lparr>sy_mgr := m, sy_world := w\<rparr>)"
proof (cases "RequireAuth (sv_lib sv) (sv_keys sv) [RoleOperator] header (w_now (sy_world s))")
  case (Inl r)
  with assms(1,2) have "m = sy_mgr s \<and> w = sy_world s"
    by (cases ep; cases r) (auto simp: serve_def with_auth_def)
  then show ?thesis by (simp add: steps.steps_refl)
next
  case (Inr user)
  let ?e = "sv_env sv"
  let ?s1 = "persist_payout ?e ctx i body s"
  have s1: "steps (sys_step sv) s ?s1" by (rule steps_one, rule sys_step.payout [OF assms(2) Inr assms(3)])
  from assms(1,2) Inr obtain f where f: "request_transfer f ?e ctx body (sy_mgr s, sy_world s) = (rsp, m, w)"
    by (cases ep; cases user) (auto simp: serve_def with_auth_def handleTransferReward_def handleV1Payouts_request)
  show ?thesis
  proof (cases "persist_queued ?e ctx body (sy_world s)")
    case (Pair x w1)
    show ?thesis
    proof (cases x)
      case (Inl r)
      with f Pair have "?s1 = s\<lparr>sy_mgr := m, sy_world := w\<rparr>"
        by (intro sys.equality) (auto simp: request_transfer_def persist_payout_def)
      with s1 show ?thesis by simp
    next
      case (Inr y)
      obtain rid inp where y: "y = (rid, inp)" by fastforce
      obtain q m1 where q: "Enqueue (Some \<lparr>tj_request_id = rid, tj_input = inp, tj_enqueued_at = w_now w1\<rparr>) (sy_mgr s) = (q, m1)"
        by fastforce
      have c1: "?s1 = s\<lparr>sy_world := w1, sy_client := (sy_client s)(i := Stored ctx rid inp)\<rparr>"
        using Pair Inr y by (simp add: persist_payout_def)
      let ?s2 = "enqueue_payout i ctx rid inp ?s1"
      have s2: "steps (sys_step sv) s ?s2"
        by (rule steps.steps_step [OF s1 sys_step.enqueue]) (simp add: c1)
      have away: "(sy_client s)(i := Away) = sy_client s" using assms(3) by auto
      show ?thesis
      proof (cases q)
        case (Inl err)
        let ?s3 = "fail_payout ?e i ctx rid err ?s2"
        have "sys_step sv ?s2 ?s3" by (rule sys_step.refuse) (simp add: enqueue_payout_def c1 q Inl)
        with s2 have "steps (sys_step sv) s ?s3" by (rule steps.steps_step)
        moreover have "?s3 = s\<lparr>sy_mgr := m, sy_world := w\<rparr>"
          using f Pair Inr y q Inl away
          by (intro sys.equality) (auto simp: request_transfer_def enqueue_or_fail_def fail_payout_def enqueue_payout_def c1 Let_def)
        ultimately show ?thesis by simp
      next
        case (Inr z)
        have "?s2 = s\<lparr>sy_mgr := m, sy_world := w\<rparr>"
          using f Pair \<open>x = Inr y\<close> y q Inr away
          by (intro sys.equality) (auto simp: request_transfer_def enqueue_or_fail_def enqueue_payout_def c1)
        with s2 show ?thesis by simp
      qed
    qed
  qed
qed

section \<open>A deployment, as a run\<close>

text \<open>The deployment of \<open>Deployment\<close>: the request has been served, its job is queued, and then taken.\<close>

definition shop_start :: sys where
  "shop_start = \<lparr>sy_mgr = shop_manager, sy_world = shop_net 7003 2, sy_stage = \<lambda>_. Idle, sy_client = \<lambda>_. Away,
     sy_trace = \<lambda>_. []\<rparr>"

definition shop_posted :: sys where
  "shop_posted = shop_start\<lparr>sy_mgr := shop_queue [shop_job] 0, sy_world := shop_accepted\<rparr>"

definition shop_taken :: sys where
  "shop_taken = shop_posted\<lparr>sy_mgr := shop_queue [] 0, sy_stage := (\<lambda>_. Idle)(shop_did := Taken shop_job)\<rparr>"

definition shop_finished :: "(string \<Rightarrow> trace) \<Rightarrow> sys" where
  "shop_finished tr = shop_taken\<lparr>sy_mgr := shop_queue [] (w_now shop_done), sy_world := shop_done, sy_stage := \<lambda>_. Idle,
     sy_trace := tr\<rparr>"

lemmas shop_states = shop_start_def shop_posted_def shop_taken_def shop_finished_def

lemma shop_served:
  "serve shop_server None shop_token (PostRewardsTransfer (Inr shop_request)) (sy_mgr shop_start, sy_world shop_start) =
     (reply 202 (TransferRewardResponse ''u''), shop_queue [shop_job] 0, shop_accepted)"
  using shop_accepts by (simp add: shop_start_def)

lemma set_queue_twice: "set_queue d q (set_queue d q' m) = set_queue d q m"
proof -
  have "AList.update d q (AList.update d q' qs) = AList.update d q qs" for qs :: "(string \<times> adminQueue) list"
    by (induction qs) auto
  then show ?thesis by (simp add: set_queue_def)
qed

lemma shop_queue_of: "map_of (mgr_queues (shop_queue js t)) shop_did = Some \<lparr>aq_adminDID = shop_did, aq_ch = js, aq_lastDone = t\<rparr>"
  by (simp add: shop_queue_def)

lemma shop_take: "worker_step e shop_posted shop_taken"
  using worker_step.receive [of shop_posted shop_did, OF _ _ ] shop_queue_of [of "[shop_job]" 0]
  by (fastforce simp: shop_states take_job_def shop_queue_def set_queue_twice)

lemma shop_job_done: "processOne (demo_env (\<lambda>_. 10)) (sy_mgr shop_taken) shop_job (sy_world shop_taken) = shop_done"
proof -
  have ctx: "with_timeout None (w_now shop_accepted) (mgr_procTimeout (sy_mgr shop_taken)) = shop_ctx"
    by (simp add: shop_ctx_def shop_states shop_queue_def shop_accepted_def)
  have "sy_world shop_taken = shop_accepted" by (simp add: shop_states)
  with ctx show ?thesis
    by (simp add: processOne_def shop_done_def shop_result_def shop_ran_def shop_marked_def case_prod_beta Let_def)
qed

lemma shop_works: "\<exists>tr. steps (worker_step (demo_env (\<lambda>_. 10))) shop_taken (shop_finished tr)"
proof -
  let ?q = "\<lparr>aq_adminDID = shop_did, aq_ch = [], aq_lastDone = 0\<rparr>"
  have "sy_stage shop_taken shop_did = Taken shop_job" "map_of (mgr_queues (sy_mgr shop_taken)) shop_did = Some ?q"
    by (simp_all add: shop_states shop_queue_of)
  from job_alone [OF this refl, of "demo_env (\<lambda>_. 10)"] obtain tr where
    "steps (worker_step (demo_env (\<lambda>_. 10))) shop_taken
      (shop_taken\<lparr>sy_mgr := set_queue shop_did (?q\<lparr>aq_lastDone := w_now shop_done\<rparr>) (sy_mgr shop_taken), sy_world := shop_done,
         sy_stage := (sy_stage shop_taken)(shop_did := Idle), sy_trace := tr\<rparr>)"
    unfolding shop_job_done by blast
  moreover have "shop_taken\<lparr>sy_mgr := set_queue shop_did (?q\<lparr>aq_lastDone := w_now shop_done\<rparr>) (sy_mgr shop_taken), sy_world := shop_done,
         sy_stage := (sy_stage shop_taken)(shop_did := Idle), sy_trace := tr\<rparr> = shop_finished tr"
    by (intro sys.equality) (simp_all add: shop_states shop_queue_def set_queue_twice fun_eq_iff)
  ultimately show ?thesis by auto
qed

section \<open>Properties\<close>





end
