(* ===== verification/System.thy ===== *)
theory System
  imports Steps
begin

text \<open>
  The ledger in the running system: who holds each payout, what every step does to its row, the
  invariant that follows, and the abstract life of a payout, \<open>life\<close>, which the system refines.
\<close>

section \<open>The life of a payout\<close>

definition status_of :: "'z dbworld_scheme \<Rightarrow> string \<Rightarrow> string option" where
  "status_of w rid = map_option tr_status (transfer_of w rid)"

definition statuses :: "string set" where
  "statuses = {StatusQueued, StatusProcessing, StatusSuccess, StatusFailed}"

definition sys_init :: "server \<Rightarrow> sys \<Rightarrow> bool" where
  "sys_init sv s \<longleftrightarrow>
     (\<exists>b w0. start b w0 = Inr (sv, sy_mgr s, sy_world s) \<and> registry_ok w0 \<and> ran (status_of w0) \<subseteq> statuses) \<and>
     sy_stage s = (\<lambda>_. Idle) \<and> sy_client s = (\<lambda>_. Away) \<and> sy_trace s = (\<lambda>_. [])"

text \<open>The abstract machine: accepted, begun, and then paid or failed for good.\<close>

inductive life :: "string option \<Rightarrow> string option \<Rightarrow> bool" where
  accept: "life None (Some StatusQueued)"
| started: "life (Some StatusQueued) (Some StatusProcessing)"
| pay: "st \<in> {StatusQueued, StatusProcessing} \<Longrightarrow> life (Some st) (Some StatusSuccess)"
| fail: "st \<in> {StatusQueued, StatusProcessing} \<Longrightarrow> life (Some st) (Some StatusFailed)"

inductive_cases life_finalE: "life (Some ''success'') x" "life (Some ''failed'') x"

section \<open>Who holds a payout\<close>

text \<open>
  A payout on its way is held by the handler that has stored it, or by the worker that has taken its
  job or will take it from its queue: \<open>in_flight\<close>, oldest first.
\<close>

datatype holder = Worker string | Client nat

definition in_flight :: "sys \<Rightarrow> string \<Rightarrow> TransferJob list" where
  "in_flight s d = stage_jobs (sy_stage s d) @ queue_of (sy_mgr s) d"

fun client_ids :: "client \<Rightarrow> string list" where
  "client_ids Away = []"
| "client_ids (Stored _ rid _) = [rid]"
| "client_ids (Refused _ rid _) = [rid]"

fun held :: "sys \<Rightarrow> holder \<Rightarrow> string list" where
  "held s (Worker d) = map tj_request_id (in_flight s d)"
| "held s (Client i) = client_ids (sy_client s i)"

lemma held_cong:
  "sy_stage t = sy_stage s \<Longrightarrow> sy_client t = sy_client s \<Longrightarrow> queue_of (sy_mgr t) = queue_of (sy_mgr s) \<Longrightarrow> held t = held s"
proof
  fix k assume "sy_stage t = sy_stage s" "sy_client t = sy_client s" "queue_of (sy_mgr t) = queue_of (sy_mgr s)"
  then show "held t k = held s k" by (cases k) (simp_all add: in_flight_def)
qed

lemma held_world [simp]: "held (s\<lparr>sy_world := w\<rparr>) = held s"
  by (rule held_cong) simp_all

text \<open>
  The invariant, over the ids each holder has (\<open>F\<close>) and the ledger's statuses (\<open>S\<close>): one holder for
  each id, and what is held is queued or processing.
\<close>

definition valid_statuses :: "(string \<Rightarrow> string option) \<Rightarrow> bool" where
  "valid_statuses S \<longleftrightarrow> ran S \<subseteq> statuses"

definition flights_ok :: "('k \<Rightarrow> string list) \<Rightarrow> (string \<Rightarrow> string option) \<Rightarrow> bool" where
  "flights_ok F S \<longleftrightarrow>
     (\<forall>k. distinct (F k)) \<and> (\<forall>k k' rid. rid \<in> set (F k) \<and> rid \<in> set (F k') \<longrightarrow> k = k') \<and>
     (\<forall>k. \<forall>rid \<in> set (F k). S rid \<in> {Some StatusQueued, Some StatusProcessing})"

definition sys_ok :: "sys \<Rightarrow> bool" where
  "sys_ok s \<longleftrightarrow>
     mgr_ok (sy_mgr s) \<and> valid_statuses (status_of (sy_world s)) \<and> flights_ok (held s) (status_of (sy_world s))"

lemma valid_statuses_upd: "valid_statuses S \<Longrightarrow> st \<in> statuses \<Longrightarrow> valid_statuses (S(rid := Some st))"
  by (auto simp: valid_statuses_def ran_def)

lemma flights_okD:
  assumes "flights_ok F S"
  shows "distinct (F k)" and "rid \<in> set (F k) \<Longrightarrow> rid \<in> set (F k') \<Longrightarrow> k' = k"
    and "rid \<in> set (F k) \<Longrightarrow> S rid \<in> {Some StatusQueued, Some StatusProcessing}"
  using assms unfolding flights_ok_def by blast+

lemma flights_okI:
  assumes "\<And>k. distinct (F k)" and "\<And>k k' rid. rid \<in> set (F k) \<Longrightarrow> rid \<in> set (F k') \<Longrightarrow> k' = k"
    and "\<And>k rid. rid \<in> set (F k) \<Longrightarrow> S rid \<in> {Some StatusQueued, Some StatusProcessing}"
  shows "flights_ok F S"
  using assms unfolding flights_ok_def by blast

lemma flights_absent: "flights_ok F S \<Longrightarrow> S rid = None \<Longrightarrow> rid \<notin> set (F k)"
  using flights_okD(3) by fastforce

lemma flights_accept:
  assumes "flights_ok F S" and "S rid = None" and "F k = []"
  shows "flights_ok (F(k := [rid])) (S(rid := Some StatusQueued))"
proof -
  note out = flights_absent [OF assms(1,2)] and ok = flights_okD [OF assms(1)]
  show ?thesis
  proof (rule flights_okI)
    show "distinct ((F(k := [rid])) k')" for k' using ok(1) by simp
    show "k2 = k1" if "r \<in> set ((F(k := [rid])) k1)" "r \<in> set ((F(k := [rid])) k2)" for k1 k2 r
      using that ok(2) out by (auto split: if_splits)
    show "(S(rid := Some StatusQueued)) r \<in> {Some StatusQueued, Some StatusProcessing}"
      if "r \<in> set ((F(k := [rid])) k')" for k' r
      using that ok(3) by (auto split: if_splits)
  qed
qed

lemma flights_move:
  assumes "flights_ok F S" and "F k = [rid]" and "k' \<noteq> k"
  shows "flights_ok (F(k := [], k' := F k' @ [rid])) S"
proof -
  note ok = flights_okD [OF assms(1)]
  have out: "rid \<in> set (F x) \<longleftrightarrow> x = k" for x using ok(2) [of rid k x] assms(2) by auto
  show ?thesis
  proof (rule flights_okI)
    show "distinct ((F(k := [], k' := F k' @ [rid])) x)" for x using ok(1) out assms(3) by simp
    show "k2 = k1" if "r \<in> set ((F(k := [], k' := F k' @ [rid])) k1)" "r \<in> set ((F(k := [], k' := F k' @ [rid])) k2)" for k1 k2 r
      using that ok(2) out by (auto split: if_splits)
    show "S r \<in> {Some StatusQueued, Some StatusProcessing}" if "r \<in> set ((F(k := [], k' := F k' @ [rid])) x)" for x r
      using that ok(3) [of r] ok(3) [of rid k] assms(2) by (auto split: if_splits)
  qed
qed

lemma flights_mark: "flights_ok F S \<Longrightarrow> flights_ok F (S(rid := Some StatusProcessing))"
  by (auto simp: flights_ok_def)

lemma flights_done:
  assumes "flights_ok F S" and "F k = rid # rids" and "S' = S \<or> S' = S(rid := Some st)"
  shows "flights_ok (F(k := rids)) S'"
proof -
  note ok = flights_okD [OF assms(1)]
  have sub: "r \<in> set ((F(k := rids)) x) \<Longrightarrow> r \<in> set (F x) \<and> r \<noteq> rid" for r x
    using ok(1) [of k] ok(2) [of rid k] assms(2) by (auto split: if_splits)
  show ?thesis
  proof (rule flights_okI)
    show "distinct ((F(k := rids)) x)" for x using ok(1) [of k] ok(1) [of x] assms(2) by simp
    show "k2 = k1" if "r \<in> set ((F(k := rids)) k1)" "r \<in> set ((F(k := rids)) k2)" for k1 k2 r
      using that sub ok(2) by blast
    show "S' r \<in> {Some StatusQueued, Some StatusProcessing}" if "r \<in> set ((F(k := rids)) x)" for x r
      using sub [OF that] ok(3) [of r x] assms(3) by auto
  qed
qed

section \<open>What each step does to the ledger\<close>

lemma rows_ledger: "ledger w' = ledger w \<Longrightarrow> transfer_of w' = transfer_of w"
  by (simp add: transfer_of_def ledger_def fun_eq_iff)

lemma rows_db: "w_db w' = w_db w \<Longrightarrow> transfer_of w' = transfer_of w"
  by (simp add: transfer_of_def fun_eq_iff)

lemma status_rows: "transfer_of w' = transfer_of w \<Longrightarrow> status_of w' = status_of w"
  by (simp add: status_of_def fun_eq_iff)

lemma status_upd: "transfer_of w' = (transfer_of w)(rid \<mapsto> row) \<Longrightarrow> status_of w' = (status_of w)(rid := Some (tr_status row))"
  by (simp add: status_of_def fun_eq_iff)

lemma rows_tick [simp]: "transfer_of (w\<lparr>w_now := t\<rparr>) = transfer_of w"
  by (simp add: transfer_of_def fun_eq_iff)

text \<open>One update of one row.\<close>

lemma update_rows:
  assumes "UpdateTransferStatus e ctx rid us w = (r, w')" and "us \<noteq> []"
  shows "transfer_of w' = transfer_of w \<or>
    (\<exists>row. transfer_of w rid = Some row \<and> transfer_of w' = (transfer_of w)(rid \<mapsto> apply_updates us (w_now w) row))"
proof (cases "transfer_of w rid")
  case None
  have "transfer_of w' q = transfer_of w q" for q
  proof (cases r)
    case (Inl err)
    with assms show ?thesis by (metis UpdateTransferStatus_fail rows_db)
  next
    case (Inr u)
    with assms(1) have "UpdateTransferStatus e ctx rid us w = (Inr (), w')" by simp
    from UpdateTransferStatus_row [OF this assms(2), of q] None show ?thesis by auto
  qed
  then show ?thesis by (simp add: fun_eq_iff)
next
  case (Some row)
  have "transfer_of w' q = (if q = rid then Some (if r = Inr () then apply_updates us (w_now w) row else row) else transfer_of w q)" for q
    using UpdateTransferStatus_found [OF assms(1) Some assms(2)] UpdateTransferStatus_other [OF assms(1)] by simp
  then show ?thesis using Some by (cases "r = Inr ()") (auto simp: fun_eq_iff)
qed

lemma update_status:
  assumes "UpdateTransferStatus e ctx rid us w = (r, w')" and "us \<noteq> []" and "\<And>t x. tr_status (apply_updates us t x) = st"
  shows "status_of w' = status_of w \<or> status_of w' = (status_of w)(rid := Some st)"
  using update_rows [OF assms(1,2)]
proof (elim disjE exE conjE)
  fix row assume "transfer_of w' = (transfer_of w)(rid \<mapsto> apply_updates us (w_now w) row)"
  from status_upd [OF this] show ?thesis by (simp add: assms(3))
qed (rule disjI1, rule status_rows)

lemma mark_status:
  "status_of (snd (mark_processing e ctx j w)) = status_of w \<or>
   status_of (snd (mark_processing e ctx j w)) = (status_of w)(tj_request_id j := Some StatusProcessing)"
proof -
  obtain r w' where "UpdateTransferStatus e ctx (tj_request_id j) [(''status'', VStr StatusProcessing)] w = (r, w')" by fastforce
  from update_status [OF this, of StatusProcessing] this show ?thesis by (simp add: mark_processing_def)
qed

lemma record_status:
  "status_of (snd (record_outcome e ctx j r w)) = status_of w \<or>
   status_of (snd (record_outcome e ctx j r w)) =
     (status_of w)(tj_request_id j := Some (case r of Inl _ \<Rightarrow> StatusFailed | Inr _ \<Rightarrow> StatusSuccess))"
proof -
  obtain us where us: "record_outcome e ctx j r w = UpdateTransferStatus e ctx (tj_request_id j) us w" "us \<noteq> []"
    "us = (case r of Inl err \<Rightarrow> failure_updates err
           | Inr res \<Rightarrow> success_updates (cfg_FTName (app_env (w_cfg w))) j res)"
    by (rule record_outcome_update)
  obtain q w' where u: "UpdateTransferStatus e ctx (tj_request_id j) us w = (q, w')" by fastforce
  from update_status [OF u us(2), of "case r of Inl _ \<Rightarrow> StatusFailed | Inr _ \<Rightarrow> StatusSuccess"] u us(1,3)
  show ?thesis by (cases r) simp_all
qed

lemma not_enqueued_status [simp]:
  "not_enqueued_updates err \<noteq> []" "tr_status (apply_updates (not_enqueued_updates err) t x) = StatusFailed"
  by (simp_all add: not_enqueued_updates_def apply_updates_def)

text \<open>A statement of a transfer, and a request that is not a payout, leave the ledger alone.\<close>

lemma advance_rows [simp]: "transfer_of (snd (advance e st w)) = transfer_of w"
  using same_ledger.advance_keeps [of w "ledger w" e st] by (intro rows_ledger) simp

lemma request_keeps:
  assumes "payout_body ep = None" and "serve sv ctx header ep (m, w) = (rsp, m', w')"
  shows "m' = m" and "transfer_of w' = transfer_of w"
proof -
  have np: "\<not> is_payout ep" using assms(1) by (simp add: payout_body_is)
  consider (stopped) "m' = m" "w' = w" | (handled) u where "handle sv ctx u ep (m, w) = (rsp, m', w')"
    using assms(2) with_auth_cases [of "sv_lib sv" "sv_keys sv" "w_now w" header "[RoleOperator]" "\<lambda>u. handle sv ctx (Some u) ep" "(m, w)"]
    by (auto simp: serve_def split: if_splits)
  then have "m' = m \<and> ledger w' = ledger w"
  proof cases
    case (handled u)
    with same_ledger.handle_keeps(1) [OF np, of sv ctx u "(m, w)"]
      same_ledger.handle_keeps(2) [OF np, where s = "(m, w)" and sv = sv and ctx = ctx and u = u]
    show ?thesis by simp
  qed simp
  then show "m' = m" and "transfer_of w' = transfer_of w" using rows_ledger by auto
qed

text \<open>A payout's first step adds a queued row for its input, or nothing.\<close>

definition row_for :: "transfer_row \<Rightarrow> TransferRewardInput \<Rightarrow> bool" where
  "row_for row i \<longleftrightarrow> tr_admin_did row = Some (ti_admin_did i) \<and> tr_user_did row = Some (ti_user_did i) \<and>
     tr_activity_ids row = Some (ti_activity_ids i)"

lemma row_for_updates [simp]: "row_for (apply_updates us t row) i = row_for row i"
  by (simp add: row_for_def)

lemma row_for_insert: "ValidateTransferReward c (reward_input req) = None \<Longrightarrow>
    row_for (transfer_insert_row (queued_status rid req) t) (reward_input req)"
  using validated_admin [of c "reward_input req"]
  by (auto simp: row_for_def transfer_insert_row_def queued_status_def reward_input_def NULLIF_empty_def)

lemma persist_rows:
  assumes "persist_queued e ctx body w = (r, w')"
  obtains (unwritten) rsp where "r = Inl rsp" "transfer_of w' = transfer_of w"
  | (stored) rid inp row where "r = Inr (rid, inp)" "transfer_of w rid = None" "transfer_of w' = (transfer_of w)(rid \<mapsto> row)"
      "tr_status row = StatusQueued" "row_for row inp"
  using assms
proof (cases rule: persist_queued_cases)
  case (refused rsp)
  show ?thesis by (rule that(1) [OF refused(1)]) (simp add: refused(3))
next
  case (unstored rsp)
  show ?thesis by (rule that(1) [OF unstored(1)]) (rule rows_db [OF unstored(3)])
next
  case (stored rid req)
  let ?row = "transfer_insert_row (queued_status rid req) (w_now w)"
  have "transfer_of w' = (transfer_of w)(rid \<mapsto> ?row)"
    using stored_row [OF stored(4,5)] by (auto simp: fun_eq_iff)
  moreover have "tr_status ?row = StatusQueued" by (simp add: transfer_insert_row_def queued_status_def)
  ultimately show ?thesis using that(2) [OF stored(3,4)] row_for_insert [OF stored(2)] by blast
qed

section \<open>Every step keeps the invariant, and is a step of a payout's life\<close>

text \<open>Both at once, case by case: the invariant after the step, and the change of every status.\<close>

definition lives :: "sys \<Rightarrow> sys \<Rightarrow> bool" where
  "lives s t \<longleftrightarrow> (\<forall>rid. life\<^sup>*\<^sup>* (status_of (sy_world s) rid) (status_of (sy_world t) rid))"

lemma lives_same: "status_of (sy_world t) = status_of (sy_world s) \<Longrightarrow> lives s t"
  by (simp add: lives_def)

lemma lives_upd:
  "status_of (sy_world t) = (status_of (sy_world s))(rid := Some st) \<Longrightarrow>
     life (status_of (sy_world s) rid) (Some st) \<or> status_of (sy_world s) rid = Some st \<Longrightarrow> lives s t"
  by (auto simp: lives_def)

lemma sys_okD:
  assumes "sys_ok s"
  shows "mgr_ok (sy_mgr s)" and "valid_statuses (status_of (sy_world s))" and "flights_ok (held s) (status_of (sy_world s))"
  using assms by (simp_all add: sys_ok_def)

text \<open>A step that leaves the rows and everyone's payouts.\<close>

lemma ok_unchanged:
  assumes "sys_ok s" and "held t = held s" and "mgr_ok (sy_mgr t)" and "transfer_of (sy_world t) = transfer_of (sy_world s)"
  shows "sys_ok t \<and> lives s t"
  using assms status_rows [OF assms(4)] by (simp add: sys_ok_def lives_same)

text \<open>A step that ends or keeps a payout and sets its status, or could not write it.\<close>

lemma ok_settled:
  assumes ok: "sys_ok s" and h: "held s k = rid # rids" and t: "held t = (held s)(k := rids)" "mgr_ok (sy_mgr t)"
    and st: "st \<in> {StatusSuccess, StatusFailed}"
    and S: "status_of (sy_world t) = status_of (sy_world s) \<or> status_of (sy_world t) = (status_of (sy_world s))(rid := Some st)"
  shows "sys_ok t \<and> lives s t"
proof -
  note inv = sys_okD [OF ok]
  obtain st0 where st0: "status_of (sy_world s) rid = Some st0" "st0 \<in> {StatusQueued, StatusProcessing}"
    using flights_okD(3) [OF inv(3), of rid k] h by auto
  have "life (Some st0) (Some st)" using life.pay [OF st0(2)] life.fail [OF st0(2)] st by auto
  with st0(1) S have "lives s t" by (elim disjE) (erule lives_same, erule lives_upd, simp)
  moreover have "valid_statuses (status_of (sy_world t))"
    using S inv(2) valid_statuses_upd [OF inv(2), of st rid] st by (auto simp: statuses_def)
  ultimately show ?thesis using t flights_done [OF inv(3) h S] by (simp add: sys_ok_def)
qed

lemma queue_of_set: "queue_of (set_queue d q m) = (queue_of m)(d := aq_ch q)"
  by (simp add: queue_of_def fun_eq_iff)

lemma queue_of_some: "map_of (mgr_queues m) d = Some q \<Longrightarrow> queue_of m d = aq_ch q"
  by (simp add: queue_of_def)

lemma flight_queue_job: "mgr_ok m \<Longrightarrow> map_of (mgr_queues m) d = Some q \<Longrightarrow> queue_ok (nat (mgr_bufferSize m)) d q"
  by (simp add: mgr_ok_def)

lemma held_client:
  "sy_stage t = sy_stage s \<Longrightarrow> queue_of (sy_mgr t) = queue_of (sy_mgr s) \<Longrightarrow> sy_client t = (sy_client s)(i := c) \<Longrightarrow>
     held t = (held s)(Client i := client_ids c)"
proof
  fix k assume "sy_stage t = sy_stage s" "queue_of (sy_mgr t) = queue_of (sy_mgr s)" "sy_client t = (sy_client s)(i := c)"
  then show "held t k = ((held s)(Client i := client_ids c)) k" by (cases k) (simp_all add: in_flight_def)
qed

lemma held_worker:
  "sy_client t = sy_client s \<Longrightarrow> (\<And>x. x \<noteq> d \<Longrightarrow> in_flight t x = in_flight s x) \<Longrightarrow>
     held t = (held s)(Worker d := map tj_request_id (in_flight t d))"
proof
  fix k assume "sy_client t = sy_client s" "\<And>x. x \<noteq> d \<Longrightarrow> in_flight t x = in_flight s x"
  then show "held t k = ((held s)(Worker d := map tj_request_id (in_flight t d))) k" by (cases k) simp_all
qed

lemma persist_ok:
  assumes ok: "sys_ok s" and c: "sy_client s i = Away"
  shows "sys_ok (persist_payout e ctx i body s) \<and> lives s (persist_payout e ctx i body s)"
proof -
  let ?t = "persist_payout e ctx i body s"
  note inv = sys_okD [OF ok]
  obtain r w where p: "persist_queued e ctx body (sy_world s) = (r, w)" by fastforce
  then show ?thesis
  proof (cases rule: persist_rows)
    case (unwritten rsp)
    then have t: "?t = s\<lparr>sy_world := w\<rparr>" using p by (simp add: persist_payout_def)
    show ?thesis by (rule ok_unchanged [OF ok]) (simp_all add: t inv unwritten(2))
  next
    case (stored rid inp row)
    have t: "sy_world ?t = w" "sy_mgr ?t = sy_mgr s" "sy_stage ?t = sy_stage s"
      "sy_client ?t = (sy_client s)(i := Stored ctx rid inp)"
      using p stored(1) by (simp_all add: persist_payout_def)
    have S: "status_of w = (status_of (sy_world s))(rid := Some StatusQueued)" and S0: "status_of (sy_world s) rid = None"
      using status_upd [OF stored(3)] stored(2,4) by (simp_all add: status_of_def)
    have "held ?t = (held s)(Client i := [rid])" using held_client [OF t(3) _ t(4)] t(2) by simp
    with flights_accept [where F = "held s" and k = "Client i", OF inv(3) S0] valid_statuses_upd [OF inv(2)] inv(1) c t(1,2) S S0
      life.accept show ?thesis
      by (auto simp: sys_ok_def statuses_def intro: lives_upd)
  qed
qed

lemma enqueue_ok:
  assumes ok: "sys_ok s" and c: "sy_client s i = Stored ctx rid inp"
  shows "sys_ok (enqueue_payout i ctx rid inp s) \<and> lives s (enqueue_payout i ctx rid inp s)"
proof -
  let ?t = "enqueue_payout i ctx rid inp s" and ?job = "\<lparr>tj_request_id = rid, tj_input = inp, tj_enqueued_at = w_now (sy_world s)\<rparr>"
  note inv = sys_okD [OF ok]
  obtain r m where q: "Enqueue (Some ?job) (sy_mgr s) = (r, m)" by fastforce
  have refused: ?thesis if "r = Inl err" "queue_of m = queue_of (sy_mgr s)" "mgr_ok m" for err
  proof -
    have t: "?t = s\<lparr>sy_mgr := m, sy_client := (sy_client s)(i := Refused ctx rid err)\<rparr>" using q that by (simp add: enqueue_payout_def)
    have "held ?t = (held s)(Client i := [rid])" using held_client [of ?t s i "Refused ctx rid err"] that(2) by (simp add: t)
    then have "held ?t = held s" using c by (auto simp: fun_eq_iff)
    then show ?thesis by (rule ok_unchanged [OF ok]) (simp_all add: t that)
  qed
  from q inv(1) show ?thesis
  proof (cases rule: Enqueue_cases)
    case (missing msg)
    with refused inv(1) show ?thesis by simp
  next
    case (full err)
    with refused show ?thesis by blast
  next
    case (accepted q')
    let ?d = "job_admin ?job"
    have t: "?t = s\<lparr>sy_mgr := m, sy_client := (sy_client s)(i := Away)\<rparr>" using q accepted(2) by (simp add: enqueue_payout_def)
    have h: "held ?t = (held s)(Client i := [], Worker ?d := held s (Worker ?d) @ [rid])"
    proof
      show "held ?t k = ((held s)(Client i := [], Worker ?d := held s (Worker ?d) @ [rid])) k" for k
        by (cases k) (simp_all add: t in_flight_def accepted(5))
    qed
    have "flights_ok (held ?t) (status_of (sy_world s))"
      unfolding h by (rule flights_move [OF inv(3)]) (simp_all add: c)
    then show ?thesis using inv accepted(3) by (simp add: sys_ok_def t lives_def)
  qed
qed

lemma fail_ok:
  assumes ok: "sys_ok s" and c: "sy_client s i = Refused ctx rid err"
  shows "sys_ok (fail_payout e i ctx rid err s) \<and> lives s (fail_payout e i ctx rid err s)"
proof (rule ok_settled [OF ok])
  let ?t = "fail_payout e i ctx rid err s"
  show "held s (Client i) = rid # []" using c by simp
  show "held ?t = (held s)(Client i := [])" using held_client [of ?t s i Away] by (simp add: fail_payout_def)
  show "mgr_ok (sy_mgr ?t)" using sys_okD(1) [OF ok] by (simp add: fail_payout_def)
  show "StatusFailed \<in> {StatusSuccess, StatusFailed}" by simp
  obtain r w where "UpdateTransferStatus e ctx rid (not_enqueued_updates err) (sy_world s) = (r, w)" by fastforce
  from update_status [OF this not_enqueued_status] this
  show "status_of (sy_world ?t) = status_of (sy_world s) \<or>
      status_of (sy_world ?t) = (status_of (sy_world s))(rid := Some StatusFailed)" by (simp add: fail_payout_def)
qed

lemma take_ok:
  assumes ok: "sys_ok s" and q: "map_of (mgr_queues (sy_mgr s)) d = Some q" and idle: "sy_stage s d = Idle"
    and rcv: "chan_recv (aq_ch q) = Some (j, rest)"
  shows "sys_ok (take_job d q j rest s) \<and> lives s (take_job d q j rest s)"
proof (rule ok_unchanged [OF ok])
  let ?t = "take_job d q j rest s"
  have ch: "aq_ch q = j # rest" using rcv by (cases "aq_ch q") auto
  show "held ?t = held s"
  proof
    show "held ?t k = held s k" for k
      using idle queue_of_some [OF q] by (cases k) (auto simp: in_flight_def take_job_def queue_of_set ch)
  qed
  show "mgr_ok (sy_mgr ?t)"
    using flight_queue_job [OF sys_okD(1) [OF ok] q] sys_okD(1) [OF ok]
    by (auto intro!: mgr_ok_set_queue simp: queue_ok_def ch take_job_def)
qed (simp add: take_job_def)

lemma held_stage:
  assumes "sy_client t = sy_client s" and "sy_mgr t = sy_mgr s" and "sy_stage t = (sy_stage s)(d := st)"
    and "stage_jobs st = stage_jobs (sy_stage s d)"
  shows "held t = held s"
proof
  show "held t k = held s k" for k using assms by (cases k) (simp_all add: in_flight_def)
qed

lemma mark_ok:
  assumes ok: "sys_ok s" and st: "sy_stage s d = Taken j"
  shows "sys_ok (mark_job e d j s) \<and> lives s (mark_job e d j s)"
proof -
  let ?t = "mark_job e d j s" and ?rid = "tj_request_id j" and ?S = "status_of (sy_world s)"
  note inv = sys_okD [OF ok]
  have h: "held ?t = held s"
    by (rule held_stage [of _ _ d "Marked j (with_timeout None (w_now (sy_world s)) (mgr_procTimeout (sy_mgr s)))"])
      (simp_all add: mark_job_def Let_def st)
  have m: "sy_mgr ?t = sy_mgr s" by (simp add: mark_job_def Let_def)
  have "?rid \<in> set (held s (Worker d))" using st by (simp add: in_flight_def)
  then have "?S ?rid \<in> {Some StatusQueued, Some StatusProcessing}" by (rule flights_okD(3) [OF inv(3)])
  then have life: "life (?S ?rid) (Some StatusProcessing) \<or> ?S ?rid = Some StatusProcessing" using life.started by auto
  have "status_of (sy_world ?t) = ?S \<or> status_of (sy_world ?t) = ?S(?rid := Some StatusProcessing)"
    using mark_status by (simp add: mark_job_def Let_def)
  then show ?thesis
  proof
    assume "status_of (sy_world ?t) = ?S"
    with inv h m show ?thesis by (simp add: sys_ok_def lives_same)
  next
    assume S: "status_of (sy_world ?t) = ?S(?rid := Some StatusProcessing)"
    with inv h m flights_mark [OF inv(3)] valid_statuses_upd [OF inv(2)] lives_upd [OF S life]
    show ?thesis by (simp add: sys_ok_def statuses_def)
  qed
qed

lemma run_ok:
  assumes ok: "sys_ok s"
  shows "sys_ok (run_job e d j s) \<and> lives s (run_job e d j s)"
proof (rule ok_unchanged [OF ok])
  let ?t = "run_job e d j s"
  show "held ?t = held s"
    by (rule held_stage [of _ _ d "fst (advance e (sy_stage s d) (sy_world s))"]) (simp_all add: run_job_def case_prod_beta Let_def)
qed (use sys_okD(1) [OF ok] in \<open>simp_all add: run_job_def case_prod_beta Let_def\<close>)

lemma record_ok:
  assumes ok: "sys_ok s" and st: "sy_stage s d = Ran j ctx r" and q: "map_of (mgr_queues (sy_mgr s)) d = Some q"
  shows "sys_ok (record_job e d q j ctx r s) \<and> lives s (record_job e d q j ctx r s)"
proof (rule ok_settled [OF ok])
  let ?t = "record_job e d q j ctx r s"
  show "held s (Worker d) = tj_request_id j # map tj_request_id (queue_of (sy_mgr s) d)" using st by (simp add: in_flight_def)
  show "held ?t = (held s)(Worker d := map tj_request_id (queue_of (sy_mgr s) d))"
    using held_worker [of ?t s d] queue_of_some [OF q] by (simp add: record_job_def Let_def in_flight_def queue_of_set)
  show "mgr_ok (sy_mgr ?t)"
    using flight_queue_job [OF sys_okD(1) [OF ok] q] sys_okD(1) [OF ok]
    by (auto simp: record_job_def Let_def queue_ok_def intro!: mgr_ok_set_queue)
  show "(case r of Inl _ \<Rightarrow> StatusFailed | Inr _ \<Rightarrow> StatusSuccess) \<in> {StatusSuccess, StatusFailed}" by (cases r) simp_all
  show "status_of (sy_world ?t) = status_of (sy_world s) \<or>
      status_of (sy_world ?t) = (status_of (sy_world s))
        (tj_request_id j := Some (case r of Inl _ \<Rightarrow> StatusFailed | Inr _ \<Rightarrow> StatusSuccess))"
    using record_status [of e ctx j r "sy_world s"] by (simp add: record_job_def Let_def)
qed

lemma worker_step_ok: "worker_step e s t \<Longrightarrow> sys_ok s \<Longrightarrow> sys_ok t \<and> lives s t"
  by (induction rule: worker_step.induct) (rule take_ok mark_ok run_ok record_ok; assumption)+

lemma sys_step_ok: "sys_step sv s t \<Longrightarrow> sys_ok s \<Longrightarrow> sys_ok t \<and> lives s t"
proof (induction rule: sys_step.induct)
  case (request ep ctx header s rsp m w)
  note r = request_keeps [OF request(1,2)]
  then have t: "s\<lparr>sy_mgr := m, sy_world := w\<rparr> = s\<lparr>sy_world := w\<rparr>" by simp
  show ?case
    unfolding t by (rule ok_unchanged [OF request(3)]) (use r sys_okD(1) [OF request(3)] in simp_all)
next
  case (tick s t)
  show ?case by (rule ok_unchanged [OF tick(2)]) (use sys_okD(1) [OF tick(2)] in simp_all)
next
  case (payout ep body header s user i ctx)
  then show ?case by (intro persist_ok)
qed (rule enqueue_ok fail_ok worker_step_ok; assumption)+

section \<open>Workers end what they started\<close>

text \<open>An admin whose worker is busy has a queue; requests only add queues.\<close>

definition known :: "Manager \<Rightarrow> string set" where
  "known m = dom (map_of (mgr_queues m))"

definition busy_known :: "sys \<Rightarrow> bool" where
  "busy_known s \<longleftrightarrow> (\<forall>d. sy_stage s d \<noteq> Idle \<longrightarrow> d \<in> known (sy_mgr s))"

lemma known_set_queue [simp]: "known (set_queue d q m) = insert d (known m)"
  by (simp add: known_def)

lemma Enqueue_known: "known m \<subseteq> known (snd (Enqueue job m))"
proof -
  have "known m \<subseteq> known (snd (getOrCreate d m))" for d
    by (auto simp: getOrCreate_def Let_def split: option.split)
  then show ?thesis
    by (fastforce simp: Enqueue_def Let_def case_prod_beta split: option.split)
qed

lemma worker_step_known: "worker_step e s t \<Longrightarrow> busy_known s \<Longrightarrow> busy_known t"
proof (induction rule: worker_step.induct)
  case (running s d j)
  then show ?case by (cases "sy_stage s d") (auto simp: busy_known_def run_job_def Let_def case_prod_beta)
qed (auto simp: busy_known_def take_job_def mark_job_def record_job_def Let_def case_prod_beta known_def)

lemma sys_step_known: "sys_step sv s t \<Longrightarrow> busy_known s \<Longrightarrow> busy_known t"
proof (induction rule: sys_step.induct)
  case (request ep ctx header s rsp m w)
  then show ?case using request_keeps(1) [OF request(1,2)] by (simp add: busy_known_def)
next
  case (payout ep body header s user i ctx)
  then show ?case by (simp add: busy_known_def persist_payout_def split: prod.split sum.split)
next
  case (enqueue s i ctx rid inp)
  have "known (sy_mgr s) \<subseteq> known (sy_mgr (enqueue_payout i ctx rid inp s))"
    using Enqueue_known [of "sy_mgr s" "Some \<lparr>tj_request_id = rid, tj_input = inp, tj_enqueued_at = w_now (sy_world s)\<rparr>"]
    by (simp add: enqueue_payout_def case_prod_beta split: sum.split)
  moreover have "sy_stage (enqueue_payout i ctx rid inp s) = sy_stage s"
    by (simp add: enqueue_payout_def split: prod.split sum.split)
  ultimately show ?case using enqueue(2) by (auto simp: busy_known_def)
next
  case (work s t)
  then show ?case by (rule worker_step_known)
qed (simp_all add: busy_known_def fail_payout_def)

lemma sys_init_ok:
  assumes "sys_init sv s"
  shows "sys_ok s \<and> busy_known s" and "held s k = []"
proof -
  from assms obtain b w0 where st: "start b w0 = Inr (sv, sy_mgr s, sy_world s)" "registry_ok w0"
    "ran (status_of w0) \<subseteq> statuses" "sy_stage s = (\<lambda>_. Idle)" "sy_client s = (\<lambda>_. Away)"
    by (auto simp: sys_init_def)
  note r = start_ready [OF st(1,2)]
  have h: "held s k = []" for k using r(2) st(4,5) by (cases k) (simp_all add: in_flight_def queue_of_def)
  then show "held s k = []" .
  have "status_of (sy_world s) = status_of w0"
    using r(7) by (intro status_rows rows_ledger) (simp add: ledger_def)
  with h show "sys_ok s \<and> busy_known s"
    using r(1) st by (simp add: sys_ok_def valid_statuses_def flights_ok_def busy_known_def)
qed

text \<open>The abstract ledger starts anywhere; each of its payouts moves along its life, or stays.\<close>

definition ledger_step :: "(string \<Rightarrow> string option) \<Rightarrow> (string \<Rightarrow> string option) \<Rightarrow> bool" where
  "ledger_step S S' \<longleftrightarrow> (\<forall>rid. life\<^sup>*\<^sup>* (S rid) (S' rid))"

interpretation running: refinement "sys_init sv" "sys_step sv" "\<lambda>s. sys_ok s \<and> busy_known s"
  "\<lambda>s. status_of (sy_world s)" valid_statuses ledger_step for sv
proof unfold_locales
  show "sys_ok s \<and> busy_known s" and "valid_statuses (status_of (sy_world s))" if "sys_init sv s" for s
    using sys_init_ok(1) [OF that] by (simp_all add: sys_ok_def)
  show "sys_ok t \<and> busy_known t" and "ledger_step (status_of (sy_world s)) (status_of (sy_world t))"
    if "sys_ok s \<and> busy_known s" "sys_step sv s t" for s t
    using sys_step_ok [OF that(2)] sys_step_known [OF that(2)] that(1) by (simp_all add: lives_def ledger_step_def)
qed

text \<open>How many worker steps are left at most: eight for a queued job, and what its stage still needs for a taken one.\<close>

fun stage_left :: "stage \<Rightarrow> nat" where
  "stage_left Idle = 0"
| "stage_left (Taken _) = 7"
| "stage_left (Marked _ _) = 6"
| "stage_left (Resolved _ _ _) = 5"
| "stage_left (Priced _ _ _ _) = 4"
| "stage_left (Connected _ _ _ _ _ _) = 3"
| "stage_left (Posted _ _ _ _ _ _ _) = 2"
| "stage_left (Ran _ _ _) = 1"

definition admin_left :: "sys \<Rightarrow> string \<Rightarrow> nat" where
  "admin_left s d = stage_left (sy_stage s d) + 8 * length (queue_of (sy_mgr s) d)"

definition work_left :: "sys \<Rightarrow> nat" where
  "work_left s = (\<Sum>d \<in> known (sy_mgr s). admin_left s d)"

lemma advance_left: "transferring st \<Longrightarrow> stage_left (fst (advance e st w)) < stage_left st"
proof -
  have g: "stage_left (fst (go_on j ctx f g q)) < n" if "\<And>x. stage_left (g x) < n" "1 < n"
    for j ctx f and g :: "'b \<Rightarrow> stage" and q n
    using that by (cases q; cases "fst q") (auto simp: go_on_def)
  assume "transferring st"
  then show ?thesis by (cases st) (simp_all add: g split: prod.split)
qed

lemma known_finite [simp]: "finite (known m)"
  by (simp add: known_def finite_dom_map_of)

lemma work_left_drop:
  assumes "d \<in> known (sy_mgr s)" and "known (sy_mgr t) = known (sy_mgr s)" and "admin_left t d < admin_left s d"
    and "\<And>x. x \<noteq> d \<Longrightarrow> admin_left t x = admin_left s x"
  shows "work_left t < work_left s"
proof -
  have "(\<Sum>x \<in> known (sy_mgr s) - {d}. admin_left t x) = (\<Sum>x \<in> known (sy_mgr s) - {d}. admin_left s x)"
    using assms(4) by (intro sum.cong) auto
  then show ?thesis
    using assms(1-3) by (simp add: work_left_def sum.remove [of _ d])
qed

lemma worker_step_left: "worker_step e s t \<Longrightarrow> busy_known s \<Longrightarrow> work_left t < work_left s"
proof (induction rule: worker_step.induct)
  case (receive s d q j rest)
  then have "aq_ch q = j # rest" by (cases "aq_ch q") auto
  with receive show ?case
    by (intro work_left_drop [of d]) (auto simp: known_def admin_left_def take_job_def queue_of_set queue_of_some)
next
  case (marking s d j)
  then show ?case
    by (intro work_left_drop [of d]) (auto simp: busy_known_def admin_left_def mark_job_def Let_def)
next
  case (running s d j)
  then have "sy_stage s d \<noteq> Idle" by auto
  with running advance_left [OF running(1), of e "sy_world s"] show ?case
    by (intro work_left_drop [of d]) (auto simp: busy_known_def admin_left_def run_job_def Let_def case_prod_beta)
next
  case (finish s d j ctx r q)
  then show ?case
    by (intro work_left_drop [of d]) (auto simp: known_def admin_left_def record_job_def Let_def queue_of_set queue_of_some)
qed

lemma worker_steps_left: "(worker_step e ^^ n) s t \<Longrightarrow> busy_known s \<Longrightarrow> busy_known t \<and> work_left t + n \<le> work_left s"
proof (induction n arbitrary: t)
  case (Suc n)
  then obtain u where u: "(worker_step e ^^ n) s u" "worker_step e u t" by auto
  from Suc.IH [OF u(1) Suc.prems(2)] worker_step_left [OF u(2)] worker_step_known [OF u(2)] show ?case by auto
qed simp

lemma worker_step_exists:
  assumes "busy_known s" and "work_left s \<noteq> 0"
  shows "\<exists>t. worker_step e s t"
proof -
  obtain d where d: "d \<in> known (sy_mgr s)" "admin_left s d \<noteq> 0"
    using assms(2) by (auto simp: work_left_def)
  then obtain q where q: "map_of (mgr_queues (sy_mgr s)) d = Some q" by (auto simp: known_def)
  show ?thesis
  proof (cases "transferring (sy_stage s d)")
    case True
    then obtain j where "stage_jobs (sy_stage s d) = [j]" by (cases "sy_stage s d") auto
    with True worker_step.running show ?thesis by blast
  next
    case busy: False
    show ?thesis
    proof (cases "sy_stage s d")
      case Idle
      with d(2) obtain j rest where "aq_ch q = j # rest"
        by (cases "aq_ch q") (auto simp: admin_left_def queue_of_some [OF q])
      then have "chan_recv (aq_ch q) = Some (j, rest)" by simp
      from worker_step.receive [OF q Idle this] show ?thesis by blast
    qed (use busy in \<open>auto intro: worker_step.intros q\<close>)
  qed
qed

lemma worker_steps_exist: "busy_known s \<Longrightarrow> \<exists>n t. n \<le> work_left s \<and> (worker_step e ^^ n) s t \<and> work_left t = 0"
proof (induction "work_left s" arbitrary: s rule: less_induct)
  case less
  show ?case
  proof (cases "work_left s = 0")
    case True
    then show ?thesis by (intro exI [of _ 0] exI [of _ s]) simp
  next
    case False
    obtain u where u: "worker_step e s u" using worker_step_exists [OF less.prems False] by blast
    note dec = worker_step_left [OF u less.prems]
    from less.hyps [OF dec worker_step_known [OF u less.prems]] obtain n t where
      n: "n \<le> work_left u" "(worker_step e ^^ n) u t" "work_left t = 0" by blast
    have "(worker_step e ^^ Suc n) s t" by (rule relpowp_Suc_I2) (rule u, rule n(2))
    moreover have "Suc n \<le> work_left s" using n(1) dec by simp
    ultimately show ?thesis using n(3) by blast
  qed
qed

lemma nothing_left: "busy_known s \<Longrightarrow> work_left s = 0 \<Longrightarrow> in_flight s d = []"
proof -
  assume a: "busy_known s" "work_left s = 0"
  show ?thesis
  proof (cases "d \<in> known (sy_mgr s)")
    case True
    with a(2) have "admin_left s d = 0" by (simp add: work_left_def)
    then show ?thesis by (cases "sy_stage s d") (auto simp: admin_left_def in_flight_def)
  next
    case False
    with a(1) have "sy_stage s d = Idle" by (auto simp: busy_known_def)
    with False show ?thesis by (auto simp: in_flight_def known_def queue_of_def domIff)
  qed
qed

section \<open>The deployment\<close>

lemma shop_init: "sys_init shop_server shop_start"
proof -
  have "registry_ok shop_world" by (simp add: registry_ok_def shop_world_def shop_db_def demo_db_def contract_key_def activity_key_def)
  moreover have "ran (status_of shop_world) \<subseteq> statuses"
    by (auto simp: ran_def status_of_def transfer_of_def shop_world_def shop_db_def queued_row_def statuses_def split: if_splits)
  ultimately show ?thesis using shop_starts unfolding sys_init_def by (auto simp: shop_start_def)
qed

lemma steps_mono: "steps r s t \<Longrightarrow> (\<And>a b. r a b \<Longrightarrow> r' a b) \<Longrightarrow> steps r' s t"
  by (induction rule: steps.induct) (auto intro: steps.intros)

lemma shop_run:
  "steps (sys_step shop_server) shop_start shop_posted" "steps (sys_step shop_server) shop_posted shop_taken"
  "\<exists>tr. steps (sys_step shop_server) shop_taken (shop_finished tr)"
proof -
  have w: "worker_step (demo_env (\<lambda>_. 10)) s t \<Longrightarrow> sys_step shop_server s t" for s t
    by (simp add: shop_server_def sys_step.work)
  show "steps (sys_step shop_server) shop_start shop_posted"
    using payout_alone [OF shop_served, of "Inr shop_request" 0] by (simp add: shop_states)
  show "steps (sys_step shop_server) shop_posted shop_taken" by (rule steps_one, rule w, rule shop_take)
  show "\<exists>tr. steps (sys_step shop_server) shop_taken (shop_finished tr)" using shop_works steps_mono w by metis
qed

lemma shop_reach:
  "reach (sys_init shop_server) (sys_step shop_server) shop_posted"
  "reach (sys_init shop_server) (sys_step shop_server) shop_taken"
proof -
  have "reach (sys_init shop_server) (sys_step shop_server) shop_start" by (rule reach.reach_init) (rule shop_init)
  then show "reach (sys_init shop_server) (sys_step shop_server) shop_posted" by (rule reach_steps [OF shop_run(1)])
  then show "reach (sys_init shop_server) (sys_step shop_server) shop_taken" by (rule reach_steps [OF shop_run(2)])
qed

lemma shop_statuses:
  "status_of (sy_world shop_start) ''u'' = None" "status_of (sy_world shop_start) ''p'' = Some StatusSuccess"
  "status_of (sy_world shop_taken) ''u'' = Some StatusQueued" "status_of (sy_world (shop_finished tr)) ''u'' = Some StatusSuccess"
  using shop_pays shop_accepted_status
  by (simp_all add: shop_states status_of_def transfer_of_def shop_db_def queued_row_def)

section \<open>Properties\<close>

lemma life_final: "life\<^sup>*\<^sup>* a b \<Longrightarrow> a \<in> {Some StatusSuccess, Some StatusFailed} \<Longrightarrow> b = a"
  by (induction rule: rtranclp_induct) (auto elim: life_finalE)

lemma final_steps:
  "steps ledger_step S S' \<Longrightarrow> S rid \<in> {Some StatusSuccess, Some StatusFailed} \<Longrightarrow> S' rid = S rid"
proof (induction rule: steps.induct)
  case (steps_step S S' S'')
  then have S': "S' rid = S rid" and "ledger_step S' S''" by blast+
  then have "life\<^sup>*\<^sup>* (S rid) (S'' rid)" by (metis ledger_step_def)
  with steps_step.prems life_final show ?case by metis
qed simp

text \<open>
  Property C3: the system refines the life of a payout. Whatever step it takes from a state it can
  reach, a request to any route, a statement of a payout's handler or of any worker, or the passing of
  time, each payout's status moves as the abstract machine does or stays: from nothing to queued, to
  processing, and to success or failed, and never otherwise.
\<close>

theorem payouts_refine_life:
  assumes "reach (sys_init sv) (sys_step sv) s" and "sys_step sv s t"
  shows "life\<^sup>*\<^sup>* (status_of (sy_world s) rid) (status_of (sy_world t) rid)"
  using running.abs_step [OF running.inv_reach [OF assms(1)] assms(2)] by (simp add: ledger_step_def)

theorem payouts_refine_life_witness:
  "life\<^sup>*\<^sup>* (Some StatusQueued)
     (status_of (sy_world (mark_job (demo_env (\<lambda>_. 10)) shop_did shop_job shop_taken)) ''u'')"
proof -
  have "sys_step shop_server shop_taken (mark_job (demo_env (\<lambda>_. 10)) shop_did shop_job shop_taken)"
    using sys_step.work [of shop_server] worker_step.marking [of shop_taken shop_did shop_job "demo_env (\<lambda>_. 10)"]
    by (simp add: shop_server_def shop_states)
  from payouts_refine_life [OF shop_reach(2) this, of "''u''"] show ?thesis by (simp only: shop_statuses)
qed

text \<open>
  Property C4: a payout that succeeded or failed is final: no later request, of any kind, and no
  worker changes its status again.
\<close>

theorem finished_payout_is_final:
  assumes "reach (sys_init sv) (sys_step sv) s" and "steps (sys_step sv) s t"
    and "status_of (sy_world s) rid \<in> {Some StatusSuccess, Some StatusFailed}"
  shows "status_of (sy_world t) rid = status_of (sy_world s) rid"
  using final_steps [OF running.abs_steps [OF assms(2,1)] assms(3)] .

theorem finished_payout_is_final_witness: "status_of (sy_world shop_posted) ''p'' = Some StatusSuccess"
proof -
  have "reach (sys_init shop_server) (sys_step shop_server) shop_start" by (rule reach.reach_init) (rule shop_init)
  from finished_payout_is_final [OF this shop_run(1), of "''p''"] shop_statuses(2) show ?thesis by simp
qed

text \<open>
  Property C18: the workers end. From any reachable state, left to themselves, they can finish all jobs
  taken and queued in at most \<open>work_left\<close> steps (eight for a queued job), and no run of theirs is longer.
\<close>

theorem workers_drain:
  assumes "reach (sys_init sv) (sys_step sv) s"
  shows "(\<exists>n t. n \<le> work_left s \<and> (worker_step e ^^ n) s t \<and> (\<forall>d. in_flight t d = [])) \<and>
    (\<forall>n u. (worker_step e ^^ n) s u \<longrightarrow> n \<le> work_left s)"
proof -
  have b: "busy_known s" using running.inv_reach [OF assms] by blast
  obtain n t where t: "n \<le> work_left s" "(worker_step e ^^ n) s t" "work_left t = 0" using worker_steps_exist [OF b] by blast
  have "busy_known t" using worker_steps_left [OF t(2) b] by simp
  with t nothing_left worker_steps_left [OF _ b] show ?thesis by (meson add_leD2)
qed

theorem workers_drain_witness:
  "\<exists>n t. n \<le> 8 \<and> (worker_step (demo_env (\<lambda>_. 10)) ^^ n) shop_posted t \<and> in_flight t shop_did = []"
proof -
  have "work_left shop_posted = 8"
    by (simp add: work_left_def admin_left_def known_def shop_states shop_queue_def shop_known queue_of_def set_queue_def)
  with workers_drain [OF shop_reach(1), of "demo_env (\<lambda>_. 10)"] show ?thesis by metis
qed

end
