(* ===== verification/Settlement.thy ===== *)
theory Settlement
  imports System
begin

text \<open>
  What becomes of a payout in the running system: the statements of its transfer, under the
  interference of everything else, are those of one run; a row that says success was paid by it, as
  the row says; and a row that an earlier process left behind is never touched.
\<close>

section \<open>The run of one transfer\<close>

text \<open>
  The trace of a transfer that has come to a stage: each statement advanced it from the stage the last
  one left, in a world in which the client pool was in order and all its requests so far were on record.
\<close>

definition on_record_by :: "trace \<Rightarrow> networld \<Rightarrow> bool" where
  "on_record_by tr w \<longleftrightarrow> (\<forall>x \<in> set tr. prefix (w_sent (snd (snd x))) (w_sent w))"

inductive ran_to :: "env \<Rightarrow> stage \<Rightarrow> trace \<Rightarrow> bool" for e where
  start: "ran_to e (Marked j ctx) []"
| statement: "ran_to e st tr \<Longrightarrow> transferring st \<Longrightarrow> pool_ok w \<Longrightarrow> on_record_by tr w \<Longrightarrow> advance e st w = (st', w') \<Longrightarrow>
     ran_to e st' (tr @ [(st, w, w')])"

lemma on_record_append [simp]:
  "on_record_by (tr @ [x]) w \<longleftrightarrow> on_record_by tr w \<and> prefix (w_sent (snd (snd x))) (w_sent w)"
  by (auto simp: on_record_by_def)

lemma on_record_mono: "on_record_by tr w \<Longrightarrow> prefix (w_sent w) (w_sent w') \<Longrightarrow> on_record_by tr w'"
  unfolding on_record_by_def by (blast intro: prefix_order.trans)

text \<open>Each statement at most once: they come in the order of the code.\<close>

lemma advance_next: "transferring st \<Longrightarrow> advance e st w = (st', w') \<Longrightarrow> transferring st' \<Longrightarrow> Suc (stage_left st') = stage_left st"
  by (cases st) (auto simp: go_on_def split: prod.splits sum.splits if_splits)

lemma ran_to_order:
  "ran_to e st tr \<Longrightarrow> map (stage_left \<circ> fst) tr = map ((-) 6) [0..<length tr] \<and> (transferring st \<longrightarrow> stage_left st + length tr = 6)"
proof (induction rule: ran_to.induct)
  case (statement st tr w st' w')
  have "2 \<le> stage_left st" using statement(2) by (cases st) simp_all
  with statement advance_next [OF statement(2,5)] show ?case by auto
qed simp

fun sends_tx :: "stage \<Rightarrow> bool" where
  "sends_tx (Connected _ _ _ _ _ _) = True"
| "sends_tx _ = False"

lemma sends_tx_left: "sends_tx st \<Longrightarrow> stage_left st = 3"
  by (cases st) simp_all

lemma filter_once: "distinct (map f xs) \<Longrightarrow> (\<And>x. P x \<Longrightarrow> f x = c) \<Longrightarrow> length (filter P xs) \<le> 1"
proof (induction xs)
  case (Cons x xs)
  have "filter P xs = []" if "P x"
    using that Cons.prems by (force simp: filter_empty_conv)
  with Cons show ?case by simp
qed simp

lemma ran_to_once:
  assumes "ran_to e st tr"
  shows "length (filter (\<lambda>x. sends_tx (fst x)) tr) \<le> 1"
proof -
  have "distinct (map (stage_left \<circ> fst) tr)"
  proof -
    have n: "length tr \<le> 5"
      using assms
    proof (cases rule: ran_to.cases)
      case (statement st0 tr0 w w')
      then have "2 \<le> stage_left st0" "stage_left st0 + length tr0 = 6"
        using ran_to_order [OF statement(2)] by (cases st0; simp)+
      with statement show ?thesis by simp
    qed simp
    then have "inj_on ((-) 6) (set [0..<length tr])" by (auto simp: inj_on_def)
    then show ?thesis using ran_to_order [OF assms] by (simp add: distinct_map)
  qed
  then show ?thesis by (rule filter_once [where c = 3]) (metis comp_apply sends_tx_left)
qed

section \<open>A transfer that succeeded\<close>

text \<open>
  The statements of a run that paid, each in the world it found: the admin's contract, the sum of the
  activities, the admin's own node, the transaction for both, and the signature of the request it opened.
\<close>

definition paid :: "TransferJob \<Rightarrow> TransferRewardResult \<Rightarrow> trace \<Rightarrow> bool" where
  "paid j res tr \<longleftrightarrow>
     (\<exists>ctx c a q w0 w0' w1 w1' w2 w2' w3 w3' w4 w4'. let h = rr_contract_hash res; pts = rr_reward_points res in
        tr = [(Marked j ctx, w0, w0'), (Resolved j ctx h, w1, w1'), (Priced j ctx h pts, w2, w2'),
              (Connected j ctx h pts c a, w3, w3'), (Posted j ctx h pts c a q, w4, w4')] \<and>
        contract_of w0 (job_admin j) KindReward = Some h \<and>
        pts = points_for w1 (job_admin j) (ti_activity_ids (tj_input j)) \<and> 0 < pts \<and>
        AdminByDID (w_cfg w2) (job_admin j) = Some a \<and> c = NewClient (BaseURL a) (w_pool_timeout w2) \<and>
        w_sent w3' = w_sent w3 @ [tx_request c (transfer_tx (tj_input j) h pts)] \<and> q \<noteq> '''' \<and>
        w_sent w4' = w_sent w4 @ [sign_request c q (ac_password a)] \<and> prefix (w_sent w3') (w_sent w4))"

inductive_cases ran_to_RanE: "ran_to e (Ran j ctx r) tr"
inductive_cases ran_to_PostedE: "ran_to e (Posted j ctx h p c a q) tr"
inductive_cases ran_to_ConnectedE: "ran_to e (Connected j ctx h p c a) tr"
inductive_cases ran_to_PricedE: "ran_to e (Priced j ctx h p) tr"
inductive_cases ran_to_ResolvedE: "ran_to e (Resolved j ctx h) tr"
inductive_cases ran_to_MarkedE: "ran_to e (Marked j ctx) tr"

text \<open>Which statement leaves which stage.\<close>

lemma advance_inv:
  shows "advance e st w = (Ran j ctx (Inr res), w') \<Longrightarrow> transferring st \<Longrightarrow>
      \<exists>c a q sr. st = Posted j ctx (rr_contract_hash res) (rr_reward_points res) c a q \<and> Sign e ctx c q (ac_password a) w = (Inr sr, w')"
    and "advance e st w = (Posted j ctx h p c a q, w') \<Longrightarrow> transferring st \<Longrightarrow>
      st = Connected j ctx h p c a \<and> PostTx e ctx c (transfer_tx (tj_input j) h p) w = (Inr q, w')"
    and "advance e st w = (Connected j ctx h p c a, w') \<Longrightarrow> transferring st \<Longrightarrow>
      st = Priced j ctx h p \<and> ClientFor (job_admin j) w = (Inr (c, a), w')"
    and "advance e st w = (Priced j ctx h p, w') \<Longrightarrow> transferring st \<Longrightarrow> st = Resolved j ctx h \<and> 0 < p \<and>
      SumRewardPointsForActivities e ctx (job_admin j) (ti_activity_ids (tj_input j)) w = (Inr p, w')"
    and "advance e st w = (Resolved j ctx h, w') \<Longrightarrow> transferring st \<Longrightarrow>
      st = Marked j ctx \<and> GetAdminContract e ctx (job_admin j) KindReward w = (Inr h, w')"
    and "advance e st w = (Marked j ctx, w') \<Longrightarrow> \<not> transferring st \<or> st = Marked j ctx \<and> False"
  by (cases st; auto simp: go_on_def split: prod.splits sum.splits if_splits)+

lemma ran_to_paid:
  assumes "ran_to e (Ran j ctx (Inr res)) tr"
  shows "paid j res tr"
proof -
  let ?h = "rr_contract_hash res" and ?p = "rr_reward_points res"
  from assms obtain c a q sr t4 w4 w4' where 4: "ran_to e (Posted j ctx ?h ?p c a q) t4" "on_record_by t4 w4"
    "tr = t4 @ [(Posted j ctx ?h ?p c a q, w4, w4')]" "Sign e ctx c q (ac_password a) w4 = (Inr sr, w4')"
    by (rule ran_to_RanE) (auto dest: advance_inv(1))
  from 4(1) obtain t3 w3 w3' where 3: "ran_to e (Connected j ctx ?h ?p c a) t3"
    "t4 = t3 @ [(Connected j ctx ?h ?p c a, w3, w3')]" "PostTx e ctx c (transfer_tx (tj_input j) ?h ?p) w3 = (Inr q, w3')"
    by (rule ran_to_PostedE) (auto dest: advance_inv(2))
  from 3(1) obtain t2 w2 w2' where 2: "ran_to e (Priced j ctx ?h ?p) t2" "pool_ok w2"
    "t3 = t2 @ [(Priced j ctx ?h ?p, w2, w2')]" "ClientFor (job_admin j) w2 = (Inr (c, a), w2')"
    by (rule ran_to_ConnectedE) (auto dest: advance_inv(3))
  from 2(1) obtain t1 w1 w1' where 1: "ran_to e (Resolved j ctx ?h) t1" "0 < ?p" "t2 = t1 @ [(Resolved j ctx ?h, w1, w1')]"
    "SumRewardPointsForActivities e ctx (job_admin j) (ti_activity_ids (tj_input j)) w1 = (Inr ?p, w1')"
    by (rule ran_to_PricedE) (auto dest: advance_inv(4))
  from 1(1) obtain t0 w0 w0' where 0: "ran_to e (Marked j ctx) t0" "t1 = t0 @ [(Marked j ctx, w0, w0')]"
    "GetAdminContract e ctx (job_admin j) KindReward w0 = (Inr ?h, w0')"
    by (rule ran_to_ResolvedE) (auto dest: advance_inv(5))
  from 0(1) have "t0 = []" by (rule ran_to_MarkedE) (auto dest: advance_inv(6))
  with 0(2) 1(3) 2(3) 3(2) 4(3) have tr: "tr = [(Marked j ctx, w0, w0'), (Resolved j ctx ?h, w1, w1'), (Priced j ctx ?h ?p, w2, w2'),
      (Connected j ctx ?h ?p c a, w3, w3'), (Posted j ctx ?h ?p c a q, w4, w4')]" by simp
  have "prefix (w_sent w3') (w_sent w4)" using 4(2) 3(2) by simp
  with tr GetAdminContract_ok(4) [OF 0(3) refl] SumRewardPoints_ok(4) [OF 1(4) refl] 1(2) ClientFor_client [OF 2(4,2)]
    PostTx_ok [OF 3(3)] Sign_ok [OF 4(4)]
  show ?thesis unfolding paid_def Let_def by blast
qed

section \<open>The invariant\<close>

text \<open>A worker's trace fits its stage; one that has not begun has none.\<close>

fun stage_run :: "env \<Rightarrow> stage \<Rightarrow> trace \<Rightarrow> bool" where
  "stage_run e Idle tr = True"
| "stage_run e (Taken j) tr = (tr = [])"
| "stage_run e st tr = ran_to e st tr"

definition runs_sound :: "env \<Rightarrow> sys \<Rightarrow> bool" where
  "runs_sound e s \<longleftrightarrow>
     (\<forall>rid. \<exists>st. ran_to e st (sy_trace s rid)) \<and>
     (\<forall>rid. transfer_of (sy_world s) rid = None \<longrightarrow> sy_trace s rid = []) \<and>
     (\<forall>i. \<forall>rid \<in> set (client_ids (sy_client s i)). sy_trace s rid = []) \<and>
     (\<forall>d. \<forall>j \<in> set (queue_of (sy_mgr s) d). sy_trace s (tj_request_id j) = []) \<and>
     (\<forall>d j. stage_jobs (sy_stage s d) = [j] \<longrightarrow> stage_run e (sy_stage s d) (sy_trace s (tj_request_id j)))"

text \<open>What is held for a payout is what its row says.\<close>

fun client_inputs :: "client \<Rightarrow> (string \<times> TransferRewardInput) list" where
  "client_inputs (Stored _ rid inp) = [(rid, inp)]"
| "client_inputs _ = []"

definition inputs_held :: "sys \<Rightarrow> (string \<times> TransferRewardInput) set" where
  "inputs_held s = (\<Union>i. set (client_inputs (sy_client s i))) \<union>
     (\<Union>d. (\<lambda>j. (tj_request_id j, tj_input j)) ` set (in_flight s d))"

definition inputs_known :: "sys \<Rightarrow> bool" where
  "inputs_known s \<longleftrightarrow> (\<forall>(rid, inp) \<in> inputs_held s. \<exists>row. transfer_of (sy_world s) rid = Some row \<and> row_for row inp)"

text \<open>A success was paid; a row of the initial ledger \<open>T0\<close> is as it was, and nobody has it.\<close>

definition row_paid :: "trace \<Rightarrow> transfer_row \<Rightarrow> bool" where
  "row_paid tr row \<longleftrightarrow>
     (\<exists>j res. paid j res tr \<and> row_for row (tj_input j) \<and> tr_reward_points row = Some (rr_reward_points res) \<and>
        (rr_contract_hash res \<noteq> '''' \<longrightarrow> tr_contract_hash row = Some (rr_contract_hash res)))"

definition successes_paid :: "(string \<Rightarrow> transfer_row option) \<Rightarrow> sys \<Rightarrow> bool" where
  "successes_paid T0 s \<longleftrightarrow>
     (\<forall>rid row. transfer_of (sy_world s) rid = Some row \<longrightarrow> tr_status row = StatusSuccess \<longrightarrow> T0 rid = None \<longrightarrow>
        row_paid (sy_trace s rid) row)"

definition untouched :: "(string \<Rightarrow> transfer_row option) \<Rightarrow> sys \<Rightarrow> bool" where
  "untouched T0 s \<longleftrightarrow>
     (\<forall>rid row. T0 rid = Some row \<longrightarrow> transfer_of (sy_world s) rid = Some row \<and> sy_trace s rid = [] \<and>
        (\<forall>k. rid \<notin> set (held s k)))"

definition settled :: "env \<Rightarrow> (string \<Rightarrow> transfer_row option) \<Rightarrow> sys \<Rightarrow> bool" where
  "settled e T0 s \<longleftrightarrow>
     pool_ok (sy_world s) \<and> (\<forall>rid. on_record_by (sy_trace s rid) (sy_world s)) \<and>
     runs_sound e s \<and> inputs_known s \<and> successes_paid T0 s \<and> untouched T0 s"

lemma settledD:
  assumes "settled e T0 s"
  shows "pool_ok (sy_world s)" and "on_record_by (sy_trace s rid) (sy_world s)" and "runs_sound e s" and "inputs_known s"
    and "successes_paid T0 s" and "untouched T0 s"
  using assms by (simp_all add: settled_def)

lemma runs_soundD:
  assumes "runs_sound e s"
  shows "\<exists>st. ran_to e st (sy_trace s rid)" and "transfer_of (sy_world s) rid = None \<Longrightarrow> sy_trace s rid = []"
    and "rid \<in> set (client_ids (sy_client s i)) \<Longrightarrow> sy_trace s rid = []"
    and "j \<in> set (queue_of (sy_mgr s) d) \<Longrightarrow> sy_trace s (tj_request_id j) = []"
    and "stage_jobs (sy_stage s d) = [j] \<Longrightarrow> stage_run e (sy_stage s d) (sy_trace s (tj_request_id j))"
  using assms unfolding runs_sound_def by blast+

lemma runs_soundI:
  assumes "\<And>rid. \<exists>st. ran_to e st (sy_trace s rid)" and "\<And>rid. transfer_of (sy_world s) rid = None \<Longrightarrow> sy_trace s rid = []"
    and "\<And>i rid. rid \<in> set (client_ids (sy_client s i)) \<Longrightarrow> sy_trace s rid = []"
    and "\<And>d j. j \<in> set (queue_of (sy_mgr s) d) \<Longrightarrow> sy_trace s (tj_request_id j) = []"
    and "\<And>d j. stage_jobs (sy_stage s d) = [j] \<Longrightarrow> stage_run e (sy_stage s d) (sy_trace s (tj_request_id j))"
  shows "runs_sound e s"
  using assms unfolding runs_sound_def by blast

lemma inputs_knownD:
  "inputs_known s \<Longrightarrow> (rid, inp) \<in> inputs_held s \<Longrightarrow> \<exists>row. transfer_of (sy_world s) rid = Some row \<and> row_for row inp"
  unfolding inputs_known_def by blast

lemma inputs_held_client: "sy_client s i = Stored ctx rid inp \<Longrightarrow> (rid, inp) \<in> inputs_held s"
  unfolding inputs_held_def by (rule UnI1, rule UN_I [of i]) simp_all

lemma inputs_held_stage: "stage_jobs (sy_stage s d) = [j] \<Longrightarrow> (tj_request_id j, tj_input j) \<in> inputs_held s"
  unfolding inputs_held_def by (rule UnI2, rule UN_I [of d]) (simp_all add: in_flight_def)

section \<open>Every step keeps it\<close>

text \<open>
  What the steps of the ledger do to the last three parts: a step sees to one row at most, of a payout
  that is new or on its way, keeps what it was asked for, and lets the trace of no finished payout grow.
\<close>

definition row_step :: "string \<Rightarrow> sys \<Rightarrow> sys \<Rightarrow> bool" where
  "row_step rid s t \<longleftrightarrow>
     (\<forall>q. q \<noteq> rid \<longrightarrow> transfer_of (sy_world t) q = transfer_of (sy_world s) q \<and> sy_trace t q = sy_trace s q) \<and>
     (\<forall>row. transfer_of (sy_world s) rid = Some row \<longrightarrow>
        (\<exists>row'. transfer_of (sy_world t) rid = Some row' \<and> (\<forall>inp. row_for row inp \<longrightarrow> row_for row' inp))) \<and>
     (\<forall>k. set (held t k) \<subseteq> insert rid (\<Union>k. set (held s k)))"

lemma row_step_known:
  assumes "inputs_known s" and "row_step rid s t" and "inputs_held t \<subseteq> inputs_held s"
  shows "inputs_known t"
  unfolding inputs_known_def
proof clarify
  fix q inp assume "(q, inp) \<in> inputs_held t"
  with assms(3) obtain row where row: "transfer_of (sy_world s) q = Some row" "row_for row inp"
    using inputs_knownD [OF assms(1)] by blast
  show "\<exists>row. transfer_of (sy_world t) q = Some row \<and> row_for row inp"
    using row assms(2) by (cases "q = rid") (auto simp: row_step_def)
qed

lemma row_step_rest:
  assumes ok: "settled e T0 s" and "row_step rid s t" and new: "T0 rid = None"
    and success: "\<And>row. transfer_of (sy_world t) rid = Some row \<Longrightarrow> tr_status row = StatusSuccess \<Longrightarrow> row_paid (sy_trace t rid) row"
  shows "successes_paid T0 t" and "untouched T0 t"
proof -
  have other: "transfer_of (sy_world t) q = transfer_of (sy_world s) q" "sy_trace t q = sy_trace s q" if "q \<noteq> rid" for q
    using assms(2) that by (simp_all add: row_step_def)
  show "successes_paid T0 t"
    unfolding successes_paid_def
  proof (intro allI impI)
    fix q row assume a: "transfer_of (sy_world t) q = Some row" "tr_status row = StatusSuccess" "T0 q = None"
    show "row_paid (sy_trace t q) row"
      using a other [of q] success settledD(5) [OF ok] unfolding successes_paid_def by (cases "q = rid") auto
  qed
  show "untouched T0 t"
    unfolding untouched_def
  proof (intro allI impI)
    fix q row assume T0: "T0 q = Some row"
    with new have q: "q \<noteq> rid" by auto
    with T0 settledD(6) [OF ok] other [OF q] have "transfer_of (sy_world t) q = Some row" "sy_trace t q = []"
      "\<And>k. q \<notin> set (held s k)" by (simp_all add: untouched_def)
    moreover have "q \<notin> set (held t k)" for k using q calculation(3) assms(2) unfolding row_step_def by blast
    ultimately show "transfer_of (sy_world t) q = Some row \<and> sy_trace t q = [] \<and> (\<forall>k. q \<notin> set (held t k))" by blast
  qed
qed

text \<open>Someone's payout is not of the initial ledger, and has not succeeded.\<close>

lemma held_new: "settled e T0 s \<Longrightarrow> rid \<in> set (held s k) \<Longrightarrow> T0 rid = None"
  using settledD(6) unfolding untouched_def by (cases "T0 rid") blast+

lemma held_unfinished:
  "sys_ok s \<Longrightarrow> rid \<in> set (held s k) \<Longrightarrow> transfer_of (sy_world s) rid = Some row \<Longrightarrow> tr_status row \<noteq> StatusSuccess"
  using flights_okD(3) [OF sys_okD(3)] by (fastforce simp: status_of_def)

text \<open>A step that leaves everything but the world's other parts.\<close>

lemma settled_elsewhere:
  assumes ok: "settled e T0 s" and t: "t = s\<lparr>sy_world := w\<rparr>" and w: "pool_ok w" "prefix (w_sent (sy_world s)) (w_sent w)"
    "transfer_of w = transfer_of (sy_world s)"
  shows "settled e T0 t"
proof -
  have "inputs_held t = inputs_held s" by (simp add: inputs_held_def in_flight_def t)
  with ok w on_record_mono [OF _ w(2)] show ?thesis
    by (auto simp: settled_def runs_sound_def inputs_known_def successes_paid_def untouched_def t)
qed

text \<open>What the worlds of the ledger's statements keep.\<close>

lemma update_keeps:
  fixes w :: networld
  assumes "UpdateTransferStatus e ctx rid us w = (r, w')"
  shows "pool_ok w \<Longrightarrow> pool_ok w'" and "prefix (w_sent w) (w_sent w')"
  using sound_pool.update [of w e ctx rid us] on_record.update [of "w_sent w" w e ctx rid us] assms by simp_all

lemma persist_world:
  fixes w :: networld
  assumes "persist_queued e ctx body w = (r, w')"
  shows "pool_ok w \<Longrightarrow> pool_ok w'" and "prefix (w_sent w) (w_sent w')"
  using sound_pool.persist_keeps [of w e ctx body] on_record.persist_keeps [of "w_sent w" w e ctx body] assms by simp_all

lemma advance_keeps_world:
  "pool_ok w \<Longrightarrow> pool_ok (snd (advance e st w))" "prefix (w_sent w) (w_sent (snd (advance e st w)))"
  using sound_pool.advance_keeps [of w e st] on_record.advance_keeps [of "w_sent w" w e st] by simp_all

lemma settled_persist:
  assumes ok: "settled e T0 s" and c: "sy_client s i = Away"
  shows "settled e T0 (persist_payout e' ctx i body s)"
proof -
  let ?t = "persist_payout e' ctx i body s"
  note inv = settledD [OF ok] and runs = runs_soundD [OF settledD(3) [OF ok]]
  obtain r w where p: "persist_queued e' ctx body (sy_world s) = (r, w)" by fastforce
  note pw = persist_world [OF p]
  from p show ?thesis
  proof (cases rule: persist_rows)
    case (unwritten rsp)
    show ?thesis
      by (rule settled_elsewhere [OF ok _ pw(1) [OF inv(1)] pw(2) unwritten(2)])
        (use p unwritten(1) in \<open>simp add: persist_payout_def\<close>)
  next
    case (stored rid inp row)
    have t: "?t = s\<lparr>sy_world := w, sy_client := (sy_client s)(i := Stored ctx rid inp)\<rparr>"
      using p stored(1) by (simp add: persist_payout_def)
    have new: "sy_trace s rid = []" "T0 rid = None"
      using runs(2) [OF stored(2)] inv(6) stored(2) by (auto simp: untouched_def) (metis option.exhaust option.distinct(1))
    have h: "held ?t = (held s)(Client i := [rid])" by (subst held_client [of ?t s i "Stored ctx rid inp"]) (simp_all add: t)
    have step: "row_step rid s ?t" using stored(2,3) by (auto simp: row_step_def h) (simp_all add: t)
    have "inputs_held ?t \<subseteq> insert (rid, inp) (inputs_held s)"
      by (auto simp: inputs_held_def in_flight_def t split: if_splits)
    then have "inputs_known ?t"
      using inputs_knownD [OF inv(4)] stored(2,3,5) unfolding inputs_known_def by (force simp: t)
    moreover have "runs_sound e ?t"
      by (rule runs_soundI) (use runs new(1) stored(3) in \<open>auto simp: t split: if_splits\<close>)
    moreover have "successes_paid T0 ?t" "untouched T0 ?t"
      by (rule row_step_rest [OF ok step new(2)]; use stored(3,4) in \<open>simp add: t\<close>)+
    ultimately show ?thesis using pw inv(1) on_record_mono [OF inv(2)] by (simp add: settled_def t)
  qed
qed

definition row_kept :: "string \<Rightarrow> sys \<Rightarrow> sys \<Rightarrow> bool" where
  "row_kept rid s t \<longleftrightarrow> transfer_of (sy_world t) = transfer_of (sy_world s) \<or>
     (\<exists>us n row. transfer_of (sy_world s) rid = Some row \<and>
        transfer_of (sy_world t) = (transfer_of (sy_world s))(rid \<mapsto> apply_updates us n row) \<and>
        (tr_status (apply_updates us n row) = StatusSuccess \<longrightarrow> row_paid (sy_trace t rid) (apply_updates us n row)))"

lemma row_keptI:
  assumes "UpdateTransferStatus e ctx rid us (sy_world s) = (r, sy_world t)" and "us \<noteq> []"
    and "\<And>n row. transfer_of (sy_world s) rid = Some row \<Longrightarrow> tr_status (apply_updates us n row) = StatusSuccess \<Longrightarrow>
      row_paid (sy_trace t rid) (apply_updates us n row)"
  shows "row_kept rid s t"
  using update_rows [OF assms(1,2)] assms(3) unfolding row_kept_def by blast

lemma row_kept_same: "transfer_of (sy_world t) = transfer_of (sy_world s) \<Longrightarrow> row_kept rid s t"
  by (simp add: row_kept_def)

text \<open>The other steps concern a payout that someone has, and leave the world or write to its row.\<close>

lemma settled_held:
  assumes ok: "settled e T0 s" and sok: "sys_ok s" and own: "rid \<in> set (held s k)"
    and t: "pool_ok (sy_world t)" "prefix (w_sent (sy_world s)) (w_sent (sy_world t))" "runs_sound e t"
    and tr: "sy_trace t = sy_trace s \<or> (\<exists>x. sy_trace t = (sy_trace s)(rid := sy_trace s rid @ [x]) \<and> snd (snd x) = sy_world t)"
    and rows: "row_kept rid s t"
    and held: "\<And>k. set (held t k) \<subseteq> (\<Union>k. set (held s k))" and inputs: "inputs_held t \<subseteq> inputs_held s"
  shows "settled e T0 t"
proof -
  note inv = settledD [OF ok]
  have step: "row_step rid s t"
    using tr rows held by (auto simp: row_step_def row_kept_def)
  have "row_paid (sy_trace t rid) row" if "transfer_of (sy_world t) rid = Some row" "tr_status row = StatusSuccess" for row
    using rows held_unfinished [OF sok own] that by (auto simp: row_kept_def)
  from row_step_rest [OF ok step held_new [OF ok own] this] have "successes_paid T0 t" "untouched T0 t" by blast+
  moreover have "on_record_by (sy_trace t q) (sy_world t)" for q
    using tr on_record_mono [OF inv(2) t(2)] by auto
  ultimately show ?thesis using t(1,3) row_step_known [OF inv(4) step inputs] by (simp add: settled_def)
qed

lemma settled_enqueue:
  assumes ok: "settled e T0 s" and sok: "sys_ok s" and c: "sy_client s i = Stored ctx rid inp"
  shows "settled e T0 (enqueue_payout i ctx rid inp s)"
proof -
  let ?t = "enqueue_payout i ctx rid inp s" and ?job = "\<lparr>tj_request_id = rid, tj_input = inp, tj_enqueued_at = w_now (sy_world s)\<rparr>"
  note inv = settledD [OF ok] and runs = runs_soundD [OF settledD(3) [OF ok]]
  have own: "rid \<in> set (held s (Client i))" using c by simp
  obtain r m where q: "Enqueue (Some ?job) (sy_mgr s) = (r, m)" by fastforce
  obtain c' where t: "?t = s\<lparr>sy_mgr := m, sy_client := (sy_client s)(i := c')\<rparr>"
    and c': "c' = (case r of Inl err \<Rightarrow> Refused ctx rid err | Inr _ \<Rightarrow> Away)"
    using q by (cases r) (simp_all add: enqueue_payout_def)
  have queues: "queue_of m x = queue_of (sy_mgr s) x \<or> r = Inr () \<and> queue_of m x = queue_of (sy_mgr s) x @ [?job]" for x
    using q sys_okD(1) [OF sok] by (cases rule: Enqueue_cases) auto
  have jobs: "set (queue_of m x) \<subseteq> set (queue_of (sy_mgr s) x) \<union> (if r = Inr () then {?job} else {})" for x
    using queues [of x] by auto
  have free: "sy_trace s rid = []" using runs(3) [of rid i] c by simp
  show ?thesis
  proof (rule settled_held [OF ok sok own])
    show "runs_sound e ?t"
    proof (rule runs_soundI)
      show "sy_trace ?t q = []" if "q \<in> set (client_ids (sy_client ?t x))" for q x
        using that runs(3) [of q x] free c' by (auto simp: t split: if_splits sum.splits)
      show "sy_trace ?t (tj_request_id j) = []" if "j \<in> set (queue_of (sy_mgr ?t) d)" for j d
        using that jobs [of d] runs(4) [of j d] free by (auto simp: t split: if_splits)
    qed (use runs in \<open>simp_all add: t\<close>)
    show "set (held ?t k) \<subseteq> (\<Union>k. set (held s k))" for k
    proof (cases k)
      case (Worker d)
      have "set (held ?t k) \<subseteq> insert rid (set (held s k))" using jobs [of d] by (auto simp: Worker t in_flight_def split: if_splits)
      with own show ?thesis by blast
    next
      case (Client i')
      have "set (held ?t k) \<subseteq> insert rid (set (held s k))" using c' by (auto simp: Client t split: sum.splits)
      with own show ?thesis by blast
    qed
    have "inputs_held ?t \<subseteq> insert (rid, inp) (inputs_held s)"
      using jobs c' by (fastforce simp: inputs_held_def in_flight_def t split: if_splits sum.splits)
    with inputs_held_client [OF c] show "inputs_held ?t \<subseteq> inputs_held s" by blast
    show "row_kept rid s ?t" by (rule row_kept_same) (simp add: t)
  qed (simp_all add: t inv)
qed

lemma settled_fail:
  assumes ok: "settled e T0 s" and sok: "sys_ok s" and c: "sy_client s i = Refused ctx rid err"
  shows "settled e T0 (fail_payout e' i ctx rid err s)"
proof -
  let ?t = "fail_payout e' i ctx rid err s"
  note inv = settledD [OF ok] and runs = runs_soundD [OF settledD(3) [OF ok]]
  have own: "rid \<in> set (held s (Client i))" using c by simp
  obtain r w where u: "UpdateTransferStatus e' ctx rid (not_enqueued_updates err) (sy_world s) = (r, w)" by fastforce
  have t: "?t = s\<lparr>sy_world := w, sy_client := (sy_client s)(i := Away)\<rparr>" by (simp add: fail_payout_def u)
  show ?thesis
  proof (rule settled_held [OF ok sok own])
    show "runs_sound e ?t"
      by (rule runs_soundI) (use runs update_rows [OF u] in \<open>auto simp: t split: if_splits\<close>)
    show "set (held ?t k) \<subseteq> (\<Union>k. set (held s k))" for k
    proof -
      have "set (held ?t k) \<subseteq> set (held s k)" by (cases k) (simp_all add: t in_flight_def)
      then show ?thesis by blast
    qed
    show "inputs_held ?t \<subseteq> inputs_held s" by (fastforce simp: inputs_held_def in_flight_def t split: if_splits)
    show "row_kept rid s ?t" by (rule row_keptI [where t = ?t and us = "not_enqueued_updates err"]) (use u in \<open>simp_all add: t\<close>)
  qed (use update_keeps [OF u] inv(1) in \<open>simp_all add: t\<close>)
qed

text \<open>A worker's step: the clients are as they were, and the other workers.\<close>

lemma inputs_held_mono:
  "sy_client t = sy_client s \<Longrightarrow> (\<And>d. set (in_flight t d) \<subseteq> set (in_flight s d)) \<Longrightarrow> inputs_held t \<subseteq> inputs_held s"
  unfolding inputs_held_def by (intro Un_mono UN_mono image_mono) simp_all

lemma settled_take:
  assumes ok: "settled e T0 s" and sok: "sys_ok s" and q: "map_of (mgr_queues (sy_mgr s)) d = Some q"
    and idle: "sy_stage s d = Idle" and rcv: "chan_recv (aq_ch q) = Some (j, rest)"
  shows "settled e T0 (take_job d q j rest s)"
proof -
  let ?t = "take_job d q j rest s"
  note inv = settledD [OF ok] and runs = runs_soundD [OF settledD(3) [OF ok]]
  have ch: "queue_of (sy_mgr s) d = j # rest" using rcv queue_of_some [OF q] by (cases "aq_ch q") auto
  have fl: "in_flight ?t = in_flight s"
    using idle ch by (auto simp: in_flight_def take_job_def queue_of_set fun_eq_iff)
  have h: "held ?t k = held s k" for k by (cases k) (simp add: fl, simp add: take_job_def)
  have own: "tj_request_id j \<in> set (held s (Worker d))" using ch by (simp add: in_flight_def)
  show ?thesis
  proof (rule settled_held [OF ok sok own])
    show "runs_sound e ?t"
    proof (rule runs_soundI)
      show "sy_trace ?t (tj_request_id j') = []" if "j' \<in> set (queue_of (sy_mgr ?t) x)" for j' x
        using that runs(4) [of j' x] ch by (auto simp: take_job_def queue_of_set split: if_splits)
      show "stage_run e (sy_stage ?t x) (sy_trace ?t (tj_request_id j'))" if "stage_jobs (sy_stage ?t x) = [j']" for x j'
        using that runs(5) [of x j'] runs(4) [of j d] ch by (auto simp: take_job_def split: if_splits)
    qed (use runs in \<open>simp_all add: take_job_def\<close>)
    show "set (held ?t k) \<subseteq> (\<Union>k. set (held s k))" for k unfolding h by blast
    show "inputs_held ?t \<subseteq> inputs_held s" by (rule inputs_held_mono) (simp_all only: fl, simp add: take_job_def)
    show "row_kept (tj_request_id j) s ?t" by (rule row_kept_same) (simp add: take_job_def)
  qed (use inv(1) in \<open>simp_all add: take_job_def\<close>)
qed

lemma settled_mark:
  assumes ok: "settled e T0 s" and sok: "sys_ok s" and st: "sy_stage s d = Taken j"
  shows "settled e T0 (mark_job e' d j s)"
proof -
  let ?t = "mark_job e' d j s" and ?ctx = "with_timeout None (w_now (sy_world s)) (mgr_procTimeout (sy_mgr s))"
  note inv = settledD [OF ok] and runs = runs_soundD [OF settledD(3) [OF ok]]
  obtain r w where u: "UpdateTransferStatus e' ?ctx (tj_request_id j) [(''status'', VStr StatusProcessing)] (sy_world s) = (r, w)"
    by fastforce
  have t: "?t = s\<lparr>sy_world := w, sy_stage := (sy_stage s)(d := Marked j ?ctx)\<rparr>"
    using u by (simp add: mark_job_def mark_processing_def Let_def)
  have fl: "in_flight ?t = in_flight s" using st by (auto simp: in_flight_def t fun_eq_iff)
  have h: "held ?t k = held s k" for k by (cases k) (simp add: fl, simp add: t)
  have own: "tj_request_id j \<in> set (held s (Worker d))" using st by (simp add: in_flight_def)
  have free: "sy_trace s (tj_request_id j) = []" using runs(5) [of d j] st by simp
  show ?thesis
  proof (rule settled_held [OF ok sok own])
    show "runs_sound e ?t"
    proof (rule runs_soundI)
      show "sy_trace ?t q = []" if "transfer_of (sy_world ?t) q = None" for q
        using that runs(2) [of q] update_rows [OF u] by (auto simp: t split: if_splits)
      show "stage_run e (sy_stage ?t x) (sy_trace ?t (tj_request_id j'))" if "stage_jobs (sy_stage ?t x) = [j']" for x j'
        using that runs(5) [of x j'] free ran_to.start [of e j ?ctx] by (auto simp: t split: if_splits)
    qed (use runs in \<open>simp_all add: t\<close>)
    show "set (held ?t k) \<subseteq> (\<Union>k. set (held s k))" for k unfolding h by blast
    show "inputs_held ?t \<subseteq> inputs_held s" by (rule inputs_held_mono) (simp_all only: fl, simp add: t)
    show "row_kept (tj_request_id j) s ?t"
      by (rule row_keptI [where t = ?t and us = "[(''status'', VStr StatusProcessing)]"]) (use u in \<open>simp_all add: t\<close>)
  qed (use update_keeps [OF u] inv(1) in \<open>simp_all add: t\<close>)
qed

text \<open>Another payout than the one a worker is at is not its.\<close>

lemma other_payouts:
  assumes "sys_ok s" and st: "stage_jobs (sy_stage s d) = [j]"
  shows "q \<in> set (client_ids (sy_client s i)) \<Longrightarrow> q \<noteq> tj_request_id j"
    and "j' \<in> set (queue_of (sy_mgr s) x) \<Longrightarrow> tj_request_id j' \<noteq> tj_request_id j"
    and "stage_jobs (sy_stage s x) = [j'] \<Longrightarrow> x \<noteq> d \<Longrightarrow> tj_request_id j' \<noteq> tj_request_id j"
proof -
  note fl = flights_okD [OF sys_okD(3) [OF assms(1)]]
  have own: "tj_request_id j \<in> set (held s (Worker d))" using st by (simp add: in_flight_def)
  show "q \<in> set (client_ids (sy_client s i)) \<Longrightarrow> q \<noteq> tj_request_id j" using fl(2) [OF own, of "Client i"] by auto
  show "j' \<in> set (queue_of (sy_mgr s) x) \<Longrightarrow> tj_request_id j' \<noteq> tj_request_id j"
    using fl(2) [OF own, of "Worker x"] fl(1) [of "Worker d"] st by (auto simp: in_flight_def) (metis image_eqI)
  show "stage_jobs (sy_stage s x) = [j'] \<Longrightarrow> x \<noteq> d \<Longrightarrow> tj_request_id j' \<noteq> tj_request_id j"
    using fl(2) [OF own, of "Worker x"] by (auto simp: in_flight_def)
qed

lemma settled_run:
  assumes ok: "settled e T0 s" and sok: "sys_ok s" and st: "transferring (sy_stage s d)" "stage_jobs (sy_stage s d) = [j]"
  shows "settled e T0 (run_job e d j s)"
proof -
  let ?t = "run_job e d j s" and ?rid = "tj_request_id j"
  note inv = settledD [OF ok] and runs = runs_soundD [OF settledD(3) [OF ok]] and other = other_payouts [OF sok st(2)]
  obtain st' w where a: "advance e (sy_stage s d) (sy_world s) = (st', w)" by fastforce
  note aw = advance_keeps_world [where e = e and st = "sy_stage s d" and w = "sy_world s", unfolded a snd_conv]
  have t: "?t = s\<lparr>sy_world := w, sy_stage := (sy_stage s)(d := st'),
      sy_trace := (sy_trace s)(?rid := sy_trace s ?rid @ [(sy_stage s d, sy_world s, w)])\<rparr>"
    by (simp add: run_job_def a Let_def)
  have j': "stage_jobs st' = [j]" using advance_job [of e "sy_stage s d" "sy_world s"] st(2) by (simp add: a)
  have fl: "in_flight ?t = in_flight s" using st(2) j' by (auto simp: in_flight_def t fun_eq_iff)
  have h: "held ?t k = held s k" for k by (cases k) (simp add: fl, simp add: t)
  have own: "?rid \<in> set (held s (Worker d))" using st(2) by (simp add: in_flight_def)
  obtain row where row: "transfer_of (sy_world s) ?rid = Some row"
    using inputs_knownD [OF inv(4) inputs_held_stage [OF st(2)]] by blast
  have "ran_to e (sy_stage s d) (sy_trace s ?rid)" using runs(5) [OF st(2)] st(1) by (cases "sy_stage s d") simp_all
  from ran_to.statement [OF this st(1) inv(1) inv(2) a]
  have ran: "ran_to e st' (sy_trace ?t ?rid)" by (simp add: t)
  have rows: "transfer_of w = transfer_of (sy_world s)" using advance_rows [of e "sy_stage s d" "sy_world s"] by (simp add: a)
  show ?thesis
  proof (rule settled_held [OF ok sok own])
    show "runs_sound e ?t"
    proof (rule runs_soundI)
      show "\<exists>st. ran_to e st (sy_trace ?t q)" for q using ran runs(1) [of q] by (cases "q = ?rid") (auto simp: t)
      show "sy_trace ?t q = []" if "transfer_of (sy_world ?t) q = None" for q
        using that runs(2) [of q] row rows by (auto simp: t)
      show "sy_trace ?t q = []" if "q \<in> set (client_ids (sy_client ?t i))" for q i
        using that runs(3) [of q i] other(1) [of q i] by (simp add: t)
      show "sy_trace ?t (tj_request_id j') = []" if "j' \<in> set (queue_of (sy_mgr ?t) x)" for j' x
        using that runs(4) [of j' x] other(2) [of j' x] by (simp add: t)
      show "stage_run e (sy_stage ?t x) (sy_trace ?t (tj_request_id j'))" if "stage_jobs (sy_stage ?t x) = [j']" for x j'
      proof (cases "x = d")
        case True
        have "transferring st' \<or> (\<exists>k r ctx. st' = Ran k ctx r)" using a st(1)
          by (cases "sy_stage s d") (auto simp: go_on_def split: prod.splits sum.splits if_splits)
        moreover have "j' = j" using that True j' by (simp add: t)
        ultimately show ?thesis using ran True by (cases st') (auto simp: t)
      next
        case False
        with that runs(5) [of x j'] other(3) [of x j'] show ?thesis by (simp add: t)
      qed
    qed
    show "set (held ?t k) \<subseteq> (\<Union>k. set (held s k))" for k unfolding h by blast
    show "inputs_held ?t \<subseteq> inputs_held s" by (rule inputs_held_mono) (simp_all only: fl, simp add: t)
    show "row_kept ?rid s ?t" by (rule row_kept_same) (simp add: t rows)
    show "sy_trace ?t = sy_trace s \<or> (\<exists>x. sy_trace ?t = (sy_trace s)(?rid := sy_trace s ?rid @ [x]) \<and> snd (snd x) = sy_world ?t)"
      by (rule disjI2, rule exI [of _ "(sy_stage s d, sy_world s, w)"]) (simp add: t)
  qed (use aw inv(1) in \<open>simp_all add: t\<close>)
qed

lemma settled_record:
  assumes ok: "settled e T0 s" and sok: "sys_ok s" and st: "sy_stage s d = Ran j ctx r"
    and q: "map_of (mgr_queues (sy_mgr s)) d = Some q"
  shows "settled e T0 (record_job e' d q j ctx r s)"
proof -
  let ?t = "record_job e' d q j ctx r s" and ?rid = "tj_request_id j"
  note inv = settledD [OF ok] and runs = runs_soundD [OF settledD(3) [OF ok]]
  obtain us where us: "record_outcome e' ctx j r (sy_world s) = UpdateTransferStatus e' ctx ?rid us (sy_world s)" "us \<noteq> []"
    "us = (case r of Inl err \<Rightarrow> failure_updates err
           | Inr res \<Rightarrow> success_updates (cfg_FTName (app_env (w_cfg (sy_world s)))) j res)"
    by (rule record_outcome_update)
  obtain x w where u: "UpdateTransferStatus e' ctx ?rid us (sy_world s) = (x, w)" by fastforce
  have t: "sy_world ?t = w" "sy_trace ?t = sy_trace s" "sy_stage ?t = (sy_stage s)(d := Idle)" "sy_client ?t = sy_client s"
    "queue_of (sy_mgr ?t) = queue_of (sy_mgr s)"
    using u us(1) queue_of_some [OF q] by (auto simp: record_job_def Let_def queue_of_set fun_eq_iff)
  have fl: "set (in_flight ?t y) \<subseteq> set (in_flight s y)" for y by (auto simp: in_flight_def t)
  have own: "?rid \<in> set (held s (Worker d))" using st by (simp add: in_flight_def)
  have ran: "ran_to e (Ran j ctx r) (sy_trace s ?rid)" using runs(5) [of d j] st by simp
  have rowj: "\<exists>row. transfer_of (sy_world s) ?rid = Some row \<and> row_for row (tj_input j)"
    using inputs_knownD [OF inv(4) inputs_held_stage [of s d j]] st by simp
  show ?thesis
  proof (rule settled_held [OF ok sok own])
    show "runs_sound e ?t"
    proof (rule runs_soundI)
      show "sy_trace ?t y = []" if "transfer_of (sy_world ?t) y = None" for y
        using that runs(2) [of y] update_rows [OF u us(2)] by (auto simp: t split: if_splits)
      show "stage_run e (sy_stage ?t y) (sy_trace ?t (tj_request_id j'))" if "stage_jobs (sy_stage ?t y) = [j']" for y j'
        using that runs(5) [of y j'] by (auto simp: t split: if_splits)
    qed (use runs in \<open>simp_all add: t\<close>)
    show "set (held ?t k) \<subseteq> (\<Union>k. set (held s k))" for k
    proof -
      have "set (held ?t k) \<subseteq> set (held s k)" using fl by (cases k) (auto simp: t)
      then show ?thesis by blast
    qed
    show "inputs_held ?t \<subseteq> inputs_held s" by (rule inputs_held_mono [OF t(4) fl])
    show "row_kept ?rid s ?t"
    proof (rule row_keptI)
      show "UpdateTransferStatus e' ctx ?rid us (sy_world s) = (x, sy_world ?t)" by (simp add: t u)
      show "row_paid (sy_trace ?t ?rid) (apply_updates us n row)"
        if "transfer_of (sy_world s) ?rid = Some row" "tr_status (apply_updates us n row) = StatusSuccess" for n row
      proof (cases r)
        case (Inr res)
        with ran ran_to_paid have "paid j res (sy_trace s ?rid)" by blast
        with that rowj us(3) Inr show ?thesis unfolding row_paid_def t by (intro exI [of _ j] exI [of _ res]) auto
      qed (use that us(3) in simp)
    qed (rule us(2))
  qed (use update_keeps [OF u] inv(1) in \<open>simp_all add: t\<close>)
qed

lemma settled_step:
  assumes "sys_step sv s t" and "settled (sv_env sv) T0 s" and "sys_ok s"
  shows "settled (sv_env sv) T0 t"
  using assms
proof (induction rule: sys_step.induct)
  case (request ep ctx header s rsp m w)
  note r = request_keeps [OF request(1,2)]
  have "pool_ok w" "prefix (w_sent (sy_world s)) (w_sent w)"
    using sound_pool.serve_keeps [OF settledD(1) [OF request(3)], of sv ctx header ep "sy_mgr s"]
      on_record.serve_keeps [of "w_sent (sy_world s)" "sy_world s" sv ctx header ep "sy_mgr s"] request(2) by simp_all
  then show ?case by (rule settled_elsewhere [OF request(3), where w = w, rotated]) (use r in simp_all)
next
  case (payout ep body header s user i ctx)
  then show ?case by (intro settled_persist)
next
  case (enqueue s i ctx rid inp)
  then show ?case by (intro settled_enqueue)
next
  case (refuse s i ctx rid err)
  then show ?case by (intro settled_fail)
next
  case (work s t)
  from work(1-3) show ?case
    by (induction rule: worker_step.induct) (rule settled_take settled_mark settled_run settled_record; assumption)+
next
  case (tick s t)
  show ?case
    by (rule settled_elsewhere [OF tick(2), where w = "(sy_world s)\<lparr>w_now := t\<rparr>"])
      (use settledD(1) [OF tick(2)] in \<open>simp_all add: pool_ok_def\<close>)
qed

lemma settled_init: "sys_init sv s \<Longrightarrow> settled e (transfer_of (sy_world s)) s"
proof -
  assume init: "sys_init sv s"
  then obtain b w0 where st: "start b w0 = Inr (sv, sy_mgr s, sy_world s)" "registry_ok w0" "sy_stage s = (\<lambda>_. Idle)"
    "sy_client s = (\<lambda>_. Away)" "sy_trace s = (\<lambda>_. [])"
    by (auto simp: sys_init_def)
  note r = start_ready [OF st(1,2)] and h = sys_init_ok(2) [OF init]
  have "inputs_held s = {}" using r(2) st(3,4) by (simp add: inputs_held_def in_flight_def queue_of_def)
  moreover have "runs_sound e s"
    by (rule runs_soundI) (use st r(2) ran_to.start in \<open>auto simp: queue_of_def\<close>)
  ultimately show ?thesis
    using r(4) st h by (simp add: settled_def on_record_by_def inputs_known_def successes_paid_def untouched_def)
qed

interpretation settlement: invariant_system "\<lambda>s. sys_init sv s \<and> transfer_of (sy_world s) = T0" "sys_step sv"
  "\<lambda>s. sys_ok s \<and> settled (sv_env sv) T0 s" for sv T0
proof unfold_locales
  show "sys_ok s \<and> settled (sv_env sv) T0 s" if "sys_init sv s \<and> transfer_of (sy_world s) = T0" for s
    using sys_init_ok(1) [of sv s] settled_init [of sv s] that by blast
  show "sys_ok t \<and> settled (sv_env sv) T0 t" if "sys_ok s \<and> settled (sv_env sv) T0 s" "sys_step sv s t" for s t
    using sys_step_ok [OF that(2)] settled_step [OF that(2)] that(1) by simp
qed

lemma settled_steps:
  "sys_init sv s0 \<Longrightarrow> steps (sys_step sv) s0 s \<Longrightarrow> sys_ok s \<and> settled (sv_env sv) (transfer_of (sy_world s0)) s"
  using settlement.inv_steps sys_init_ok(1) settled_init by metis

section \<open>Properties\<close>

text \<open>
  Property C1: what the ledger calls a success was paid, once, and as the ledger says. If the row of a
  payout says success in a state the running server reaches, and did not at the start, then the
  statements of its transfer, whatever came between them, were exactly one run of the code: it read
  the admin's contract and the sum of the activities of the row, which is positive and is what the row
  records; it sent to the admin's own node the transaction for just these, then its signature; and all
  it sent is still on record.
\<close>

theorem success_is_paid_once:
  assumes "sys_init sv s0" and "steps (sys_step sv) s0 s"
    and "transfer_of (sy_world s) rid = Some row" and "tr_status row = StatusSuccess"
    and "status_of (sy_world s0) rid \<noteq> Some StatusSuccess"
  shows "\<exists>j res. paid j res (sy_trace s rid) \<and> row_for row (tj_input j) \<and>
    tr_reward_points row = Some (rr_reward_points res) \<and>
    (rr_contract_hash res \<noteq> '''' \<longrightarrow> tr_contract_hash row = Some (rr_contract_hash res)) \<and>
    (\<forall>x \<in> set (sy_trace s rid). prefix (w_sent (snd (snd x))) (w_sent (sy_world s)))"
proof -
  note inv = settled_steps [OF assms(1,2), THEN conjunct2]
  have "transfer_of (sy_world s0) rid = None"
    using settledD(6) [OF inv] assms(3-5) by (cases "transfer_of (sy_world s0) rid") (auto simp: untouched_def status_of_def)
  then have "row_paid (sy_trace s rid) row" using settledD(5) [OF inv] assms(3,4) by (simp add: successes_paid_def)
  then show ?thesis using settledD(2) [OF inv, of rid] unfolding row_paid_def on_record_by_def by blast
qed

lemma shop_reaches: "\<exists>tr. steps (sys_step shop_server) shop_start (shop_finished tr)"
  using shop_run steps_trans by metis

theorem success_is_paid_once_witness:
  "\<exists>tr j res row. transfer_of (sy_world (shop_finished tr)) ''u'' = Some row \<and> paid j res (tr ''u'') \<and>
     tr_reward_points row = Some (rr_reward_points res)"
proof -
  obtain tr where run: "steps (sys_step shop_server) shop_start (shop_finished tr)" using shop_reaches by blast
  obtain row where row: "transfer_of (sy_world (shop_finished tr)) ''u'' = Some row" "tr_status row = StatusSuccess"
    using shop_statuses(4) by (auto simp: status_of_def)
  have "status_of (sy_world shop_start) ''u'' \<noteq> Some StatusSuccess" by (simp only: shop_statuses) simp
  from success_is_paid_once [OF shop_init run row this] row(1) show ?thesis by (auto simp: shop_finished_def)
qed

text \<open>
  Property C2: no request is paid twice. In every reachable state at most one transaction has been sent
  for each request id, no id is with two of the handlers and workers at once, nor twice with one, and
  while it is with one its row says queued or processing.
\<close>

theorem payout_runs_once:
  assumes "reach (sys_init sv) (sys_step sv) s"
  shows "(\<forall>rid. length (filter (\<lambda>x. sends_tx (fst x)) (sy_trace s rid)) \<le> 1) \<and> (\<forall>k. distinct (held s k)) \<and>
    (\<forall>k k'. k' \<noteq> k \<longrightarrow> set (held s k) \<inter> set (held s k') = {}) \<and>
    (\<forall>k. \<forall>rid \<in> set (held s k). status_of (sy_world s) rid \<in> {Some StatusQueued, Some StatusProcessing})"
proof -
  obtain s0 where s0: "sys_init sv s0" "steps (sys_step sv) s0 s"
    using assms by (induction rule: reach.induct) (auto intro: steps.intros)
  note inv = settled_steps [OF s0]
  have "length (filter (\<lambda>x. sends_tx (fst x)) (sy_trace s rid)) \<le> 1" for rid
    using runs_soundD(1) [OF settledD(3) [OF conjunct2 [OF inv]], of rid] ran_to_once by blast
  with sys_okD(3) [OF conjunct1 [OF inv]] show ?thesis unfolding flights_ok_def by blast
qed

theorem payout_runs_once_witness:
  "held shop_taken (Worker shop_did) = [''u''] \<and> set (held shop_taken (Worker shop_did)) \<inter> set (held shop_taken (Client 0)) = {}"
proof -
  have "set (held shop_taken (Worker shop_did)) \<inter> set (held shop_taken (Client 0)) = {}"
    using payout_runs_once [OF shop_reach(2)] by blast
  moreover have "held shop_taken (Worker shop_did) = [''u'']"
    by (simp add: in_flight_def shop_states shop_queue_def queue_of_set shop_job_def)
  ultimately show ?thesis by blast
qed

end
