(* ===== verification/Restart.thy ===== *)
theory Restart
  imports Settlement
begin

text \<open>
  One process after another on the same tables. A process may stop at any step; the next one starts on
  what the tables hold then. The constraints of the schema and the types of the status column hold
  throughout, so every process starts in a state the other theories speak of; and what a process leaves
  unfinished stays so.
\<close>

section \<open>Processes\<close>

definition boot_state :: "Manager \<Rightarrow> networld \<Rightarrow> sys" where
  "boot_state m w = \<lparr>sy_mgr = m, sy_world = w, sy_stage = \<lambda>_. Idle, sy_client = \<lambda>_. Away, sy_trace = \<lambda>_. []\<rparr>"

lemma boot_state_simps [simp]:
  "sy_mgr (boot_state m w) = m" "sy_world (boot_state m w) = w" "sy_stage (boot_state m w) d = Idle"
  "sy_client (boot_state m w) i = Away" "sy_trace (boot_state m w) rid = []"
  by (simp_all add: boot_state_def)

text \<open>The tables and the clock outlive a process; between two processes time passes.\<close>

inductive served :: "dbworld \<Rightarrow> dbworld \<Rightarrow> bool" where
  never: "served w w"
| run: "served w0 w1 \<Longrightarrow> start b w1 = Inr (sv, m, w) \<Longrightarrow> steps (sys_step sv) (boot_state m w) s \<Longrightarrow>
     served w0 (dbworld.truncate (sy_world s))"
| off: "served w0 w1 \<Longrightarrow> w_now w1 \<le> t \<Longrightarrow> served w0 (w1\<lparr>w_now := t\<rparr>)"

lemma truncate_db [simp]: "w_db (dbworld.truncate w) = w_db w"
  by (simp add: dbworld.defs)

lemma views_db: "w_db w' = w_db w \<Longrightarrow> transfer_of w' = transfer_of w \<and> status_of w' = status_of w \<and> tables_ok w' = tables_ok w"
  by (auto simp: transfer_of_def status_of_def tables_ok_def transfers_ok_def registry_ok_def fun_eq_iff)

section \<open>The constraints of the schema\<close>

lemma tables_step: "sys_step sv s t \<Longrightarrow> tables_ok (sy_world s) \<Longrightarrow> tables_ok (sy_world t)"
proof (induction rule: sys_step.induct)
  case (request ep ctx header s rsp m w)
  then show ?case using sound_tables.serve_keeps [of "sy_world s" sv ctx header ep "sy_mgr s"] by simp
next
  case (payout ep body header s user i ctx)
  then show ?case using sound_tables.persist_keeps [of "sy_world s" "sv_env sv" ctx body]
    by (auto simp: persist_payout_def split: prod.split sum.split)
next
  case (enqueue s i ctx rid inp)
  then show ?case by (simp add: enqueue_payout_def split: prod.split sum.split)
next
  case (refuse s i ctx rid err)
  then show ?case by (simp add: fail_payout_def sound_tables.update)
next
  case (work s t)
  then show ?case
  proof (induction rule: worker_step.induct)
    case (marking s d j)
    then show ?case by (simp add: mark_job_def mark_processing_def sound_tables.update Let_def)
  next
    case (running s d j)
    then show ?case using sound_tables.advance_keeps by (simp add: run_job_def case_prod_beta Let_def)
  next
    case (finish s d j ctx r q)
    then show ?case
      by (cases r) (simp_all add: record_job_def record_outcome_def sound_tables.update Let_def)
  qed (simp add: take_job_def)
next
  case (tick s t)
  then show ?case using views_db [of "(sy_world s)\<lparr>w_now := t\<rparr>" "sy_world s"] by simp
qed

lemma tables_steps: "steps (sys_step sv) s t \<Longrightarrow> tables_ok (sy_world s) \<Longrightarrow> tables_ok (sy_world t)"
  by (induction rule: steps.induct) (auto intro: tables_step)

lemma start_tables:
  assumes "start b w0 = Inr (sv, m, w)" and "tables_ok w0"
  shows "tables_ok w"
proof -
  from assms(1) obtain cfg t w1 where
    r: "ReloadAdmins (bt_env b) None (dbworld.extend (w0\<lparr>w_now := t\<rparr>)
       \<lparr>w_cfg = cfg, w_sent = [], w_files = [], w_pool = [], w_pool_timeout = http_timeout (app_env cfg)\<rparr>) = (Inr (), w1)" and
    s: "seedBootstrapOperator (bt_lib b) (bt_env b) None w1 = (Inr (), w)"
    by (auto simp: start_def fatal_def Let_def split: sum.splits prod.splits)
  let ?w = "dbworld.extend (w0\<lparr>w_now := t\<rparr>)
       \<lparr>w_cfg = cfg, w_sent = [], w_files = [], w_pool = [], w_pool_timeout = http_timeout (app_env cfg)\<rparr>"
  have "tables_ok ?w" using assms(2) by (simp add: tables_ok_def transfers_ok_def registry_ok_def dbworld.defs)
  from sound_tables.reload_keeps [OF this, of "bt_env b" None] have "tables_ok w1" by (simp add: r)
  moreover have "\<exists>us. w_db w = (w_db w1)\<lparr>t_users := us\<rparr>" using seed_users [OF s] by blast
  ultimately show ?thesis by (auto simp: tables_ok_def transfers_ok_def registry_ok_def)
qed

section \<open>From one process to the next\<close>

definition well_typed :: "'z dbworld_scheme \<Rightarrow> bool" where
  "well_typed w \<longleftrightarrow> tables_ok w \<and> ran (status_of w) \<subseteq> {StatusQueued, StatusProcessing, StatusSuccess, StatusFailed}"

lemma well_typed_db: "w_db w' = w_db w \<Longrightarrow> well_typed w' = well_typed w"
  using views_db [of w' w] by (simp add: well_typed_def)

lemma boot_init:
  assumes "start b w0 = Inr (sv, m, w)" and "well_typed w0"
  shows "sys_init sv (boot_state m w)"
  unfolding sys_init_def using assms by (auto simp: boot_state_def well_typed_def tables_ok_def statuses_def)

lemma well_typed_run:
  assumes "start b w0 = Inr (sv, m, w)" and "steps (sys_step sv) (boot_state m w) s" and "well_typed w0"
  shows "well_typed (sy_world s)"
proof -
  note init = boot_init [OF assms(1,3)]
  have "reach (sys_init sv) (sys_step sv) (boot_state m w)" by (rule reach.reach_init, rule init)
  from running.inv_reach [OF reach_steps [OF assms(2) this]]
  have "ran (status_of (sy_world s)) \<subseteq> statuses" by (simp add: sys_ok_def valid_statuses_def)
  moreover have "tables_ok (sy_world s)"
    using tables_steps [OF assms(2)] start_tables [OF assms(1)] assms(3) by (simp add: well_typed_def)
  ultimately show ?thesis by (simp add: well_typed_def statuses_def)
qed

lemma served_well_typed: "served w0 w1 \<Longrightarrow> well_typed w0 \<Longrightarrow> well_typed w1"
proof (induction rule: served.induct)
  case (run w0 w1 b sv m w s)
  then show ?case using well_typed_run [OF run(2,3)] well_typed_db [OF truncate_db] by blast
next
  case (off w0 w1 t)
  then show ?case using well_typed_db [of "w1\<lparr>w_now := t\<rparr>" w1] by simp
qed

text \<open>A process leaves alone the rows it found.\<close>

lemma run_leaves_rows:
  assumes "start b w0 = Inr (sv, m, w)" and "steps (sys_step sv) (boot_state m w) s" and "well_typed w0"
    and "transfer_of w0 rid = Some row"
  shows "transfer_of (sy_world s) rid = Some row \<and> sy_trace s rid = [] \<and> (\<forall>k. rid \<notin> set (held s k))"
proof -
  have "t_transfers (w_db w) = t_transfers (w_db w0)"
    using start_ready(7) [OF assms(1)] assms(3) by (simp add: well_typed_def tables_ok_def)
  then have "transfer_of (sy_world (boot_state m w)) rid = Some row" using assms(4) by (simp add: transfer_of_def)
  from settledD(6) [OF conjunct2 [OF settled_steps [OF boot_init [OF assms(1,3)] assms(2)]]] this
  show ?thesis by (simp add: untouched_def)
qed

lemma served_leaves_rows:
  "served w0 w1 \<Longrightarrow> well_typed w0 \<Longrightarrow> transfer_of w0 rid = Some row \<Longrightarrow> transfer_of w1 rid = Some row"
proof (induction rule: served.induct)
  case (run w0 w1 b sv m w s)
  from run_leaves_rows [OF run(2,3) served_well_typed [OF run(1,5)] run(4) [OF run(5,6)]]
  show ?case using views_db [OF truncate_db, of "sy_world s"] by simp
next
  case (off w0 w1 t)
  then show ?case using views_db [of "w1\<lparr>w_now := t\<rparr>" w1] by simp
qed

section \<open>The deployment, stopped and started again\<close>

lemma shop_restarts: "\<exists>w. start shop_boot (dbworld.truncate shop_accepted) = Inr (shop_server, shop_manager, w)"
proof -
  have http: "http_timeout (app_env (projr (Load (\<lambda>_. None) (\<lambda>_. '''')))) = 120 * second"
    by (simp add: Load_plain http_timeout_def second_def in_int64_def)
  show ?thesis
    by (simp add: start_def shop_boot_def plain_boot_def shop_manager_def shop_net_def shop_server_def shop_config_def
        shop_accepted_def shop_db_def Connect_def ReloadAdmins_def ListAdmins_def db_stmt_def
        ctx_expired_def Let_def LoadKeys_def seedBootstrapOperator_def CountAuthUsers_def empty_world_def dbworld.defs Load_plain
        http_timeout_def second_def in_int64_def demo_env_def demo_db_def)
qed

lemma shop_well_typed: "well_typed shop_world"
proof -
  have "ran (status_of shop_world) \<subseteq> {StatusQueued, StatusProcessing, StatusSuccess, StatusFailed}"
    by (auto simp: ran_def status_of_def transfer_of_def shop_world_def shop_db_def queued_row_def split: if_splits)
  then show ?thesis
    by (simp add: well_typed_def tables_ok_def transfers_ok_def registry_ok_def shop_world_def shop_db_def demo_db_def
        contract_key_def activity_key_def in_int32_def queued_row_def)
qed

lemma shop_boot_state: "boot_state shop_manager (shop_net 7003 2) = shop_start"
  by (simp add: boot_state_def shop_start_def)

lemma shop_stopped: "served shop_world (dbworld.truncate shop_accepted)"
proof -
  have "steps (sys_step shop_server) shop_start shop_posted" by (rule shop_run(1))
  from served.run [OF served.never shop_starts, unfolded shop_boot_state, OF this] show ?thesis by (simp add: shop_states)
qed

section \<open>Properties\<close>

text \<open>
  Property C5: a restart abandons what was on its way. Take the ledger at any moment a process stopped, after
  any line of processes before it, each stopped at any step. A payout whose row is in it, queued and
  processing ones included, is never run again: through any line of later processes, and at every step of
  the one that runs then, the row is exactly as it was, no transfer is begun for it, and no handler, queue
  or worker has it.
\<close>

theorem restart_abandons_payouts:
  assumes "well_typed w0" and "served w0 w1" and "transfer_of w1 rid = Some row"
    and "served w1 w2" and "start b w2 = Inr (sv, m, w)" and "steps (sys_step sv) (boot_state m w) s"
  shows "transfer_of (sy_world s) rid = Some row \<and> sy_trace s rid = [] \<and> (\<forall>k. rid \<notin> set (held s k))"
proof -
  have w1: "well_typed w1" by (rule served_well_typed [OF assms(2,1)])
  show ?thesis
    by (rule run_leaves_rows [OF assms(5,6) served_well_typed [OF assms(4) w1] served_leaves_rows [OF assms(4) w1 assms(3)]])
qed

theorem restart_abandons_payouts_witness:
  "\<exists>w row. start shop_boot (dbworld.truncate shop_accepted) = Inr (shop_server, shop_manager, w) \<and>
     transfer_of w ''u'' = Some row \<and> tr_status row = StatusQueued"
proof -
  obtain w where w: "start shop_boot (dbworld.truncate shop_accepted) = Inr (shop_server, shop_manager, w)"
    using shop_restarts by blast
  obtain row where "transfer_of (sy_world shop_taken) ''u'' = Some row" and st: "tr_status row = StatusQueued"
    using shop_statuses(3) by (auto simp: status_of_def)
  then have row: "transfer_of (dbworld.truncate shop_accepted) ''u'' = Some row"
    using views_db [OF truncate_db, of shop_accepted] by (simp add: shop_states)
  from restart_abandons_payouts [OF shop_well_typed shop_stopped row served.never w steps.steps_refl] w st
  show ?thesis by auto
qed

text \<open>
  Property C19: the tables stay well-typed. In every state a process reaches, after any line of processes
  before it, and whatever the requests were, the status column is one of the four constants of the code,
  no two payouts share a request id, no two users, contracts, activities or admins a key, and the points
  of an activity fit their column.
\<close>

theorem tables_stay_typed:
  assumes "well_typed w0" and "served w0 w1" and "start b w1 = Inr (sv, m, w)" and "steps (sys_step sv) (boot_state m w) s"
  shows "ran (status_of (sy_world s)) \<subseteq> {StatusQueued, StatusProcessing, StatusSuccess, StatusFailed} \<and>
    distinct (map tr_request_id (t_transfers (w_db (sy_world s)))) \<and>
    distinct (map ua_user_did (t_user_admins (w_db (sy_world s)))) \<and>
    distinct (map contract_key (t_contracts (w_db (sy_world s)))) \<and>
    distinct (map activity_key (t_activities (w_db (sy_world s)))) \<and>
    distinct (map ad_did (t_admins (w_db (sy_world s)))) \<and>
    list_all (\<lambda>r. in_int32 (vr_reward_points r)) (t_activities (w_db (sy_world s)))"
  using well_typed_run [OF assms(3,4) served_well_typed [OF assms(2,1)]]
  by (simp add: well_typed_def tables_ok_def transfers_ok_def registry_ok_def list_all_iff)

theorem tables_stay_typed_witness:
  "distinct (map tr_request_id (t_transfers (w_db (sy_world shop_posted)))) \<and> length (t_transfers (w_db (sy_world shop_posted))) = 3"
proof -
  have "steps (sys_step shop_server) (boot_state shop_manager (shop_net 7003 2)) shop_posted"
    unfolding shop_boot_state by (rule shop_run(1))
  from tables_stay_typed [OF shop_well_typed served.never shop_starts this]
  show ?thesis by (simp add: shop_states shop_accepted_def shop_db_def)
qed

end
