(* ===== verification/Contracts.thy ===== *)
theory Contracts
  imports Service
begin

text \<open>
  The smart contracts under \<open>contracts/\<close>, in Rust, which the repository ships beside the server and
  deploys on each admin's node: \<open>add_activity\<close>, \<open>add_admin\<close> and \<open>transfer_sample_ft\<close>. What they import is
  a parameter: the host functions of the node, and how serde reads a request. An error is the message
  given to \<open>WasmError::from\<close>. And what the server sends to them: the payload of each transaction, read
  back, and whether it is a request of the contract at all.
\<close>

section \<open>The contracts\<close>

record AddActivityReq =
  aa_activity_id :: string
  aa_reward_points :: "32 word"
  aa_block_hash :: string

record AddAdminReq =
  ad_admin_did :: string

record 'ft TransferSampleFTReq =
  ts_name :: string
  ts_ft_info :: 'ft

text \<open>\<open>str::from_utf8\<close>: no stray or missing continuation byte, no overlong form, no surrogate.\<close>

definition cont :: "nat \<Rightarrow> nat \<Rightarrow> char \<Rightarrow> bool" where
  "cont lo hi c \<longleftrightarrow> lo \<le> byte c \<and> byte c \<le> hi"

fun from_utf8 :: "string \<Rightarrow> bool" where
  "from_utf8 [] = True"
| "from_utf8 (a # s) =
     (let b = byte a in
      if b < 0x80 then from_utf8 s
      else if 0xC2 \<le> b \<and> b \<le> 0xDF then
        (case s of x # t \<Rightarrow> cont 0x80 0xBF x \<and> from_utf8 t | _ \<Rightarrow> False)
      else if 0xE0 \<le> b \<and> b \<le> 0xEF then
        (case s of
           x # y # t \<Rightarrow>
             cont (if b = 0xE0 then 0xA0 else 0x80) (if b = 0xED then 0x9F else 0xBF) x \<and> cont 0x80 0xBF y \<and> from_utf8 t
         | _ \<Rightarrow> False)
      else if 0xF0 \<le> b \<and> b \<le> 0xF4 then
        (case s of
           x # y # z # t \<Rightarrow>
             cont (if b = 0xF0 then 0x90 else 0x80) (if b = 0xF4 then 0x8F else 0xBF) x \<and> cont 0x80 0xBF y \<and>
             cont 0x80 0xBF z \<and> from_utf8 t
         | _ \<Rightarrow> False)
      else False)"

text \<open>
  \<open>write_to_json_file\<close> of the host: a code, and the bytes it points to unless the pointer is null. Both
  contracts call it in the same way, with the text \<open>serde_json\<close> makes of the request.
\<close>

type_synonym host = "string \<Rightarrow> int \<times> string option"

definition host_response :: "int \<times> string option \<Rightarrow> string + string" where
  "host_response q =
     (if fst q \<noteq> 0 then Inl (''Host function returned error code '' @ Itoa (fst q))
      else case snd q of
        None \<Rightarrow> Inl ''Response pointer is null''
      | Some bytes \<Rightarrow> if from_utf8 bytes then Inr bytes else Inl ''Invalid UTF-8 response'')"

definition call_write_to_json_file :: "(AddActivityReq \<Rightarrow> string) \<Rightarrow> host \<Rightarrow> AddActivityReq \<Rightarrow> string + string" where
  "call_write_to_json_file to_string write inp = host_response (write (to_string inp))"

definition call_write_to_file :: "(AddAdminReq \<Rightarrow> string) \<Rightarrow> host \<Rightarrow> AddAdminReq \<Rightarrow> string + string" where
  "call_write_to_file to_string write inp = host_response (write (to_string inp))"

definition add_activity :: "(AddActivityReq \<Rightarrow> string) \<Rightarrow> host \<Rightarrow> AddActivityReq \<Rightarrow> string + string" where
  "add_activity to_string write inp =
     (case call_write_to_json_file to_string write inp of Inr resp \<Rightarrow> Inr resp | Inl e \<Rightarrow> Inl e)"

definition add_admin :: "(AddAdminReq \<Rightarrow> string) \<Rightarrow> host \<Rightarrow> AddAdminReq \<Rightarrow> string + string" where
  "add_admin to_string write inp =
     (case call_write_to_file to_string write inp of Inr resp \<Rightarrow> Inr resp | Inl e \<Rightarrow> Inl e)"

definition WHITELIST :: "string list" where
  "WHITELIST = [''rubix1'', ''rubix2'']"

definition transfer_sample_ft :: "('ft \<Rightarrow> string + string) \<Rightarrow> 'ft TransferSampleFTReq \<Rightarrow> string + string" where
  "transfer_sample_ft call_transfer_ft_api req =
     (if ts_name req \<notin> set WHITELIST
      then Inl (''name '' @ ts_name req @ '' is not allowed to transfer sample FTs'')
      else case call_transfer_ft_api (ts_ft_info req) of Inr resp \<Rightarrow> Inr resp | Inl e \<Rightarrow> Inl e)"

lemma host_response_ok:
  "host_response q = Inr resp \<longleftrightarrow> fst q = 0 \<and> snd q = Some resp \<and> from_utf8 resp"
  by (auto simp: host_response_def split: option.split)

section \<open>What the server sends\<close>

text \<open>The three payloads, read back. Keys are in the order of \<open>json.Marshal\<close>.\<close>

lemma activity_payload_read:
  "Unmarshal (activity_payload aid points desc) =
     Some (JObj [(''action'', JStr ''add_activity''), (''activity_id'', JStr aid), (''description'', JStr desc),
       (''reward_points'', JInt points)])"
  unfolding activity_payload_def by (subst Unmarshal_Marshal_map) (simp_all add: JInt_def)

lemma admin_payload_read:
  "Unmarshal (admin_payload did) = Some (JObj [(''action'', JStr ''add_admin''), (''new_admin_did'', JStr did)])"
  unfolding admin_payload_def by (subst Unmarshal_Marshal_map) simp_all

lemma transfer_payload_read:
  "Unmarshal (transfer_payload i points) =
     Some (JObj [(''action'', JStr ''transfer''), (''activity_ids'', JArr (map JStr (ti_activity_ids i))),
       (''reward_points'', JInt points), (''user_did'', JStr (ti_user_did i))])"
  unfolding transfer_payload_def
  by (subst Unmarshal_Marshal_map) (simp_all add: JInt_def list_all_iff)

text \<open>
  How a contract gets its request: \<open>contract_fn\<close> is a macro of the node's library, so \<open>de\<close> is a parameter,
  given the data of the transaction or, where it has a member under the function's name, that member. What
  the contracts rely on is that a derived reader takes an object only if it has every field of the struct,
  as no field of theirs is optional or has a default.
\<close>

definition request_of :: "(json \<Rightarrow> 'r option) \<Rightarrow> string \<Rightarrow> string \<Rightarrow> 'r option" where
  "request_of de f data =
     (case Unmarshal data of
        None \<Rightarrow> None
      | Some v \<Rightarrow>
          (case Option.bind (members v) (\<lambda>kvs. map_of kvs f) of
             None \<Rightarrow> de v
           | Some arg \<Rightarrow> de arg))"

definition reads_struct :: "string list \<Rightarrow> (json \<Rightarrow> 'r option) \<Rightarrow> bool" where
  "reads_struct names de \<longleftrightarrow> (\<forall>kvs r. de (JObj kvs) = Some r \<longrightarrow> set names \<subseteq> fst ` set kvs)"

lemma reads_structD: "reads_struct names de \<Longrightarrow> f \<in> set names \<Longrightarrow> f \<notin> fst ` set kvs \<Longrightarrow> de (JObj kvs) = None"
  unfolding reads_struct_def by (cases "de (JObj kvs)") auto

section \<open>A reader of each request\<close>

fun read_activity_req :: "json \<Rightarrow> AddActivityReq option" where
  "read_activity_req (JObj kvs) =
     (case (map_of kvs ''activity_id'', map_of kvs ''reward_points'', map_of kvs ''block_hash'') of
        (Some (JStr a), Some (JNum n), Some (JStr h)) \<Rightarrow>
          (case Atoi n of
             None \<Rightarrow> None
           | Some p \<Rightarrow>
               if 0 \<le> p \<and> p < 2 ^ 32
               then Some \<lparr>aa_activity_id = a, aa_reward_points = word_of_int p, aa_block_hash = h\<rparr> else None)
      | _ \<Rightarrow> None)"
| "read_activity_req _ = None"

fun read_admin_req :: "json \<Rightarrow> AddAdminReq option" where
  "read_admin_req (JObj kvs) = (case map_of kvs ''admin_did'' of Some (JStr d) \<Rightarrow> Some \<lparr>ad_admin_did = d\<rparr> | _ \<Rightarrow> None)"
| "read_admin_req _ = None"

fun read_transfer_req :: "json \<Rightarrow> json TransferSampleFTReq option" where
  "read_transfer_req (JObj kvs) =
     (case (map_of kvs ''name'', map_of kvs ''ft_info'') of
        (Some (JStr n), Some ft) \<Rightarrow> Some \<lparr>ts_name = n, ts_ft_info = ft\<rparr>
      | _ \<Rightarrow> None)"
| "read_transfer_req _ = None"

lemma map_of_keys: "map_of kvs k = Some v \<Longrightarrow> k \<in> fst ` set kvs"
  by (metis domI dom_map_of_conv_image_fst)

lemma request_readers:
  "reads_struct [''activity_id'', ''reward_points'', ''block_hash''] read_activity_req"
  "reads_struct [''admin_did''] read_admin_req"
  "reads_struct [''name'', ''ft_info''] read_transfer_req"
  unfolding reads_struct_def by (auto dest: map_of_keys split: option.splits json.splits)

section \<open>Properties\<close>




end
