(* ===== verification/Conformance.thy ===== *)
theory Conformance
  imports Server
begin

text \<open>
  The repository's own unit tests, on the model: \<open>config_test.go\<close>, the parts of \<open>manager_test.go\<close> that
  fix a value, and \<open>debug_handler_test.go\<close>, whose fake store and fetcher are here functions too. What
  those tests expect of the code, the definitions compute.
\<close>

section \<open>Configuration\<close>

definition did4_long :: string where
  "did4_long = ''bafybmid3lonah2dsayt644ptecq6iiyuxmlavstpyoeb3qu6excaxwz7oq''"

lemma TestParseIntervalOverrides:
  "parseIntervalOverrides ('' '' @ did4_long @ ''=5000 , bafybmiother:250,'') =
     Inr [(did4_long, 5 * second), (''bafybmiother'', 250 * millisecond)]"
  "parseIntervalOverrides '''' = Inr []"
  "list_all (\<lambda>bad. isl (parseIntervalOverrides bad))
     [''bafybmiabc'', ''=5000'', ''bafybmiabc='', ''bafybmiabc=five'', ''bafybmiabc=-1'']"
  by code_simp+

lemma TestLoadRejectsBadOverrides:
  "isl (Load pd (\<lambda>k. if k = ''PAYOUT_MIN_INTERVAL_OVERRIDES'' then ''bafybmiabc=oops'' else ''''))"
proof -
  have "isl (parseIntervalOverrides ''bafybmiabc=oops'')" by code_simp
  then show ?thesis by (auto simp: Load_def Let_def isl_def)
qed

lemma TestLoadWithoutOverridesUsesDefaults:
  "\<exists>cfg. Load pd (\<lambda>_. '''') = Inr cfg \<and> cfg_PayoutMinIntervalOverrides (app_env cfg) = [] \<and>
     cfg_PayoutMinInterval (app_env cfg) = second"
proof -
  have "parseIntervalOverrides '''' = Inr []" by code_simp
  then show ?thesis by (simp add: Load_def Let_def getEnvInt_def duration_defs in_int64_def)
qed

section \<open>Queue\<close>

lemma TestSetMinIntervalClampsNegative:
  "mgr_minInterval (SetMinInterval (- second) (NewManager 10 minute)) = 0"
  by (simp add: SetMinInterval_def duration_defs)

lemma TestPerAdminOverride:
  "let m = SetAdminMinInterval ''adminD'' (- second) (SetAdminMinInterval ''adminC'' 0
        (SetAdminMinInterval ''adminA'' (5 * second) (SetMinInterval second (NewManager 10 minute))))
   in IntervalFor m ''adminA'' = 5 * second \<and> IntervalFor m ''adminB'' = second \<and>
      IntervalFor m ''adminC'' = 0 \<and> IntervalFor m ''adminD'' = 0"
  by code_simp

text \<open>How long the worker of a test's clock sleeps: the rest of the interval, the whole of it, or not at all.\<close>

lemma TestSpacing:
  "let m = SetMinInterval second (NewManager 10 minute); q = \<lparr>aq_adminDID = ''adminA'', aq_ch = [], aq_lastDone = t\<rparr> in
     0 < t \<longrightarrow> waitForSpacing m q (t + 400 * millisecond) = Some (600 * millisecond) \<and>
       waitForSpacing m q t = Some second \<and> waitForSpacing (SetMinInterval 0 m) q t = None"
  by (simp add: waitForSpacing_def IntervalFor_def SetMinInterval_def NewManager_def duration_defs Let_def is_zero_time_def
      time_sub_def in_int64_def)

section \<open>Diagnostics\<close>

definition hexA :: string where "hexA = replicate 64 CHR ''a''"
definition hexB :: string where "hexB = replicate 64 CHR ''b''"
definition scID :: string where "scID = ''QmSDKAcontractcontractcontractcontractcontract''"
definition did4 :: string where "did4 = ''bafybmid3lona''"

definition mismatchText :: "string \<Rightarrow> string \<Rightarrow> string" where
  "mismatchText quorum owner =
     ''initiateConsensusHandler: transaction info validation failed: ValidateTransaction: '' @
     ''TokenChainIntigrityCheck: token '' @ scID @ '' (smart_contract) chain mismatch after sync from '' @
     did4 @ '': local latest '' @ quorum @ '' != expected '' @ owner"

text \<open>A search steps over the characters that cannot begin a match.\<close>

lemma heads_skip: "c \<noteq> CHR ''l'' \<Longrightarrow> match_heads (c # s) = None" "c \<noteq> CHR ''o'' \<Longrightarrow> match_heads (CHR ''l'' # c # s) = None"
  "c \<noteq> CHR ''c'' \<Longrightarrow> match_heads (CHR ''l'' # CHR ''o'' # c # s) = None"
  by (simp_all add: match_heads_def HasPrefix_def Let_def)

lemma contract_skip: "c \<noteq> CHR ''t'' \<Longrightarrow> match_contract (c # s) = None" "c \<noteq> CHR ''o'' \<Longrightarrow> match_contract (CHR ''t'' # c # s) = None"
  by (simp_all add: match_contract_def HasPrefix_def Let_def)

lemma heads_here: "match_heads (''local latest '' @ hexA @ '' != expected '' @ hexB) = Some (hexA, hexB)"
  by code_simp

lemma contract_here: "match_contract (''token '' @ scID @ '' (smart_contract) chain mismatch'' @ s) = Some scID"
proof -
  have "takeWhile (\<lambda>x. \<not> re_space x) (scID @ CHR '' '' # t) = scID" "dropWhile (\<lambda>x. \<not> re_space x) (scID @ CHR '' '' # t) = CHR '' '' # t" for t
  proof -
    have "\<forall>x \<in> set scID. \<not> re_space x" "re_space (CHR '' '')" by code_simp+
    then show "takeWhile (\<lambda>x. \<not> re_space x) (scID @ CHR '' '' # t) = scID"
      "dropWhile (\<lambda>x. \<not> re_space x) (scID @ CHR '' '' # t) = CHR '' '' # t" by (simp_all add: takeWhile_append dropWhile_append)
  qed
  moreover have "scID \<noteq> ''''" by (simp add: scID_def)
  ultimately show ?thesis by (simp add: match_contract_def HasPrefix_def Let_def)
qed

lemma TestParseMismatch:
  "parseMismatch (mismatchText hexA hexB) =
     Some \<lparr>mi_contract = scID, mi_quorum_head = hexA, mi_owner_expected = hexB\<rparr>"
  "parseMismatch ''SC lock failed'' = None"
proof -
  have "search match_heads (mismatchText hexA hexB) = Some (hexA, hexB)"
    using heads_here by (simp add: mismatchText_def scID_def did4_def heads_skip)
  moreover have "search match_contract (mismatchText hexA hexB) = Some scID"
    using contract_here by (simp add: mismatchText_def did4_def contract_skip)
  ultimately show "parseMismatch (mismatchText hexA hexB) =
     Some \<lparr>mi_contract = scID, mi_quorum_head = hexA, mi_owner_expected = hexB\<rparr>"
    by (simp add: parseMismatch_def)
  show "parseMismatch ''SC lock failed'' = None" by code_simp
qed

definition sept :: "int \<Rightarrow> int \<Rightarrow> int \<Rightarrow> instant" where
  "sept d h m = Date_UTC 2026 9 d h m 0 0"

lemma TestParseSince:
  "parseSince '''' d = Inr d" "parseSince ''2026-09-08T10:30:00Z'' d = Inr (sept 8 10 30)"
  "parseSince ''2026-09-08T12:30:00+02:00'' d = Inr (sept 8 10 30)" "parseSince ''2026-09-08 10:30'' d = Inr (sept 8 10 30)"
  "parseSince ''2026-09-08 10:30:00'' d = Inr (sept 8 10 30)" "parseSince ''2026-09-08'' d = Inr (sept 8 0 0)"
  "\<exists>m. parseSince ''yesterday'' d = Inl (Plain m)" "\<exists>m. parseSince ''notatime'' d = Inl (Plain m)"
proof -
  have f: "TrimSpace ''2026-09-08T10:30:00Z'' = ''2026-09-08T10:30:00Z''"
    "first_layout sinceLayouts ''2026-09-08T10:30:00Z'' = Some (sept 8 10 30)"
    "TrimSpace ''2026-09-08T12:30:00+02:00'' = ''2026-09-08T12:30:00+02:00''"
    "first_layout sinceLayouts ''2026-09-08T12:30:00+02:00'' = Some (sept 8 10 30)"
    "TrimSpace ''2026-09-08 10:30'' = ''2026-09-08 10:30''" "first_layout sinceLayouts ''2026-09-08 10:30'' = Some (sept 8 10 30)"
    "TrimSpace ''2026-09-08 10:30:00'' = ''2026-09-08 10:30:00''"
    "first_layout sinceLayouts ''2026-09-08 10:30:00'' = Some (sept 8 10 30)"
    "TrimSpace ''2026-09-08'' = ''2026-09-08''" "first_layout sinceLayouts ''2026-09-08'' = Some (sept 8 0 0)"
    "TrimSpace ''yesterday'' = ''yesterday''" "first_layout sinceLayouts ''yesterday'' = None"
    "TrimSpace ''notatime'' = ''notatime''" "first_layout sinceLayouts ''notatime'' = None"
    "TrimSpace '''' = ''''"
    by code_simp+
  show "parseSince '''' d = Inr d" "parseSince ''2026-09-08T10:30:00Z'' d = Inr (sept 8 10 30)"
    "parseSince ''2026-09-08T12:30:00+02:00'' d = Inr (sept 8 10 30)" "parseSince ''2026-09-08 10:30'' d = Inr (sept 8 10 30)"
    "parseSince ''2026-09-08 10:30:00'' d = Inr (sept 8 10 30)" "parseSince ''2026-09-08'' d = Inr (sept 8 0 0)"
    "\<exists>m. parseSince ''yesterday'' d = Inl (Plain m)" "\<exists>m. parseSince ''notatime'' d = Inl (Plain m)"
    by (simp_all add: parseSince_def f)
qed

lemma parse_limits:
  "parseLimit ''5000'' d 200 = Inr 200" "parseLimit '''' d mx = Inr d" "\<exists>m. parseLimit ''-1'' d mx = Inl (Plain m)"
proof -
  have "TrimSpace ''5000'' = ''5000''" "Atoi ''5000'' = Some 5000" "TrimSpace ''-1'' = ''-1''" "Atoi ''-1'' = Some (-1)" "TrimSpace '''' = ''''"
    by code_simp+
  then show "parseLimit ''5000'' d 200 = Inr 200" "parseLimit '''' d mx = Inr d" "\<exists>m. parseLimit ''-1'' d mx = Inl (Plain m)"
    by (simp_all add: parseLimit_def)
qed

text \<open>A backend that answers with what it was asked, and one that is down.\<close>

definition asked_row :: "instant \<Rightarrow> string \<Rightarrow> PayoutSummaryRow" where
  "asked_row since a = \<lparr>ps_admin_did = a, ps_node_port = ''8003'', ps_total = 10, ps_success = 7, ps_failed = 3, ps_mismatch = 3,
     ps_in_flight = 0, ps_first_mismatch = Some since, ps_last_mismatch = None, ps_last_success = None, ps_last_success_tx = ''''\<rparr>"

definition asked_group :: "instant \<Rightarrow> int \<Rightarrow> FailureGroup" where
  "asked_group since n = \<lparr>fg_count = n, fg_reason = ''chain mismatch # != #'', fg_first_at = since, fg_latest_at = since\<rparr>"

definition asked_status :: "string \<Rightarrow> string \<Rightarrow> instant \<Rightarrow> int \<Rightarrow> TransferStatus" where
  "asked_status a st since n = sample_status\<lparr>ts_admin_did := a, ts_status := st, ts_created_at := since, ts_reward_points := n\<rparr>"

definition asked_contracts :: "AdminContractRow list" where
  "asked_contracts =
     [\<lparr>cr_admin_did = did4, cr_node_port = ''8003'', cr_kind = ''reward'', cr_hash = scID, cr_deployed_at = 0\<rparr>,
      \<lparr>cr_admin_did = ''bafybmig3n5xn'', cr_node_port = ''8004'', cr_kind = ''reward'', cr_hash = ''QmDown'', cr_deployed_at = 0\<rparr>]"

definition asked_store :: "unit debugStore" where
  "asked_store = (dbDebugStore quiet_env)\<lparr>
     ds_PayoutSummary := (\<lambda>_ since a w. (Inr [asked_row since a], w)),
     ds_PayoutFailures := (\<lambda>_ since a n w. (Inr [asked_group since n], w)),
     ds_PayoutHistory := (\<lambda>_ a st since n w. (Inr [asked_status a st since n], w)),
     ds_ListAdminContracts := (\<lambda>_ a w. (Inr asked_contracts, w))\<rparr>"

definition down_store :: "unit debugStore" where
  "down_store = asked_store\<lparr>ds_PayoutSummary := (\<lambda>_ _ _ w. (Inl (Plain ''pg down''), w))\<rparr>"

lemma TestDebugRequiresAuth:
  "ep \<in> {GetDebugSummary t d, GetDebugFailures t d n, GetDebugHistory d st t n, GetDebugContracts d, GetDebugForkCheck d} \<Longrightarrow>
     rsp_status (fst (serve sv ctx '''' ep s)) = 401"
  by (auto simp: serve_def with_auth_def RequireAuth_def bearerToken_def HasPrefix_def Let_def reply_def)

lemma TestDebugSummary:
  "fst (handleDebugPayoutSummary asked_store None ''2026-09-08T10:30:00Z'' did4 w) =
     reply 200 (okResponse '''' (Some (gin_H [(''since'', time_json (sept 8 10 30)),
       (''admins'', JArr [debugSummaryRow (asked_row (sept 8 10 30) did4)])])))"
  "fst (handleDebugPayoutSummary asked_store None '''' d w) =
     reply 200 (okResponse '''' (Some (gin_H [(''since'', time_json (w_now w - 24 * hour)),
       (''admins'', JArr [debugSummaryRow (asked_row (w_now w - 24 * hour) d)])])))"
  "rsp_status (fst (handleDebugPayoutSummary asked_store None ''notatime'' d w)) = 400"
  "rsp_status (fst (handleDebugPayoutSummary down_store None '''' d w)) = 500"
  using TestParseSince(8) [of "w_now w - debugDefaultWindow"]
  by (auto simp: handleDebugPayoutSummary_def asked_store_def down_store_def TestParseSince(1,2) debugDefaultWindow_def
      bad_request_def query_failed_def Let_def)

lemma TestDebugFailures:
  "fst (handleDebugPayoutFailures asked_store None '''' d ''5000'' w) =
     reply 200 (okResponse '''' (Some (gin_H [(''since'', time_json (w_now w - 24 * hour)), (''limit'', JInt 200),
       (''failures'', JArr [debugFailureGroup (asked_group (w_now w - 24 * hour) 200)])])))"
  "fst (handleDebugPayoutFailures asked_store None '''' d '''' w) =
     reply 200 (okResponse '''' (Some (gin_H [(''since'', time_json (w_now w - 24 * hour)), (''limit'', JInt 20),
       (''failures'', JArr [debugFailureGroup (asked_group (w_now w - 24 * hour) 20)])])))"
  "rsp_status (fst (handleDebugPayoutFailures asked_store None '''' d ''-1'' w)) = 400"
  using parse_limits(3) [of 20 200]
  by (auto simp: handleDebugPayoutFailures_def asked_store_def TestParseSince(1) parse_limits(1,2) debugDefaultWindow_def
      debugFailuresLimit_def debugFailuresMax_def bad_request_def Let_def)

lemma TestDebugHistory:
  "rsp_status (fst (handleDebugPayoutHistory asked_store None '''' st t n w)) = 400"
  "rsp_status (fst (handleDebugPayoutHistory asked_store None ''x'' ''done'' t n w)) = 400"
  "fst (handleDebugPayoutHistory asked_store None ''x'' '''' '''' '''' w) =
     reply 200 (okResponse '''' (Some (gin_H [(''admin_did'', JStr ''x''), (''status'', JStr ''''), (''limit'', JInt 100),
       (''count'', JInt 1), (''rows'', JArr [toDebugTransferRow (asked_status ''x'' '''' 0 100)])])))"
  "fst (handleDebugPayoutHistory asked_store None did4 ''failed'' ''2026-09-08 10:30'' '''' w) =
     reply 200 (okResponse '''' (Some (gin_H [(''admin_did'', JStr did4), (''status'', JStr ''failed''), (''limit'', JInt 100),
       (''count'', JInt 1), (''rows'', JArr [toDebugTransferRow (asked_status did4 ''failed'' (sept 8 10 30) 100)])])))"
  by (simp_all add: handleDebugPayoutHistory_def validHistoryStatus_def asked_store_def TestParseSince parse_limits
      debugHistoryLimit_def Let_def did4_def)

text \<open>The contract chains: a long one, and a node that is down for the other admin.\<close>

definition head_entry :: "string \<Rightarrow> ChainEntry" where
  "head_entry tx = \<lparr>ce_transaction_id = tx, ce_initiator = '''', ce_epoch = 1000, ce_data = ''''\<rparr>"

definition asked_chain :: "unit chainFetcher" where
  "asked_chain = (\<lambda>_ _ hash w. (if hash = scID then Inr (Some (replicate 4220 (head_entry ''tx'') @ [head_entry hexA]))
      else Inl (Plain ''connection refused''), w))"

lemma TestDebugContracts:
  "fill_slots asked_chain ctx [1, 0] (slots_of (group_contracts asked_contracts)) w =
     ([(did4, (new_contract ''reward'' scID)\<lparr>dc_chain_length := 4221, dc_head_position := 4220, dc_head_tx := hexA, dc_head_epoch := 1000\<rparr>),
       (''bafybmig3n5xn'', (new_contract ''reward'' ''QmDown'')\<lparr>dc_error := err_text (Plain ''connection refused'')\<rparr>)], w)"
proof -
  have "scID \<noteq> ''QmDown''" by (simp add: scID_def)
  moreover have "replicate 4220 x @ xs = x # (replicate 4219 x @ xs)" for x :: ChainEntry and xs
    using replicate_Suc [of 4219 x] by simp
  ultimately show ?thesis
    by (simp add: asked_contracts_def group_contracts_def slots_of_def fillHead_def asked_chain_def
        new_contract_def chain_length_def head_entry_def did4_def Let_def)
qed

text \<open>
  The fork check: a mismatch after the last success. The owner at the head the quorum refused is forked,
  at the quorum's head it is not; an unreachable node is reported, and so is the absence of mismatches.
\<close>

definition forked_store :: "unit debugStore" where
  "forked_store = asked_store\<lparr>
     ds_ListAdminContracts := (\<lambda>_ a w. (Inr [hd asked_contracts], w)),
     ds_LatestRewardSuccess := (\<lambda>_ a w. (Inr (sample_status\<lparr>ts_transaction_id := ''last'', ts_created_at := sept 8 9 10\<rparr>), w)),
     ds_LatestRewardMismatch := (\<lambda>_ a w. (Inr (sample_status\<lparr>ts_request_id := ''req-mm'',
        ts_error_details := mismatchText hexA hexB, ts_created_at := sept 8 10 0\<rparr>), w)),
     ds_FirstRewardMismatchAfter := (\<lambda>_ a t w. (Inr (Some (t + 3 * second)), w))\<rparr>"

definition head_fetch :: "string \<Rightarrow> unit chainFetcher" where
  "head_fetch head = (\<lambda>_ _ hash w. (Inr (Some [head_entry ''deploy'', head_entry head]), w))"

definition fork_answer :: debugForkCheck where
  "fork_answer =
     \<lparr>fk_admin_did = did4, fk_node_port = ''8003'', fk_contract = scID, fk_quorum_head = hexA, fk_owner_expected = hexB,
      fk_owner_current_head = '''', fk_owner_chain_length = 0, fk_forked = False, fk_mismatch_seen_at = Some (sept 8 10 0),
      fk_mismatch_request = ''req-mm'', fk_first_mismatch_at = Some (sept 8 9 10 + 3 * second),
      fk_last_success_tx = ''last'', fk_last_success_at = Some (sept 8 9 10), fk_node_error = '''', fk_note = ''''\<rparr>"

lemma forked_note:
  "note_mismatch (sample_status\<lparr>ts_request_id := ''req-mm'', ts_error_details := mismatchText hexA hexB, ts_created_at := t\<rparr>) k =
     k\<lparr>fk_mismatch_seen_at := Some t, fk_mismatch_request := ''req-mm'', fk_quorum_head := hexA, fk_owner_expected := hexB,
       fk_contract := scID\<rparr>"
proof -
  have "scID \<noteq> ''''" by (simp add: scID_def)
  then show ?thesis by (simp add: note_mismatch_def TestParseMismatch(1) Let_def)
qed

lemma fork_facts_asked:
  "fork_facts forked_store ctx did4 w =
     (Inr ((empty_fork_check did4)\<lparr>fk_node_port := ''8003'', fk_contract := scID, fk_last_success_tx := ''last'',
        fk_last_success_at := Some (sept 8 9 10)\<rparr>), w)"
  by (simp add: fork_facts_def forked_store_def asked_contracts_def take_contract_def empty_fork_check_def Let_def)

lemma fork_check_heads:
  assumes "fetch = head_fetch head"
  shows "handleDebugForkCheck forked_store fetch None did4 w =
     (fork_reply (fork_answer\<lparr>fk_owner_current_head := head, fk_owner_chain_length := 2, fk_forked := hexA \<noteq> head\<rparr>), w)"
proof -
  have ne: "scID \<noteq> ''''" "hexA \<noteq> ''''" "did4 \<noteq> ''''" by (simp_all add: scID_def hexA_def did4_def)
  have st: "ds_LatestRewardMismatch forked_store ctx a w = (Inr (sample_status\<lparr>ts_request_id := ''req-mm'',
        ts_error_details := mismatchText hexA hexB, ts_created_at := sept 8 10 0\<rparr>), w)"
    "ds_FirstRewardMismatchAfter forked_store ctx a t w = (Inr (Some (t + 3 * second)), w)" for ctx a t and w :: networld
    by (simp_all add: forked_store_def)
  show ?thesis
    using ne
    by (auto simp: handleDebugForkCheck_def fork_facts_asked st forked_note note_first_def fillOwnerHead_def fillHead_def
        assms head_fetch_def chain_length_def new_contract_def head_entry_def decide_forked_def empty_fork_check_def fork_answer_def Let_def)
qed

lemma TestDebugForkCheck:
  "fst (handleDebugForkCheck forked_store (head_fetch hexB) None did4 w) =
     fork_reply (fork_answer\<lparr>fk_owner_current_head := hexB, fk_owner_chain_length := 2, fk_forked := True\<rparr>)"
  "fst (handleDebugForkCheck forked_store (head_fetch hexA) None did4 w) =
     fork_reply (fork_answer\<lparr>fk_owner_current_head := hexA, fk_owner_chain_length := 2, fk_forked := False\<rparr>)"
  "rsp_status (fst (handleDebugForkCheck forked_store fetch None '''' w)) = 400"
proof -
  have "hexA \<noteq> hexB" by code_simp
  then show "fst (handleDebugForkCheck forked_store (head_fetch hexB) None did4 w) =
      fork_reply (fork_answer\<lparr>fk_owner_current_head := hexB, fk_owner_chain_length := 2, fk_forked := True\<rparr>)"
    and "fst (handleDebugForkCheck forked_store (head_fetch hexA) None did4 w) =
      fork_reply (fork_answer\<lparr>fk_owner_current_head := hexA, fk_owner_chain_length := 2, fk_forked := False\<rparr>)"
    by (simp_all add: fork_check_heads [OF refl])
  show "rsp_status (fst (handleDebugForkCheck forked_store fetch None '''' w)) = 400"
    by (simp add: handleDebugForkCheck_def)
qed

end
