(* ===== verification/Spec2Isabelle.thy ===== *)
theory Spec2Isabelle
  imports Restart Contracts Conformance
begin

text \<open>
  A verification library for the YMCA wellness dApp: the Go server that registers activities with
  reward points, and pays users for the activities they did by executing smart contracts on a
  Rubix node.

  The program in one paragraph. \<open>cmd/server/main.go\<close> reads the environment, opens Postgres, loads the
  admins and serves \<open>internal/server\<close>. A payout request is checked by \<open>internal/service\<close>, gets a row in
  \<open>transfer_status\<close> and a job in its admin's queue (\<open>internal/queue\<close>); one worker for each admin takes
  jobs in order, spaces them, executes the admin's contract on the Rubix node (\<open>internal/rubix\<close>) and
  records the outcome in the row. The other routes onboard users, deploy contracts, add activities,
  provision admins, log operators in, and report.

  The theories, each over those above it:

  \<^item> \<open>Prelude\<close>: Go's 64-bit integers and instants, results, tables of rows, transition systems.
  \<^item> \<open>GoStrings\<close>, \<open>GoTime\<close>, \<open>Json\<close>, \<open>JsonReader\<close>, \<open>Errors\<close>: what the program uses of \<open>strings\<close>,
    \<open>strconv\<close>, \<open>net/url\<close>, \<open>regexp\<close>, \<open>time\<close>, \<open>encoding/json\<close> and \<open>errors\<close>, on byte strings. \<open>JsonReader\<close>
    reads a text back, with the round trip for what \<open>Json\<close> writes.
  \<^item> \<open>Database\<close>, \<open>Transfers\<close>, \<open>Registry\<close>, \<open>Accounts\<close>, \<open>Diagnostics\<close>: \<open>internal/database\<close>. A table is
    the list of its rows; one SQL statement is one atomic step that may fail, and then has no effect,
    or find its context expired. \<open>Transfers\<close> is the \<open>transfer_status\<close> ledger, \<open>Registry\<close> the users,
    contracts, activities and admins, \<open>Accounts\<close> the operators and their refresh tokens, \<open>Diagnostics\<close>
    the reporting queries.
  \<^item> \<open>Config\<close>: \<open>internal/config\<close>, the environment and the admins held in memory.
  \<^item> \<open>Rubix\<close>: \<open>internal/rubix\<close>, the HTTP client of a node. The node is a parameter: a function
    from all requests sent so far to the next answer and the time it takes.
  \<^item> \<open>Service\<close>: \<open>internal/service\<close>, the flows over the database and the node.
  \<^item> \<open>Contracts\<close>: the Rust contracts under \<open>contracts/\<close>, and whether what the server sends is a request
    of theirs.
  \<^item> \<open>Queue\<close>, \<open>Scheduler\<close>: \<open>internal/queue\<close>. \<open>Queue\<close> has the manager's operations and \<open>processOne\<close>;
    \<open>Scheduler\<close> has the goroutines as a step relation over all admins, with Go's timers and channels.
  \<^item> \<open>Latency\<close>: how long one job takes at most.
  \<^item> \<open>Payouts\<close>: the properties that span the queue, the service and the node.
  \<^item> \<open>Auth\<close>, \<open>AuthApi\<close>: \<open>internal/auth\<close> and \<open>auth_handler.go\<close>: keys, passwords, access tokens, the
    middleware, refresh rotation, and the answers' envelopes.
  \<^item> \<open>Handlers\<close>, \<open>V1Aliases\<close>, \<open>AdminsApi\<close>, \<open>Debug\<close>: the other handlers of \<open>internal/server\<close>, one
    definition for each, on every branch with its status code and answer.
  \<^item> \<open>Server\<close>: the route table, which routes ask for a token, and the dispatch of a request.
  \<^item> \<open>Startup\<close>: \<open>main\<close> and \<open>database.Connect\<close>, up to the listening server, with every fatal exit.
  \<^item> \<open>Ledger\<close>: what every route leaves alone: the payout ledger, except the payout requests, the
    order of the client pool, the record of the requests sent, and the constraints of the schema.
  \<^item> \<open>Deployment\<close>: one small deployment, started and serving a payout, computed step by step; the
    witnesses of the whole system stand on it.
  \<^item> \<open>Steps\<close>: the running server as a step relation. A worker's job goes statement by statement (\<open>stage\<close>
    is where it stands and what its variables hold, \<open>advance\<close> the next statement of
    \<open>ProcessTransferReward\<close>), a payout request in three steps (its row, the queue, the row of a refused
    one), any other request in one, and all of them interleave in any order.
  \<^item> \<open>System\<close>: who holds which payout, the rows behind them, and the abstract life of a payout that this
    system refines.
  \<^item> \<open>Settlement\<close>: what a success in the ledger means: the statements of one transfer, sent and paid as
    the row says.
  \<^item> \<open>Restart\<close>: one process after another on the same tables, each stopped at any step: the constraints
    of the schema hold throughout, and what a process left unfinished stays unfinished.
  \<^item> \<open>Conformance\<close>: the repository's unit tests, as lemmas on the model.

  State. Every operation threads one record, the world, extended from part to part: the clock, the
  count of statements and of random identifiers and the tables (\<open>dbworld\<close>), the configuration
  (\<open>cfgworld\<close>), the requests sent, the files and the client pool (\<open>networld\<close>). A handler also takes
  and gives back the queue manager. What is outside the program is the record \<open>env\<close>, so a run is a
  function of \<open>env\<close> and the world it starts in: the node's answers, the faults of the database, the
  random identifiers, and for authentication the hash, token and key functions of its libraries, with
  their documented laws as named hypotheses where a property needs them. A Go error is \<open>Inl\<close>, a value
  \<open>Inr\<close>; a handler's answer is a status code and a body.

  Interfaces. \<open>keyed_update\<close> is the contract of an update that keeps the key of a row, interpreted
  on the updates of every table; \<open>bounded_fifo\<close> is the contract of a buffered channel, interpreted on
  the list model; \<open>invariant_system\<close> is the rule for invariants of a step relation, interpreted on
  the scheduler and, for the settlement of payouts, on the running server; \<open>refinement\<close> extends it by
  an abstraction to a simpler step relation, and is interpreted on the running server against \<open>life\<close>;
  \<open>observing_backend\<close> is what the debug handlers rely on (a store and a fetcher that only look),
  interpreted on the production store; \<open>frame\<close>, extended by \<open>full_frame\<close>, is a condition on the world
  that the program's writes keep, and so every route does; \<open>table_frame\<close> and \<open>full_table_frame\<close>, which
  give them, are for conditions on other tables than those written. They are interpreted on the payout
  ledger, the client pool, the record of the requests sent, and the constraints of the schema.

  What the lemmas show. For the database: what each statement does to the views of the tables
  (\<open>transfer_of\<close>, \<open>contract_of\<close>, \<open>activity_of\<close>, \<open>admin_of_user\<close>, \<open>points_for\<close>), that keys stay
  unique, and that readers change nothing. For the client and the service: what each call may send,
  in order, and what it leaves alone; and that a payload reads back as the values it was made of. For the queue: order, spacing, capacity, progress and
  independence of the admins' workers, by an invariant of the step relation; and the outcome of one
  job on every branch. For the HTTP surface: which routes are open, that GET requests write nothing,
  that the old routes do the work of the new ones, that tokens and refresh families behave, and that
  a started server is consistent. For the whole, statement by statement: the steps run alone compute
  what \<open>processOne\<close> and \<open>serve\<close> compute; in any interleaving each payout is run at most once, its status
  only moves along its life, a final status stays, a success was paid on chain exactly as its row
  says, the workers drain their queues; and in any line of processes the tables stay well-typed, and a
  payout a process finds in the ledger stays as it is.

  Bounds. Go's \<open>int\<close> and \<open>time.Duration\<close> are 64-bit; where the code multiplies or subtracts,
  \<open>wrap64\<close> or the saturating \<open>time_sub\<close> is written out, and the 32-bit columns refuse what does
  not fit. Instants are unbounded, counted from Go's zero time. Only the reader of JSON takes fuel, twice
  the length of the text and one more, and more changes nothing (\<open>read_value_enough\<close>); the other loops of
  the code that are modelled end by structure or measure, and the worker loop, which does not, is a step relation, whose
  runs are bounded by \<open>work_left\<close> when no request comes in.

  Not modelled. The web framework: it matches paths, decodes bodies into the handlers' structs and
  answers CORS requests, and the model starts from the decoded request. Logging; the release of the
  database pool; signals and the wait for open requests at shutdown, which are I/O. In \<open>Steps\<close> a
  request other than a payout is one step: it writes no payout (\<open>Ledger\<close>), and interleavings of two
  such requests are shown where they matter (\<open>AuthApi\<close>, the refresh race). One call to the node is one
  step, however long the node takes. The
  macro that makes the Rust functions entry points of a contract, serde and the host functions are the
  node's; the tests and scripts are not part of the program.
\<close>

end
